(* ===== verification/Prelude.thy ===== *)
theory Prelude
  imports Main "HOL-Library.Word"
begin

text \<open>
  What every component of the development shares: names for the machine integers of the
  source, the integer operations of the Rust standard library the code calls
  (\<open>saturating_add\<close>, \<open>saturating_sub\<close>, \<open>checked_sub\<close>, \<open>to_be_bytes\<close>,
  inclusive ranges), channels as the code sees them, and the generic lemmas on words, lists and
  maps. The collection \<open>rust_int\<close> holds the equations that carry a goal on \<open>w word\<close>
  values to natural numbers.
\<close>

named_theorems rust_int

type_synonym u8 = "8 word"
type_synonym u16 = "16 word"
type_synonym u32 = "32 word"
type_synonym u64 = "64 word"
type_synonym bytes = "u8 list"

section \<open>Integer operations of the standard library\<close>

definition saturating_add :: "'a::len word \<Rightarrow> 'a word \<Rightarrow> 'a word" where
  "saturating_add a b = (if unat a + unat b < 2 ^ LENGTH('a) then a + b else - 1)"

definition saturating_sub :: "'a::len word \<Rightarrow> 'a word \<Rightarrow> 'a word" where
  "saturating_sub a b = (if b \<le> a then a - b else 0)"

definition wrapping_add :: "'a::len word \<Rightarrow> 'a word \<Rightarrow> 'a word" where
  "wrapping_add a b = a + b"

definition checked_sub :: "'a::len word \<Rightarrow> 'a word \<Rightarrow> 'a word option" where
  "checked_sub a b = (if b \<le> a then Some (a - b) else None)"

text \<open>The range \<open>first..=last\<close>: empty when \<open>last < first\<close>.\<close>

definition range_incl :: "u32 \<Rightarrow> u32 \<Rightarrow> u32 list" where
  "range_incl a b = map word_of_nat [unat a ..< Suc (unat b)]"

lemma unat_max_word: "unat (- 1 :: 'a::len word) = 2 ^ LENGTH('a) - 1"
  by (simp add: unsigned_minus_1_eq_mask mask_eq_exp_minus_1)

lemma unat_lt_exp: "unat (w :: 'a::len word) < 2 ^ LENGTH('a)"
  by (rule unsigned_less)

lemma unat_u8_less [simp]: "unat (b :: u8) < 256"
  using unat_lt_exp [of b] by simp

lemma unat_saturating_add [rust_int]:
  "unat (saturating_add a b :: 'a::len word) = min (unat a + unat b) (2 ^ LENGTH('a) - 1)"
proof (cases "unat a + unat b < 2 ^ LENGTH('a)")
  case True
  then have "unat (a + b) = unat a + unat b"
    by (simp add: unat_add_lem [THEN iffD1])
  with True show ?thesis by (simp add: saturating_add_def)
next
  case False
  then show ?thesis by (simp add: saturating_add_def unat_max_word)
qed

lemma unat_saturating_sub [rust_int]: "unat (saturating_sub a b) = unat a - unat b"
  by (auto simp: saturating_sub_def unat_sub word_le_nat_alt)

lemma unat_wrapping_add [rust_int]:
  "unat (wrapping_add a b :: 'a::len word) = (unat a + unat b) mod 2 ^ LENGTH('a)"
  by (simp add: wrapping_add_def unat_word_ariths)

lemma saturating_sub_one_less: "0 < a \<Longrightarrow> unat (saturating_sub a 1) = unat a - 1"
  by (simp add: unat_saturating_sub)

lemma wrapping_add_of_nat:
  "wrapping_add (wrapping_add a (word_of_nat m)) (word_of_nat n) = wrapping_add a (word_of_nat (m + n))"
  by (simp add: wrapping_add_def algebra_simps)

lemma wrapping_add_0 [simp]: "wrapping_add a 0 = a"
  by (simp add: wrapping_add_def)

lemma unat_pos_iff: "0 < unat (a :: 'a::len word) \<longleftrightarrow> a \<noteq> 0"
  by (simp add: unat_gt_0)

lemma word_of_nat_u32_inj:
  "m < 2 ^ 32 \<Longrightarrow> n < 2 ^ 32 \<Longrightarrow> (word_of_nat m :: u32) = word_of_nat n \<longleftrightarrow> m = n"
  by (simp add: word_of_nat_eq_iff take_bit_nat_eq_self)

lemma set_range_incl: "set (range_incl a b) = {i. a \<le> i \<and> i \<le> b}"
proof
  show "set (range_incl a b) \<subseteq> {i. a \<le> i \<and> i \<le> b}"
  proof
    fix i assume "i \<in> set (range_incl a b)"
    then obtain n where n: "i = word_of_nat n" "unat a \<le> n" "n \<le> unat b"
      by (auto simp: range_incl_def)
    have "n < 2 ^ 32" using n(3) unat_lt_exp [of b] by simp
    then have "unat i = n" using n(1) by (simp add: unsigned_of_nat take_bit_nat_eq_self)
    with n show "i \<in> {i. a \<le> i \<and> i \<le> b}" by (simp add: word_le_nat_alt)
  qed
  show "{i. a \<le> i \<and> i \<le> b} \<subseteq> set (range_incl a b)"
  proof
    fix i assume "i \<in> {i. a \<le> i \<and> i \<le> b}"
    then have "unat i \<in> set [unat a ..< Suc (unat b)]" by (auto simp: word_le_nat_alt)
    then have "word_of_nat (unat i) \<in> set (range_incl a b)"
      unfolding range_incl_def set_map by (rule imageI)
    then show "i \<in> set (range_incl a b)" by simp
  qed
qed

lemma sorted_range_incl: "sorted_wrt (<) (range_incl a b)"
proof -
  have "(word_of_nat m :: u32) < word_of_nat n" if "m < n" "n \<le> unat b" for m n
  proof -
    from that unat_lt_exp [of b] have "m < 2 ^ 32" "n < 2 ^ 32" by auto
    with that(1) show ?thesis by (simp add: word_less_nat_alt unsigned_of_nat take_bit_nat_eq_self)
  qed
  then have "sorted_wrt (\<lambda>m n. (word_of_nat m :: u32) < word_of_nat n) [unat a ..< Suc (unat b)]"
    by (intro sorted_wrt_mono_rel [OF _ sorted_wrt_upt]) auto
  then show ?thesis
    by (simp only: range_incl_def sorted_wrt_map)
qed

section \<open>Big-endian bytes\<close>

fun be_bytes :: "nat \<Rightarrow> nat \<Rightarrow> bytes" where
  "be_bytes 0 n = []"
| "be_bytes (Suc k) n = be_bytes k (n div 256) @ [word_of_nat (n mod 256)]"

definition be_nat :: "bytes \<Rightarrow> nat" where
  "be_nat bs = foldl (\<lambda>a b. a * 256 + unat b) 0 bs"

lemma length_be_bytes [simp]: "length (be_bytes k n) = k"
  by (induction k arbitrary: n) auto

lemma be_nat_snoc: "be_nat (bs @ [b]) = be_nat bs * 256 + unat b"
  by (simp add: be_nat_def)

lemma be_nat_be_bytes [simp]: "n < 256 ^ k \<Longrightarrow> be_nat (be_bytes k n) = n"
proof (induction k arbitrary: n)
  case 0
  then show ?case by (simp add: be_nat_def)
next
  case (Suc k)
  then have "n div 256 < 256 ^ k" by (simp add: less_mult_imp_div_less mult.commute)
  then have "be_nat (be_bytes k (n div 256)) = n div 256" by (rule Suc.IH)
  then show ?case by (simp add: be_nat_snoc unsigned_of_nat take_bit_nat_eq_self)
qed

lemma be_nat_less: "be_nat bs < 256 ^ length bs"
proof (induction bs rule: rev_induct)
  case Nil
  then show ?case by (simp add: be_nat_def)
next
  case (snoc b bs)
  then have "be_nat bs * 256 + unat b < 256 * 256 ^ length bs"
    using unat_u8_less [of b] by linarith
  then show ?case by (simp add: be_nat_snoc)
qed

lemma be_bytes_be_nat: "be_bytes (length bs) (be_nat bs) = bs"
proof (induction bs rule: rev_induct)
  case Nil
  then show ?case by (simp add: be_nat_def)
next
  case (snoc b bs)
  have "unat b < 256" by simp
  with snoc show ?case by (simp add: be_nat_snoc)
qed

lemma be_bytes_1: "be_bytes 1 n = [word_of_nat (n mod 256)]"
  by simp

lemma be_bytes_2: "be_bytes 2 n = [word_of_nat (n div 256 mod 256), word_of_nat (n mod 256)]"
proof -
  have "be_bytes 2 n = be_bytes (Suc (Suc 0)) n"
    by (simp only: eval_nat_numeral BitM.simps One_nat_def)
  then show ?thesis by (simp only: be_bytes.simps append.simps)
qed

lemma be_bytes_4: "be_bytes 4 n = [word_of_nat (n div 256 div 256 div 256 mod 256),
    word_of_nat (n div 256 div 256 mod 256), word_of_nat (n div 256 mod 256), word_of_nat (n mod 256)]"
proof -
  have "be_bytes 4 n = be_bytes (Suc (Suc (Suc (Suc 0)))) n"
    by (simp only: eval_nat_numeral BitM.simps One_nat_def)
  then show ?thesis by (simp only: be_bytes.simps append.simps)
qed

definition u32_to_be_bytes :: "u32 \<Rightarrow> bytes" where
  "u32_to_be_bytes w = be_bytes 4 (unat w)"

lemma u32_to_be_bytes_inj: "u32_to_be_bytes a = u32_to_be_bytes b \<longleftrightarrow> a = b"
proof
  assume "u32_to_be_bytes a = u32_to_be_bytes b"
  moreover have "unat a < 256 ^ 4" "unat b < 256 ^ 4"
    using unat_lt_exp [of a] unat_lt_exp [of b] by simp_all
  ultimately have "unat a = unat b"
    unfolding u32_to_be_bytes_def by (metis be_nat_be_bytes)
  then show "a = b" by (simp only: word_unat_eq_iff)
qed simp

section \<open>Channels\<close>

text \<open>
  An \<open>mpsc::Sender\<close> as its owner sees it: \<open>rx_alive\<close> is whether the receiving half
  still exists (an input of the model: the environment drops it), \<open>sent\<close> the values handed
  over so far. A send fails exactly when the receiving half is gone. Waiting for room in a bounded
  channel delays a send and does not change its result.
\<close>

record 'a chan =
  rx_alive :: bool
  sent :: "'a list"

definition chan_send :: "'a chan \<Rightarrow> 'a \<Rightarrow> 'a chan option" where
  "chan_send c x = (if rx_alive c then Some (c\<lparr>sent := sent c @ [x]\<rparr>) else None)"

section \<open>Lists\<close>

lemma distinct_map_append_new:
  "distinct (map f xs) \<Longrightarrow> f x \<notin> f ` set xs \<Longrightarrow> distinct (map f (xs @ [x]))"
  by auto

lemma list_all_take [intro]: "list_all P xs \<Longrightarrow> list_all P (take n xs)"
  by (auto simp: list_all_iff dest: in_set_takeD)

lemma list_all_drop [intro]: "list_all P xs \<Longrightarrow> list_all P (drop n xs)"
  by (auto simp: list_all_iff dest: in_set_dropD)

lemma foldl_invariant:
  assumes "P s" and "\<And>s x. x \<in> set xs \<Longrightarrow> P s \<Longrightarrow> P (f s x)"
  shows "P (foldl f s xs)"
  using assms by (induction xs arbitrary: s) auto

end
