(* ===== verification/Amqp_Types.thy ===== *)
theory Amqp_Types
  imports Prelude
begin

text \<open>
  The data of the protocol: AMQP values (serde_amqp/src/value), the definitions, delivery states
  and performatives of fe2o3-amqp-types, and the two state enumerations. Signed integers, floats
  and decimals are kept as their bit patterns; strings and symbols as byte strings; ordered maps as
  the list of their entries.
\<close>

type_synonym symbol = string
type_synonym delivery_tag = bytes
type_synonym payload = bytes

section \<open>Values\<close>

datatype descriptor = DName symbol | DCode u64

datatype amqp_value =
    VDescribed descriptor amqp_value
  | VNull
  | VBool bool
  | VUbyte u8
  | VUshort u16
  | VUint u32
  | VUlong u64
  | VByte u8
  | VShort u16
  | VInt u32
  | VLong u64
  | VFloat u32
  | VDouble u64
  | VDecimal32 bytes
  | VDecimal64 bytes
  | VDecimal128 bytes
  | VChar u32
  | VTimestamp u64
  | VUuid bytes
  | VBinary bytes
  | VString string
  | VSymbol symbol
  | VList "amqp_value list"
  | VMap "(amqp_value \<times> amqp_value) list"
  | VArray "amqp_value list"

type_synonym fields = "(symbol \<times> amqp_value) list"

section \<open>Definitions\<close>

datatype role = Sender | Receiver

datatype sender_settle_mode = Unsettled | Settled | Mixed

datatype receiver_settle_mode = First | Second

datatype amqp_error_cond = InternalError | NotFound | UnauthorizedAccess | DecodeError
  | ResourceLimitExceeded | NotAllowed | InvalidField | NotImplemented | ResourceLocked
  | PreconditionFailed | ResourceDeleted | AmqpIllegalState | FrameSizeTooSmall

datatype connection_error_cond = ConnectionForced | FramingError | ConnectionRedirect

datatype session_error_cond = WindowViolation | ErrantLink | SeHandleInUse | SeUnattachedHandle

datatype link_error_cond = DetachForced | TransferLimitExceeded | MessageSizeExceeded
  | LinkRedirect | Stolen

datatype transaction_error = UnknownId | TxnRollback | TxnTimeout

datatype error_condition =
    AmqpError amqp_error_cond
  | ConnectionError connection_error_cond
  | SessionError session_error_cond
  | LinkError link_error_cond
  | CustomError symbol
  | TransactionError transaction_error

record amqp_error =
  err_condition :: error_condition
  err_description :: "string option"
  err_info :: "fields option"

section \<open>Delivery states\<close>

record modified =
  delivery_failed :: "bool option"
  undeliverable_here :: "bool option"
  message_annotations :: "fields option"

datatype outcome =
    OAccepted
  | ORejected "amqp_error option"
  | OReleased
  | OModified modified
  | ODeclared bytes

datatype delivery_state =
    Received u32 u64
  | Accepted
  | Rejected "amqp_error option"
  | Released
  | Modified modified
  | Declared bytes
  | TransactionalState bytes "outcome option"

fun is_terminal :: "delivery_state \<Rightarrow> bool" where
  "is_terminal Accepted = True"
| "is_terminal (Rejected _) = True"
| "is_terminal Released = True"
| "is_terminal (Modified _) = True"
| "is_terminal (Received _ _) = False"
| "is_terminal (Declared _) = True"
| "is_terminal (TransactionalState _ _) = False"

section \<open>Termini\<close>

datatype terminus_durability = DurNone | DurConfiguration | DurUnsettledState

datatype terminus_expiry_policy = LinkDetach | SessionEnd | ConnectionClose | Never

datatype distribution_mode = Move | Copy

record source =
  src_address :: "string option"
  src_durable :: terminus_durability
  src_expiry_policy :: terminus_expiry_policy
  src_timeout :: u32
  src_dynamic :: bool
  src_dynamic_node_properties :: "fields option"
  src_distribution_mode :: "distribution_mode option"
  src_filter :: "fields option"
  src_default_outcome :: "outcome option"
  src_outcomes :: "symbol list option"
  src_capabilities :: "symbol list option"

record target =
  tgt_address :: "string option"
  tgt_durable :: terminus_durability
  tgt_expiry_policy :: terminus_expiry_policy
  tgt_timeout :: u32
  tgt_dynamic :: bool
  tgt_dynamic_node_properties :: "fields option"
  tgt_capabilities :: "symbol list option"

datatype txn_capability = LocalTransactions | DistributedTransactions | PromotableTransactions
  | MultiTxnsPerSsn | MultiSsnsPerTxn

datatype target_archetype = ATarget target | ACoordinator "txn_capability list option"

section \<open>Performatives\<close>

record transfer =
  tr_handle :: u32
  tr_delivery_id :: "u32 option"
  tr_delivery_tag :: "delivery_tag option"
  tr_message_format :: "u32 option"
  tr_settled :: "bool option"
  tr_more :: bool
  tr_rcv_settle_mode :: "receiver_settle_mode option"
  tr_state :: "delivery_state option"
  tr_resume :: bool
  tr_aborted :: bool
  tr_batchable :: bool

record flow =
  fl_next_incoming_id :: "u32 option"
  fl_incoming_window :: u32
  fl_next_outgoing_id :: u32
  fl_outgoing_window :: u32
  fl_handle :: "u32 option"
  fl_delivery_count :: "u32 option"
  fl_link_credit :: "u32 option"
  fl_available :: "u32 option"
  fl_drain :: bool
  fl_echo :: bool
  fl_properties :: "fields option"

record disposition =
  di_role :: role
  di_first :: u32
  di_last :: "u32 option"
  di_settled :: bool
  di_state :: "delivery_state option"
  di_batchable :: bool

record detach =
  de_handle :: u32
  de_closed :: bool
  de_error :: "amqp_error option"

record begin_perf =
  be_remote_channel :: "u16 option"
  be_next_outgoing_id :: u32
  be_incoming_window :: u32
  be_outgoing_window :: u32
  be_handle_max :: u32
  be_offered_capabilities :: "symbol list option"
  be_desired_capabilities :: "symbol list option"
  be_properties :: "fields option"

record end_perf =
  en_error :: "amqp_error option"

record attach =
  at_name :: string
  at_handle :: u32
  at_role :: role
  at_snd_settle_mode :: sender_settle_mode
  at_rcv_settle_mode :: receiver_settle_mode
  at_source :: "source option"
  at_target :: "target_archetype option"
  at_unsettled :: "(delivery_tag \<times> delivery_state option) list option"
  at_incomplete_unsettled :: bool
  at_initial_delivery_count :: "u32 option"
  at_max_message_size :: "u64 option"
  at_offered_capabilities :: "symbol list option"
  at_desired_capabilities :: "symbol list option"
  at_properties :: "fields option"

record open_perf =
  op_container_id :: string
  op_hostname :: "string option"
  op_max_frame_size :: u32
  op_channel_max :: u16
  op_idle_time_out :: "u32 option"
  op_outgoing_locales :: "symbol list option"
  op_incoming_locales :: "symbol list option"
  op_offered_capabilities :: "symbol list option"
  op_desired_capabilities :: "symbol list option"
  op_properties :: "fields option"

record close_perf =
  cl_error :: "amqp_error option"

section \<open>States of Connection and Session\<close>

datatype connection_state = CStart | CHeaderReceived | CHeaderSent | CHeaderExchange | COpenPipe
  | COpenClosePipe | COpenReceived | COpenSent | CClosePipe | COpened | CCloseReceived | CCloseSent
  | CDiscarding | CEnd

datatype session_state = Unmapped | BeginSent | BeginReceived | Mapped | EndSent | EndReceived
  | Discarding

section \<open>Why an endpoint stopped\<close>

datatype connection_stop_reason = ConnClosed | ConnClosedWithError amqp_error
  | ConnRemoteClosed | ConnRemoteClosedWithError amqp_error

datatype session_stop_reason = Ended | EndedWithError amqp_error | SsRemoteEnded
  | SsRemoteEndedWithError amqp_error | SsConnectionStopped connection_stop_reason

datatype link_state_error = LseIllegalState | LseSessionStopped session_stop_reason
  | LseRemoteDetached | LseRemoteDetachedWithError amqp_error
  | LseRemoteClosed | LseRemoteClosedWithError amqp_error | LseExpectImmediateDetach

end
