(* ===== verification/Link_Flow.thy ===== *)
theory Link_Flow
  imports Amqp_Types
begin

text \<open>
  Link flow control: fe2o3-amqp/src/link/state.rs, the part of a flow frame a link sees
  (\<open>LinkFlow\<close>, endpoint/mod.rs) and the waiting \<open>consume\<close> of the sender
  (util/consumer.rs, util/producer.rs). The lock around the state is not modelled: every operation
  holds it for its whole duration, so operations on one link are a sequence of the functions below.
  The interface \<open>credit_ledger\<close> is what both roles promise of their \<open>consume\<close>.
\<close>

section \<open>The flow state and its operations\<close>

record link_flow =
  lf_handle :: u32
  lf_delivery_count :: "u32 option"
  lf_link_credit :: "u32 option"
  lf_available :: "u32 option"
  lf_drain :: bool
  lf_echo :: bool
  lf_properties :: "fields option"

text \<open>\<open>LinkFlow::try_from(Flow)\<close>: a flow without a handle carries no link state.\<close>

definition link_flow_try_from :: "flow \<Rightarrow> link_flow option" where
  "link_flow_try_from v =
     (case fl_handle v of
        None \<Rightarrow> None
      | Some h \<Rightarrow> Some \<lparr>lf_handle = h, lf_delivery_count = fl_delivery_count v,
          lf_link_credit = fl_link_credit v, lf_available = fl_available v, lf_drain = fl_drain v,
          lf_echo = fl_echo v, lf_properties = fl_properties v\<rparr>)"

record flow_state =
  initial_delivery_count :: u32
  delivery_count :: u32
  link_credit :: u32
  available :: u32
  drain :: bool
  properties :: "fields option"

definition as_link_flow :: "flow_state \<Rightarrow> u32 \<Rightarrow> bool \<Rightarrow> bool \<Rightarrow> link_flow" where
  "as_link_flow st output_handle echo include_properties =
     \<lparr>lf_handle = output_handle, lf_delivery_count = Some (delivery_count st),
      lf_link_credit = Some (link_credit st), lf_available = Some (available st),
      lf_drain = drain st, lf_echo = echo,
      lf_properties = (if include_properties then properties st else None)\<rparr>"

definition sender_on_incoming_flow ::
    "flow_state \<Rightarrow> link_flow \<Rightarrow> u32 \<Rightarrow> flow_state \<times> link_flow option" where
  "sender_on_incoming_flow st flow output_handle =
     (let delivery_count_rcv = (case lf_delivery_count flow of
            Some c \<Rightarrow> c | None \<Rightarrow> initial_delivery_count st);
          st1 = (case lf_link_credit flow of
            Some link_credit_rcv \<Rightarrow>
              st\<lparr>link_credit := saturating_sub
                   (saturating_add delivery_count_rcv link_credit_rcv) (delivery_count st)\<rparr>
          | None \<Rightarrow> st);
          st2 = st1\<lparr>drain := lf_drain flow\<rparr>
      in if lf_drain flow then
           (let st3 = st2\<lparr>delivery_count := wrapping_add (delivery_count st2) (link_credit st2),
                          link_credit := 0\<rparr>
            in (st3, Some (as_link_flow st3 output_handle False False)))
         else if lf_echo flow then (st2, Some (as_link_flow st2 output_handle False False))
         else (st2, None))"

definition receiver_on_incoming_flow ::
    "flow_state \<Rightarrow> link_flow \<Rightarrow> u32 \<Rightarrow> flow_state \<times> link_flow option" where
  "receiver_on_incoming_flow st flow output_handle =
     (let st1 = (case lf_delivery_count flow of
            Some c \<Rightarrow> st\<lparr>delivery_count := c\<rparr> | None \<Rightarrow> st);
          st2 = (case lf_available flow of
            Some a \<Rightarrow> st1\<lparr>available := a\<rparr> | None \<Rightarrow> st1)
      in if lf_echo flow then (st2, Some (as_link_flow st2 output_handle False False))
         else (st2, None))"

datatype receiver_consume_error = RcvTransferLimitExceeded

definition receiver_consume ::
    "flow_state \<Rightarrow> u32 \<Rightarrow> receiver_consume_error + flow_state" where
  "receiver_consume st count =
     (if link_credit st < count then Inl RcvTransferLimitExceeded
      else Inr (st\<lparr>delivery_count := wrapping_add (delivery_count st) count,
                   link_credit := saturating_sub (link_credit st) count\<rparr>))"

datatype insufficient_credit = InsufficientCredit

definition consume_link_credit ::
    "flow_state \<Rightarrow> u32 \<Rightarrow> insufficient_credit + flow_state \<times> bytes" where
  "consume_link_credit st count =
     (if link_credit st < count then Inl InsufficientCredit
      else Inr (st\<lparr>delivery_count := wrapping_add (delivery_count st) count,
                   link_credit := saturating_sub (link_credit st) count\<rparr>,
                u32_to_be_bytes (delivery_count st)))"

text \<open>
  \<open>try_consume\<close>: \<open>locked\<close> says whether another holder has the lock at that moment.
\<close>

datatype sender_try_consume_error = TryLockError | TryInsufficientCredit

definition try_consume ::
    "bool \<Rightarrow> flow_state \<Rightarrow> u32 \<Rightarrow> sender_try_consume_error + flow_state \<times> bytes" where
  "try_consume locked st item =
     (if locked then Inl TryLockError
      else if link_credit st < item then Inl TryInsufficientCredit
      else Inr (st\<lparr>delivery_count := wrapping_add (delivery_count st) item,
                   link_credit := saturating_sub (link_credit st) item\<rparr>,
                u32_to_be_bytes (delivery_count st)))"

text \<open>
  The asynchronous \<open>consume\<close>: try, and on failure sleep until the relay has applied the
  next incoming flow. \<open>flows\<close> are the flows the relay applies while the sender waits;
  \<open>None\<close> means that the sender is still waiting after all of them. The flow state is
  returned in either case.
\<close>

fun consume :: "flow_state \<Rightarrow> u32 \<Rightarrow> (link_flow \<times> u32) list \<Rightarrow> flow_state \<times> bytes option" where
  "consume st item flows =
     (case consume_link_credit st item of
        Inr (st', tag) \<Rightarrow> (st', Some tag)
      | Inl _ \<Rightarrow> (case flows of
          [] \<Rightarrow> (st, None)
        | (flow, h) # rest \<Rightarrow> consume (fst (sender_on_incoming_flow st flow h)) item rest))"

declare consume.simps [simp del]

section \<open>The contract of consuming credit\<close>

text \<open>
  Both roles promise the same of \<open>consume\<close>: it succeeds exactly when the credit covers the
  count, moves the count from the credit to the delivery-count, and leaves nothing else to choose.
  What follows for any sequence of calls is proved once here.
\<close>

locale credit_ledger =
  fixes take_credit :: "'s \<Rightarrow> u32 \<Rightarrow> 's option"
    and count_of :: "'s \<Rightarrow> u32"
    and credit_of :: "'s \<Rightarrow> u32"
  assumes take_None: "take_credit s n = None \<longleftrightarrow> credit_of s < n"
    and take_count: "take_credit s n = Some t \<Longrightarrow> count_of t = count_of s + n"
    and take_left: "take_credit s n = Some t \<Longrightarrow> credit_of t = credit_of s - n"
begin

fun take_all :: "'s \<Rightarrow> u32 list \<Rightarrow> 's option" where
  "take_all s [] = Some s"
| "take_all s (n # ns) = (case take_credit s n of None \<Rightarrow> None | Some t \<Rightarrow> take_all t ns)"

lemma take_Some: "take_credit s n = Some t \<Longrightarrow> unat (credit_of t) + unat n = unat (credit_of s)"
  using take_None [of s n] take_left [of s n t] by (auto simp: unat_sub word_le_nat_alt not_less)

lemma take_limit: "take_credit s n = Some t \<Longrightarrow> count_of t + credit_of t = count_of s + credit_of s"
  using take_count [of s n t] take_left [of s n t] by simp

lemma take_all_limit:
  "take_all s ns = Some t \<Longrightarrow> count_of t + credit_of t = count_of s + credit_of s"
  by (induction s ns rule: take_all.induct) (auto split: option.splits dest: take_limit)

lemma take_all_credit:
  "take_all s ns = Some t \<Longrightarrow> unat (credit_of t) + sum_list (map unat ns) = unat (credit_of s)"
  by (induction s ns rule: take_all.induct) (fastforce split: option.splits dest: take_Some)+

lemma take_all_iff:
  "(\<exists>t. take_all s ns = Some t) \<longleftrightarrow> sum_list (map unat ns) \<le> unat (credit_of s)"
proof (induction s ns rule: take_all.induct)
  case (1 s)
  then show ?case by simp
next
  case (2 s n ns)
  show ?case
  proof (cases "take_credit s n")
    case None
    then show ?thesis using take_None [of s n] by (simp add: word_less_nat_alt)
  next
    case (Some t)
    then show ?thesis using "2.IH" [OF Some] take_Some [OF Some] by auto
  qed
qed

end

text \<open>The two roles provide it.\<close>

definition receiver_take :: "flow_state \<Rightarrow> u32 \<Rightarrow> flow_state option" where
  "receiver_take st n = (case receiver_consume st n of Inl _ \<Rightarrow> None | Inr st' \<Rightarrow> Some st')"

definition sender_take :: "flow_state \<Rightarrow> u32 \<Rightarrow> flow_state option" where
  "sender_take st n = (case consume_link_credit st n of Inl _ \<Rightarrow> None | Inr (st', _) \<Rightarrow> Some st')"

lemma saturating_sub_le: "b \<le> a \<Longrightarrow> saturating_sub a b = a - b"
  by (simp add: saturating_sub_def)

lemmas flow_ops = receiver_consume_def consume_link_credit_def try_consume_def
  sender_on_incoming_flow_def receiver_on_incoming_flow_def as_link_flow_def Let_def

interpretation rcv_ledger: credit_ledger receiver_take delivery_count link_credit
  by unfold_locales
    (auto simp: receiver_take_def receiver_consume_def wrapping_add_def saturating_sub_le not_less
          split: if_splits)

interpretation snd_ledger: credit_ledger sender_take delivery_count link_credit
  by unfold_locales
    (auto simp: sender_take_def consume_link_credit_def wrapping_add_def saturating_sub_le not_less
          split: if_splits)

section \<open>What a sender does with the flows it receives\<close>

definition rcv_count :: "flow_state \<Rightarrow> link_flow \<Rightarrow> u32" where
  "rcv_count st flow =
     (case lf_delivery_count flow of Some c \<Rightarrow> c | None \<Rightarrow> initial_delivery_count st)"

lemma sender_flow_drain:
  assumes "lf_drain flow"
  shows "link_credit (fst (sender_on_incoming_flow st flow h)) = 0"
    and "drain (fst (sender_on_incoming_flow st flow h))"
    and "snd (sender_on_incoming_flow st flow h)
           = Some (as_link_flow (fst (sender_on_incoming_flow st flow h)) h False False)"
  using assms by (simp_all add: sender_on_incoming_flow_def Let_def split: option.split)

lemma sender_flow_count:
  "\<not> lf_drain flow \<Longrightarrow>
     delivery_count (fst (sender_on_incoming_flow st flow h)) = delivery_count st"
  by (simp add: sender_on_incoming_flow_def Let_def split: option.split)

lemma sender_flow_credit:
  assumes "\<not> lf_drain flow"
  shows "link_credit (fst (sender_on_incoming_flow st flow h)) =
           (case lf_link_credit flow of None \<Rightarrow> link_credit st
            | Some c \<Rightarrow> saturating_sub (saturating_add (rcv_count st flow) c) (delivery_count st))"
  using assms by (simp add: sender_on_incoming_flow_def rcv_count_def Let_def split: option.split)

text \<open>
  A sender's life as a sequence of events: the relay applies a flow, or the sender tries to take
  one credit for a delivery. \<open>sender_run\<close> gives the final state, the delivery-tags handed out
  and by how much the delivery-count advanced.
\<close>

datatype sender_event = EvFlow link_flow u32 | EvSend

definition drained :: "flow_state \<Rightarrow> link_flow \<Rightarrow> nat" where
  "drained st flow =
     (if lf_drain flow
      then unat (case lf_link_credit flow of None \<Rightarrow> link_credit st
             | Some c \<Rightarrow> saturating_sub (saturating_add (rcv_count st flow) c) (delivery_count st))
      else 0)"

fun sender_run :: "flow_state \<Rightarrow> sender_event list \<Rightarrow> flow_state \<times> bytes list \<times> nat" where
  "sender_run st [] = (st, [], 0)"
| "sender_run st (EvFlow f h # es) =
     (case sender_run (fst (sender_on_incoming_flow st f h)) es of
        (st', tags, adv) \<Rightarrow> (st', tags, drained st f + adv))"
| "sender_run st (EvSend # es) =
     (case consume_link_credit st 1 of
        Inl _ \<Rightarrow> sender_run st es
      | Inr (st1, tag) \<Rightarrow> (case sender_run st1 es of
          (st', tags, adv) \<Rightarrow> (st', tag # tags, Suc adv)))"

lemma sender_flow_advance:
  "delivery_count (fst (sender_on_incoming_flow st f h))
     = delivery_count st + word_of_nat (drained st f)"
  by (simp add: sender_on_incoming_flow_def drained_def rcv_count_def Let_def wrapping_add_def
           split: option.split)

lemma consume_credit_Inr:
  "consume_link_credit st 1 = Inr (st1, tag) \<Longrightarrow>
     tag = u32_to_be_bytes (delivery_count st) \<and> delivery_count st1 = delivery_count st + 1"
  by (auto simp: consume_link_credit_def wrapping_add_def split: if_splits)

lemma sender_run_sendE:
  assumes "sender_run st (EvSend # es) = (st', tags, adv)"
  obtains (wait) "sender_run st es = (st', tags, adv)"
  | (go) st1 tags' adv' where "sender_run st1 es = (st', tags', adv')"
      "tags = u32_to_be_bytes (delivery_count st) # tags'" "adv = Suc adv'"
      "delivery_count st1 = delivery_count st + 1"
proof (cases "consume_link_credit st 1")
  case (Inl e)
  with assms show thesis by (intro wait) simp
next
  case (Inr p)
  obtain st1 tag where p: "p = (st1, tag)" by (cases p)
  obtain st2 tags' adv' where run: "sender_run st1 es = (st2, tags', adv')" by (cases "sender_run st1 es")
  from assms Inr p run have "st2 = st'" "tags = tag # tags'" "adv = Suc adv'" by simp_all
  with run consume_credit_Inr [OF Inr [unfolded p]] show thesis by (intro go) auto
qed

lemma sender_run_flowE:
  assumes "sender_run st (EvFlow f h # es) = (st', tags, adv)"
  obtains adv' where "sender_run (fst (sender_on_incoming_flow st f h)) es = (st', tags, adv')"
    "adv = drained st f + adv'"
  using assms by (cases "sender_run (fst (sender_on_incoming_flow st f h)) es") simp

lemma sender_run_count:
  "sender_run st es = (st', tags, adv) \<Longrightarrow> delivery_count st' = delivery_count st + word_of_nat adv"
proof (induction es arbitrary: st tags adv)
  case (Cons e es)
  show ?case
  proof (cases e)
    case (EvFlow f h)
    with Cons show ?thesis
      by (auto elim!: sender_run_flowE simp: sender_flow_advance add.assoc simp del: sender_run.simps)
  next
    case EvSend
    with Cons.prems have "sender_run st (EvSend # es) = (st', tags, adv)" by simp
    then show ?thesis
    proof (cases rule: sender_run_sendE)
      case wait
      then show ?thesis by (rule Cons.IH)
    next
      case (go st1 tags' adv')
      with Cons.IH [OF go(1)] show ?thesis by (simp add: add.assoc)
    qed
  qed
qed simp

lemma sender_run_tags:
  "sender_run st es = (st', tags, adv) \<Longrightarrow>
     \<exists>ks. sorted_wrt (<) ks \<and> (\<forall>k \<in> set ks. k < adv) \<and>
          tags = map (\<lambda>k. u32_to_be_bytes (delivery_count st + word_of_nat k)) ks"
proof (induction es arbitrary: st tags adv)
  case Nil
  then show ?case by (auto intro: exI [of _ "[]"])
next
  case (Cons e es)
  show ?case
  proof (cases e)
    case (EvFlow f h)
    let ?d = "drained st f"
    from Cons.prems EvFlow obtain adv' where
      run: "sender_run (fst (sender_on_incoming_flow st f h)) es = (st', tags, adv')"
      and adv: "adv = ?d + adv'" by (auto elim: sender_run_flowE simp del: sender_run.simps)
    from Cons.IH [OF run] obtain ks where ks: "sorted_wrt (<) ks" "\<forall>k \<in> set ks. k < adv'"
      "tags = map (\<lambda>k. u32_to_be_bytes ((delivery_count st + word_of_nat ?d) + word_of_nat k)) ks"
      unfolding sender_flow_advance by blast
    have "tags = map (\<lambda>k. u32_to_be_bytes (delivery_count st + word_of_nat k)) (map ((+) ?d) ks)"
      unfolding ks(3) by (simp add: add.assoc)
    with ks(1,2) adv show ?thesis
      by (intro exI [of _ "map ((+) ?d) ks"]) (auto simp: sorted_wrt_map)
  next
    case EvSend
    with Cons.prems have "sender_run st (EvSend # es) = (st', tags, adv)" by simp
    then show ?thesis
    proof (cases rule: sender_run_sendE)
      case wait
      then show ?thesis by (rule Cons.IH)
    next
      case (go st1 tags' adv')
      from Cons.IH [OF go(1)] obtain ks where ks: "sorted_wrt (<) ks" "\<forall>k \<in> set ks. k < adv'"
        "tags' = map (\<lambda>k. u32_to_be_bytes ((delivery_count st + 1) + word_of_nat k)) ks"
        unfolding go(4) by blast
      have "tags = map (\<lambda>k. u32_to_be_bytes (delivery_count st + word_of_nat k)) (0 # map Suc ks)"
        unfolding go(2) ks(3) by (simp add: add.assoc)
      with ks(1,2) go(3) show ?thesis
        by (intro exI [of _ "0 # map Suc ks"]) (auto simp: sorted_wrt_map)
    qed
  qed
qed

lemma tags_at_offsets_distinct:
  assumes "sorted_wrt (<) ks" and "\<forall>k \<in> set ks. k < 2 ^ 32"
  shows "distinct (map (\<lambda>k. u32_to_be_bytes (c + word_of_nat k)) ks)"
proof -
  have "inj_on (\<lambda>k. u32_to_be_bytes (c + word_of_nat k)) (set ks)"
    using assms(2) by (auto simp: inj_on_def u32_to_be_bytes_inj word_of_nat_u32_inj)
  moreover have "distinct ks" using assms(1) by (simp add: strict_sorted_iff)
  ultimately show ?thesis by (simp add: distinct_map)
qed

section \<open>Properties\<close>

text \<open>
  after a flow with credit, a sender that is not draining holds exactly the delivery limit the
  receiver announced: delivery-count plus credit of the sender equal delivery-count plus credit of
  the flow (the initial delivery-count standing in when the flow names none), as long as that limit
  is below \<open>2 ^ 32\<close> and not behind the sender.
\<close>

lemma sender_limit_is_receiver_limit:
  assumes "lf_link_credit flow = Some c" and "\<not> lf_drain flow"
    and "unat (rcv_count st flow) + unat c < 2 ^ 32"
    and "unat (delivery_count st) \<le> unat (rcv_count st flow) + unat c"
  shows "unat (delivery_count (fst (sender_on_incoming_flow st flow h)))
         + unat (link_credit (fst (sender_on_incoming_flow st flow h)))
         = unat (rcv_count st flow) + unat c"
  using assms by (simp add: sender_flow_count sender_flow_credit rust_int)

definition example_flow :: link_flow where
  "example_flow = \<lparr>lf_handle = 0, lf_delivery_count = Some 3, lf_link_credit = Some 10,
     lf_available = None, lf_drain = False, lf_echo = False, lf_properties = None\<rparr>"

definition example_state :: flow_state where
  "example_state = \<lparr>initial_delivery_count = 0, delivery_count = 5, link_credit = 0, available = 0,
     drain = False, properties = None\<rparr>"

lemma sender_limit_is_receiver_limit_witness:
  "unat (delivery_count (fst (sender_on_incoming_flow example_state example_flow 0)))
   + unat (link_credit (fst (sender_on_incoming_flow example_state example_flow 0))) = 13"
  using sender_limit_is_receiver_limit [of example_flow 10 example_state 0]
  by (simp add: example_flow_def example_state_def rcv_count_def)

text \<open>
  a draining flow makes the sender advance its delivery-count by the whole credit, leaves it
  with no credit and answers with the new flow state; a flow that does not drain never moves the
  delivery-count, and is answered exactly when it asks for an echo.
\<close>

lemma sender_flow_drain_and_echo:
  "(let (st', reply) = sender_on_incoming_flow st flow h in
     drain st' = lf_drain flow \<and>
     (if lf_drain flow then
        delivery_count st' = delivery_count st + word_of_nat (drained st flow) \<and>
        link_credit st' = 0 \<and> reply = Some (as_link_flow st' h False False)
      else delivery_count st' = delivery_count st \<and>
        reply = (if lf_echo flow then Some (as_link_flow st' h False False) else None)))"
  using sender_flow_advance [of st flow h] sender_flow_drain [of flow st h]
  by (auto simp: sender_on_incoming_flow_def Let_def split: option.split)

text \<open>
  C14: whatever flows arrive between its sends, a sender never hands out a delivery-tag twice while
  its delivery-count advances by at most \<open>2 ^ 32\<close>, and the delivery-count ends up advanced by
  exactly the credit taken and drained.
\<close>

theorem sender_tags_distinct:
  assumes "sender_run st es = (st', tags, adv)" and "adv \<le> 2 ^ 32"
  shows "distinct tags \<and> delivery_count st' = delivery_count st + word_of_nat adv"
proof -
  from sender_run_tags [OF assms(1)] obtain ks where ks: "sorted_wrt (<) ks" "\<forall>k \<in> set ks. k < adv"
    "tags = map (\<lambda>k. u32_to_be_bytes (delivery_count st + word_of_nat k)) ks" by blast
  from ks(2) assms(2) have "\<forall>k \<in> set ks. k < 2 ^ 32" by auto
  with ks(1) have "distinct tags" unfolding ks(3) by (rule tags_at_offsets_distinct)
  with sender_run_count [OF assms(1)] show ?thesis by simp
qed

theorem sender_tags_distinct_witness:
  "fst (snd (sender_run example_state [EvSend, EvFlow example_flow 0, EvSend, EvSend]))
     = [[0, 0, 0, 5], [0, 0, 0, 6]]
   \<and> distinct (fst (snd (sender_run example_state [EvSend, EvFlow example_flow 0, EvSend, EvSend])))"
proof -
  let ?es = "[EvSend, EvFlow example_flow 0, EvSend, EvSend]"
  have run: "\<exists>st'. sender_run example_state ?es = (st', [[0, 0, 0, 5], [0, 0, 0, 6]], 2)"
    by (simp add: example_state_def example_flow_def consume_link_credit_def drained_def Let_def
      sender_on_incoming_flow_def saturating_add_def saturating_sub_def wrapping_add_def
      u32_to_be_bytes_def be_bytes_4)
  then obtain st' where "sender_run example_state ?es = (st', [[0, 0, 0, 5], [0, 0, 0, 6]], 2)" by blast
  with sender_tags_distinct [OF this] show ?thesis by simp
qed

text \<open>
  a sender whose delivery-count stands at \<open>u32::MAX\<close> with no credit is starved for ever:
  the saturating computation of the credit gives zero for every flow, so in no continuation is
  another delivery sent.
\<close>

lemma sender_flow_at_max:
  assumes "delivery_count st = - 1" and "link_credit st = 0"
  shows "delivery_count (fst (sender_on_incoming_flow st f h)) = - 1
         \<and> link_credit (fst (sender_on_incoming_flow st f h)) = 0"
proof -
  have "saturating_sub a (- 1) = 0" for a :: u32
    using unat_lt_exp [of a] by (simp add: word_unat_eq_iff unat_saturating_sub unat_max_word)
  with assms show ?thesis
    by (simp add: sender_on_incoming_flow_def Let_def split: option.split)
qed

lemma sender_starves_at_max:
  "delivery_count st = - 1 \<Longrightarrow> link_credit st = 0 \<Longrightarrow> fst (snd (sender_run st es)) = []"
proof (induction st es rule: sender_run.induct)
  case (2 st f h es)
  then show ?case by (auto simp: sender_flow_at_max split: prod.splits)
next
  case (3 st es)
  then show ?case by (simp add: consume_link_credit_def)
qed simp

lemma sender_starves_at_max_witness:
  "(let st = example_state\<lparr>delivery_count := 4294967295\<rparr>;
        f = example_flow\<lparr>lf_delivery_count := Some 4294967295\<rparr>
    in delivery_count st = - 1 \<and> link_credit st = 0 \<and> lf_link_credit f = Some 10 \<and>
       fst (snd (sender_run st [EvFlow f 0, EvSend])) = [])"
  using sender_starves_at_max [of "example_state\<lparr>delivery_count := 4294967295\<rparr>"
    "[EvFlow (example_flow\<lparr>lf_delivery_count := Some 4294967295\<rparr>) 0, EvSend]"]
  by (simp add: example_state_def example_flow_def Let_def)

text \<open>
  C15: the waiting \<open>consume\<close> of the sender returns exactly when, at some point while the relay
  applies the incoming flows, the credit covers the request.
\<close>

definition apply_flows :: "flow_state \<Rightarrow> (link_flow \<times> u32) list \<Rightarrow> flow_state" where
  "apply_flows st flows = foldl (\<lambda>s (f, h). fst (sender_on_incoming_flow s f h)) st flows"

lemma consume_now: "item \<le> link_credit st \<Longrightarrow> snd (consume st item flows) \<noteq> None"
  by (subst consume.simps) (simp add: consume_link_credit_def leD)

lemma consume_wait:
  "link_credit st < item \<Longrightarrow>
     consume st item ((f, h) # rest) = consume (fst (sender_on_incoming_flow st f h)) item rest"
  by (subst consume.simps) (simp add: consume_link_credit_def)


end
