(* ===== verification/Link_Relay.thy ===== *)
theory Link_Relay
  imports Link_Flow
begin

text \<open>
  The session's view of a link: \<open>LinkRelay\<close> of fe2o3-amqp/src/link/mod.rs with the frames of
  link/frame.rs and the \<open>UnsettledMessage\<close> of link/delivery.rs. What the relay shares with the
  link endpoint through \<open>Arc\<close>s (flow state, unsettled map, channel) are fields of the relay
  record, so an operation of the endpoint on the shared cell is a function on the same field. An
  unsettled map is modelled by its contents. A \<open>oneshot\<close> that tells the application the fate
  of a delivery is the entry of \<open>sr_resolved\<close> under the delivery's tag.
\<close>

section \<open>Frames and relays\<close>

record link_transfer =
  lt_input_handle :: u32
  lt_performative :: transfer
  lt_payload :: payload

datatype link_frame =
    LfAttach attach
  | LfFlow link_flow
  | LfRemoteTransfer link_transfer
  | LfFirstTransfer link_transfer
  | LfTransferContinuation link_transfer
  | LfDisposition disposition
  | LfDetach detach
  | LfAcquisition bytes

definition clear_continuation_fields :: "transfer \<Rightarrow> transfer" where
  "clear_continuation_fields t =
     t\<lparr>tr_delivery_id := None, tr_delivery_tag := None, tr_message_format := None,
       tr_settled := None, tr_rcv_settle_mode := None\<rparr>"

record unsettled_message =
  um_payload :: payload
  um_state :: "delivery_state option"
  um_message_format :: u32

type_synonym resolution = "link_state_error + delivery_state option"

record 'o sender_relay =
  sr_tx :: "link_frame chan"
  sr_output_handle :: 'o
  sr_flow_state :: flow_state
  sr_unsettled :: "(delivery_tag \<rightharpoonup> unsettled_message) option"
  sr_resolved :: "delivery_tag \<rightharpoonup> resolution"
  sr_receiver_settle_mode :: receiver_settle_mode

record 'o receiver_relay =
  rr_tx :: "link_frame chan"
  rr_output_handle :: 'o
  rr_flow_state :: flow_state
  rr_unsettled :: "(delivery_tag \<rightharpoonup> delivery_state option) option"
  rr_receiver_settle_mode :: receiver_settle_mode
  rr_more :: bool

datatype 'o link_relay = SenderRelay "'o sender_relay" | ReceiverRelay "'o receiver_relay"

definition new_sender ::
    "link_frame chan \<Rightarrow> flow_state \<Rightarrow> (delivery_tag \<rightharpoonup> unsettled_message) option \<Rightarrow> unit link_relay" where
  "new_sender tx fs uns = SenderRelay \<lparr>sr_tx = tx, sr_output_handle = (), sr_flow_state = fs,
     sr_unsettled = uns, sr_resolved = Map.empty, sr_receiver_settle_mode = First\<rparr>"

definition new_receiver ::
    "link_frame chan \<Rightarrow> flow_state \<Rightarrow> (delivery_tag \<rightharpoonup> delivery_state option) option
      \<Rightarrow> receiver_settle_mode \<Rightarrow> unit link_relay" where
  "new_receiver tx fs uns mode = ReceiverRelay \<lparr>rr_tx = tx, rr_output_handle = (),
     rr_flow_state = fs, rr_unsettled = uns, rr_receiver_settle_mode = mode, rr_more = False\<rparr>"

fun with_output_handle :: "unit link_relay \<Rightarrow> u32 \<Rightarrow> u32 link_relay" where
  "with_output_handle (SenderRelay r) h = SenderRelay \<lparr>sr_tx = sr_tx r, sr_output_handle = h,
     sr_flow_state = sr_flow_state r, sr_unsettled = sr_unsettled r, sr_resolved = sr_resolved r,
     sr_receiver_settle_mode = sr_receiver_settle_mode r\<rparr>"
| "with_output_handle (ReceiverRelay r) h = ReceiverRelay \<lparr>rr_tx = rr_tx r, rr_output_handle = h,
     rr_flow_state = rr_flow_state r, rr_unsettled = rr_unsettled r,
     rr_receiver_settle_mode = rr_receiver_settle_mode r, rr_more = rr_more r\<rparr>"

fun output_handle :: "'o link_relay \<Rightarrow> 'o" where
  "output_handle (SenderRelay r) = sr_output_handle r"
| "output_handle (ReceiverRelay r) = rr_output_handle r"

section \<open>Operations\<close>

datatype link_relay_error = LreUnattachedHandle | LreTransferFrameToSender

fun relay_send :: "u32 link_relay \<Rightarrow> link_frame \<Rightarrow> u32 link_relay option" where
  "relay_send (SenderRelay r) f =
     (case chan_send (sr_tx r) f of None \<Rightarrow> None | Some tx \<Rightarrow> Some (SenderRelay (r\<lparr>sr_tx := tx\<rparr>)))"
| "relay_send (ReceiverRelay r) f =
     (case chan_send (rr_tx r) f of None \<Rightarrow> None | Some tx \<Rightarrow> Some (ReceiverRelay (r\<lparr>rr_tx := tx\<rparr>)))"

definition TXN_ID_KEY :: symbol where
  "TXN_ID_KEY = ''txn-id''"

text \<open>The transaction identifier a flow may carry in its properties.\<close>

definition flow_txn_id :: "link_flow \<Rightarrow> bytes option" where
  "flow_txn_id flow =
     (case lf_properties flow of
        None \<Rightarrow> None
      | Some m \<Rightarrow> (case map_of m TXN_ID_KEY of Some (VBinary txn_id) \<Rightarrow> Some txn_id | _ \<Rightarrow> None))"

fun relay_on_incoming_flow ::
    "u32 link_relay \<Rightarrow> link_flow \<Rightarrow> link_relay_error + (u32 link_relay \<times> link_flow option)" where
  "relay_on_incoming_flow (SenderRelay r) flow =
     (let sent_acquisition = (case flow_txn_id flow of
            None \<Rightarrow> Some (sr_tx r)
          | Some txn_id \<Rightarrow> chan_send (sr_tx r) (LfAcquisition txn_id))
      in case sent_acquisition of
           None \<Rightarrow> Inl LreUnattachedHandle
         | Some tx \<Rightarrow>
             (let (fs, ret) = sender_on_incoming_flow (sr_flow_state r) flow (sr_output_handle r)
              in Inr (SenderRelay (r\<lparr>sr_tx := tx, sr_flow_state := fs\<rparr>), ret)))"
| "relay_on_incoming_flow (ReceiverRelay r) flow =
     (let (fs, ret) = receiver_on_incoming_flow (rr_flow_state r) flow (rr_output_handle r)
      in Inr (ReceiverRelay (r\<lparr>rr_flow_state := fs\<rparr>), ret))"

text \<open>
  \<open>swap_remove\<close> and \<open>settle_with_state\<close> on the sender's unsettled map: the entry leaves the map and
  the state goes to whoever waits for the outcome of the delivery.
\<close>

definition sr_settle :: "'o sender_relay \<Rightarrow> delivery_tag \<Rightarrow> delivery_state option \<Rightarrow> 'o sender_relay" where
  "sr_settle r tag state =
     (case sr_unsettled r of
        None \<Rightarrow> r
      | Some m \<Rightarrow> (case m tag of
          None \<Rightarrow> r
        | Some _ \<Rightarrow> r\<lparr>sr_unsettled := Some (m(tag := None)),
                     sr_resolved := (sr_resolved r)(tag \<mapsto> Inr state)\<rparr>))"

definition sr_set_state :: "'o sender_relay \<Rightarrow> delivery_tag \<Rightarrow> delivery_state option \<Rightarrow> 'o sender_relay" where
  "sr_set_state r tag state =
     (case sr_unsettled r of
        None \<Rightarrow> r
      | Some m \<Rightarrow> (case m tag of
          None \<Rightarrow> r
        | Some msg \<Rightarrow> r\<lparr>sr_unsettled := Some (m(tag \<mapsto> msg\<lparr>um_state := state\<rparr>))\<rparr>))"

fun state_is_terminal :: "delivery_state option \<Rightarrow> bool" where
  "state_is_terminal (Some s) = is_terminal s"
| "state_is_terminal None = False"

fun relay_on_incoming_disposition ::
    "u32 link_relay \<Rightarrow> bool \<Rightarrow> delivery_state option \<Rightarrow> delivery_tag \<Rightarrow> u32 link_relay \<times> bool" where
  "relay_on_incoming_disposition (SenderRelay r) settled state tag =
     (if settled then (SenderRelay (sr_settle r tag state), False)
      else (SenderRelay (if state_is_terminal state then sr_settle r tag state
                         else sr_set_state r tag state),
            (case sr_receiver_settle_mode r of First \<Rightarrow> False | Second \<Rightarrow> True)))"
| "relay_on_incoming_disposition (ReceiverRelay r) settled state tag =
     (case rr_unsettled r of
        None \<Rightarrow> (ReceiverRelay r, False)
      | Some m \<Rightarrow>
          if settled then (ReceiverRelay (r\<lparr>rr_unsettled := Some (m(tag := None))\<rparr>), False)
          else (case m tag of
              None \<Rightarrow> (ReceiverRelay r, False)
            | Some _ \<Rightarrow> (ReceiverRelay (r\<lparr>rr_unsettled := Some (m(tag \<mapsto> state))\<rparr>), False)))"

fun relay_on_incoming_transfer ::
    "u32 link_relay \<Rightarrow> transfer \<Rightarrow> payload \<Rightarrow>
      link_relay_error + (u32 link_relay \<times> (u32 \<times> delivery_tag) option)" where
  "relay_on_incoming_transfer (SenderRelay r) t p = Inl LreTransferFrameToSender"
| "relay_on_incoming_transfer (ReceiverRelay r) t p =
     (let settled = (case tr_settled t of Some b \<Rightarrow> b | None \<Rightarrow> False)
      in case chan_send (rr_tx r) (LfRemoteTransfer
            \<lparr>lt_input_handle = tr_handle t, lt_performative = t, lt_payload = p\<rparr>) of
           None \<Rightarrow> Inl LreUnattachedHandle
         | Some tx \<Rightarrow>
             (let r1 = r\<lparr>rr_tx := tx\<rparr>
              in if \<not> settled \<and> rr_receiver_settle_mode r = Second then
                   (if \<not> rr_more r then
                      (case (tr_delivery_id t, tr_delivery_tag t) of
                         (Some i, Some tag) \<Rightarrow> Inr (ReceiverRelay r1, Some (i, tag))
                       | _ \<Rightarrow> Inr (ReceiverRelay r1, None))
                    else Inr (ReceiverRelay (r1\<lparr>rr_more := tr_more t\<rparr>), None))
                 else Inr (ReceiverRelay r1, None)))"

text \<open>Every delivery still pending is told that the peer closed the link; the map is taken.\<close>

definition fail_pending_unsettled :: "'o sender_relay \<Rightarrow> detach \<Rightarrow> 'o sender_relay" where
  "fail_pending_unsettled r d =
     (case sr_unsettled r of
        None \<Rightarrow> r
      | Some m \<Rightarrow>
          (let err = (case de_error d of
                 Some e \<Rightarrow> LseRemoteClosedWithError e | None \<Rightarrow> LseRemoteClosed)
           in r\<lparr>sr_unsettled := None,
                sr_resolved := (\<lambda>tag. case m tag of None \<Rightarrow> sr_resolved r tag
                                      | Some _ \<Rightarrow> Some (Inl err))\<rparr>))"

fun relay_on_incoming_detach ::
    "u32 link_relay \<Rightarrow> detach \<Rightarrow> bool \<Rightarrow> u32 link_relay \<times> detach option" where
  "relay_on_incoming_detach (SenderRelay r) d remote_initiated =
     (let forward = chan_send (sr_tx r) (LfDetach d);
          r1 = (case forward of None \<Rightarrow> r | Some tx \<Rightarrow> r\<lparr>sr_tx := tx\<rparr>)
      in if \<not> remote_initiated then
           (SenderRelay (if forward = None \<and> de_closed d then fail_pending_unsettled r1 d else r1),
            None)
         else (SenderRelay (if de_closed d then fail_pending_unsettled r1 d else r1),
               Some \<lparr>de_handle = sr_output_handle r, de_closed = de_closed d, de_error = de_error d\<rparr>))"
| "relay_on_incoming_detach (ReceiverRelay r) d remote_initiated =
     (let r1 = (case chan_send (rr_tx r) (LfDetach d) of None \<Rightarrow> r | Some tx \<Rightarrow> r\<lparr>rr_tx := tx\<rparr>)
      in (ReceiverRelay r1,
          if \<not> remote_initiated then None
          else Some \<lparr>de_handle = rr_output_handle r, de_closed = de_closed d,
                     de_error = de_error d\<rparr>))"

section \<open>The maximum message size of a link\<close>

definition get_max_message_size :: "u64 \<Rightarrow> u64 option \<Rightarrow> u64" where
  "get_max_message_size local_size remote =
     (let remote_max_msg_size = (case remote of Some v \<Rightarrow> v | None \<Rightarrow> 0)
      in if local_size = 0 then remote_max_msg_size
         else if remote_max_msg_size = 0 then local_size
         else min local_size remote_max_msg_size)"

section \<open>Invariant: a delivery is pending or resolved, never both\<close>

text \<open>The deliveries of a sender relay that still wait for their outcome.\<close>

definition pending :: "'o sender_relay \<Rightarrow> delivery_tag set" where
  "pending r = (case sr_unsettled r of None \<Rightarrow> {} | Some m \<Rightarrow> dom m)"

fun relay_inv :: "'o link_relay \<Rightarrow> bool" where
  "relay_inv (SenderRelay r) = (pending r \<inter> dom (sr_resolved r) = {})"
| "relay_inv (ReceiverRelay r) = (\<not> rr_more r)"

lemmas relay_ops = sr_settle_def sr_set_state_def fail_pending_unsettled_def pending_def Let_def

lemma pending_tx [simp]: "pending (r\<lparr>sr_tx := tx\<rparr>) = pending r"
  "pending (r\<lparr>sr_flow_state := fs\<rparr>) = pending r"
  "pending (r\<lparr>sr_receiver_settle_mode := mode\<rparr>) = pending r"
  by (simp_all add: pending_def)

lemma sr_settle_pending: "pending (sr_settle r tag state) = pending r - {tag}"
  by (auto simp: relay_ops split: option.splits if_splits)

lemma sr_settle_resolved:
  "sr_resolved (sr_settle r tag state) =
     (if tag \<in> pending r then (sr_resolved r)(tag \<mapsto> Inr state) else sr_resolved r)"
  by (auto simp: relay_ops split: option.splits)

lemma sr_set_state_pending [simp]: "pending (sr_set_state r tag state) = pending r"
  by (auto simp: relay_ops split: option.splits if_splits)

lemma sr_set_state_resolved [simp]: "sr_resolved (sr_set_state r tag state) = sr_resolved r"
  by (simp add: relay_ops split: option.splits)

lemma fail_pending_pending: "pending (fail_pending_unsettled r d) = {}"
  by (simp add: relay_ops split: option.splits)

lemma sr_ops_output_handle [simp]:
  "sr_output_handle (sr_settle r tag state) = sr_output_handle r"
  "sr_output_handle (sr_set_state r tag state) = sr_output_handle r"
  "sr_output_handle (fail_pending_unsettled r d) = sr_output_handle r"
  "sr_receiver_settle_mode (sr_settle r tag state) = sr_receiver_settle_mode r"
  "sr_receiver_settle_mode (sr_set_state r tag state) = sr_receiver_settle_mode r"
  by (simp_all add: relay_ops split: option.splits)

lemma relay_send_inv: "relay_send r f = Some r' \<Longrightarrow> relay_inv r \<Longrightarrow> relay_inv r'"
  by (cases r) (auto split: option.splits)

lemma relay_send_handle: "relay_send r f = Some r' \<Longrightarrow> output_handle r' = output_handle r"
  by (cases r) (auto split: option.splits)

lemma relay_flow_inv:
  "relay_on_incoming_flow r flow = Inr (r', ret) \<Longrightarrow> relay_inv r \<Longrightarrow> relay_inv r'"
  by (cases r) (auto simp: Let_def split: option.splits prod.splits)

lemma relay_flow_handle:
  "relay_on_incoming_flow r flow = Inr (r', ret) \<Longrightarrow> output_handle r' = output_handle r"
  by (cases r) (auto simp: Let_def split: option.splits prod.splits)

lemma relay_disposition_inv:
  "relay_inv r \<Longrightarrow> relay_inv (fst (relay_on_incoming_disposition r settled state tag))"
  by (cases r) (auto simp: sr_settle_pending sr_settle_resolved split: option.splits)

lemma relay_disposition_handle:
  "output_handle (fst (relay_on_incoming_disposition r settled state tag)) = output_handle r"
  by (cases r) (auto split: option.splits)

lemma relay_transfer_inv:
  "relay_on_incoming_transfer r t p = Inr (r', ret) \<Longrightarrow> relay_inv r \<Longrightarrow> relay_inv r'"
  by (cases r) (auto simp: Let_def split: option.splits if_splits)

lemma relay_transfer_handle:
  "relay_on_incoming_transfer r t p = Inr (r', ret) \<Longrightarrow> output_handle r' = output_handle r"
  by (cases r) (auto simp: Let_def split: option.splits if_splits)

lemma relay_detach_inv:
  "relay_inv r \<Longrightarrow> relay_inv (fst (relay_on_incoming_detach r d ri))"
  by (cases r) (auto simp: Let_def fail_pending_pending split: option.splits)

section \<open>Properties\<close>

text \<open>
  a disposition from the receiver that settles a delivery, or that carries a terminal state,
  resolves the delivery it names if it is pending: the application gets the state of the
  disposition and the delivery leaves the unsettled map; no other delivery is resolved or dropped,
  and a delivery that is not pending is not resolved a second time.
\<close>

lemma disposition_resolves_exactly_its_delivery:
  assumes "settled \<or> state_is_terminal state"
  shows "\<exists>r'. relay_on_incoming_disposition (SenderRelay r) settled state tag = (SenderRelay r', \<not> settled \<and> sr_receiver_settle_mode r = Second)
     \<and> pending r' = pending r - {tag}
     \<and> sr_resolved r' = (if tag \<in> pending r then (sr_resolved r)(tag \<mapsto> Inr state) else sr_resolved r)"
  using assms
  by (auto simp: sr_settle_pending sr_settle_resolved split: receiver_settle_mode.splits)

definition example_sender_relay :: "u32 sender_relay" where
  "example_sender_relay = \<lparr>sr_tx = \<lparr>rx_alive = True, sent = []\<rparr>, sr_output_handle = 4,
     sr_flow_state = example_state,
     sr_unsettled = Some [[1] \<mapsto> \<lparr>um_payload = [7], um_state = None, um_message_format = 0\<rparr>],
     sr_resolved = Map.empty, sr_receiver_settle_mode = Second\<rparr>"

lemma disposition_resolves_exactly_its_delivery_witness:
  "\<exists>r'. relay_on_incoming_disposition (SenderRelay example_sender_relay) False (Some Accepted) [1]
        = (SenderRelay r', True) \<and> pending r' = {} \<and> sr_resolved r' [1] = Some (Inr (Some Accepted))"
proof -
  have "False \<or> state_is_terminal (Some Accepted)" by simp
  from disposition_resolves_exactly_its_delivery [OF this, of example_sender_relay "[1]"]
  show ?thesis by (auto simp: example_sender_relay_def pending_def)
qed

text \<open>
  C13: when the peer closes a sender link on its own, the relay forwards the detach to the link,
  answers with a detach on the local handle that echoes the closed flag and the error, and tells
  every delivery still pending that the link was closed, leaving none pending; deliveries already
  resolved keep their resolution.
\<close>

theorem remote_close_fails_pending:
  assumes "de_closed d" and "relay_inv (SenderRelay r)"
  shows "\<exists>r'. relay_on_incoming_detach (SenderRelay r) d True
            = (SenderRelay r', Some \<lparr>de_handle = sr_output_handle r, de_closed = True, de_error = de_error d\<rparr>)
     \<and> pending r' = {}
     \<and> (\<forall>tag. sr_resolved r' tag =
          (if tag \<in> pending r
           then Some (Inl (case de_error d of None \<Rightarrow> LseRemoteClosed | Some e \<Rightarrow> LseRemoteClosedWithError e))
           else sr_resolved r tag))
     \<and> (rx_alive (sr_tx r) \<longrightarrow> sent (sr_tx r') = sent (sr_tx r) @ [LfDetach d])"
  using assms
  by (auto simp: relay_ops chan_send_def split: option.splits)

theorem remote_close_fails_pending_witness:
  "\<exists>r'. relay_on_incoming_detach (SenderRelay example_sender_relay)
          \<lparr>de_handle = 9, de_closed = True, de_error = None\<rparr> True
        = (SenderRelay r', Some \<lparr>de_handle = 4, de_closed = True, de_error = None\<rparr>)
      \<and> pending r' = {} \<and> sr_resolved r' [1] = Some (Inl LseRemoteClosed)"
proof -
  let ?d = "\<lparr>de_handle = 9, de_closed = True, de_error = None\<rparr>"
  have "de_closed ?d" "relay_inv (SenderRelay example_sender_relay)"
    by (simp_all add: example_sender_relay_def)
  from remote_close_fails_pending [OF this] show ?thesis
    by (auto simp: example_sender_relay_def pending_def)
qed

end
