(* ===== verification/Session.thy ===== *)
theory Session
  imports Link_Relay
begin

text \<open>
  The session endpoint: fe2o3-amqp/src/session/mod.rs, with the frames of session/frame.rs. A
  method that takes \<open>&mut self\<close> is a function from the session to the new session and the
  method's result, so what a method has changed before it fails is visible. Maps and sets of the
  standard library are HOL maps and sets. The slab that hands out output handles is not part of the
  repository: \<open>allocate_link\<close> takes the key of its vacant entry as an argument, and what it
  documents (the key is vacant) is a hypothesis of the lemmas that need it. Arithmetic without an
  explicit method wraps, as in a release build.
\<close>

section \<open>State and frames\<close>

datatype session_frame_body =
    SfAttach attach
  | SfFlow flow
  | SfTransfer transfer payload
  | SfDisposition disposition
  | SfDetach detach
  | SfBegin begin_perf
  | SfEnd end_perf

record session_frame =
  sf_channel :: u16
  sf_body :: session_frame_body

datatype session_outgoing_item =
    SingleFrame session_frame
  | MultipleFrames "session_frame list"

datatype session_state_error = SseIllegalState | SseConnectionStopped connection_stop_reason
  | SseRemoteEnded | SseRemoteEndedWithError amqp_error

datatype session_inner_error = UnattachedHandle | RemoteAttachingLinkNameNotFound | HandleInUse
  | IllegalState | ConnectionStopped connection_stop_reason | TransferFrameToSender
  | RemoteEnded | RemoteEndedWithError amqp_error | UnknownTxnId

fun inner_error_of_relay :: "link_relay_error \<Rightarrow> session_inner_error" where
  "inner_error_of_relay LreUnattachedHandle = UnattachedHandle"
| "inner_error_of_relay LreTransferFrameToSender = TransferFrameToSender"

datatype alloc_link_error = SessionStopped session_stop_reason | SessionNotMapped
  | DuplicatedLinkName

type_synonym buffered_transfer = "u32 \<times> transfer \<times> payload \<times> bool"

record session =
  s_outgoing_channel :: u16
  s_session_stop_reason :: "session_stop_reason option"
  s_connection_stop_reason :: "connection_stop_reason option"
  s_local_state :: session_state
  s_initial_outgoing_id :: u32
  s_next_outgoing_id :: u32
  s_next_outgoing_delivery_id :: u32
  s_incoming_window :: u32
  s_outgoing_window :: u32
  s_handle_max :: u32
  s_incoming_channel :: "u16 option"
  s_next_incoming_id :: u32
  s_need_flow_count :: u32
  s_remote_incoming_window :: u32
  s_exhausted_buffer :: "buffered_transfer list"
  s_remote_outgoing_window :: u32
  s_offered_capabilities :: "symbol list option"
  s_desired_capabilities :: "symbol list option"
  s_properties :: "fields option"
  s_link_name_by_output_handle :: "nat \<rightharpoonup> string"
  s_link_by_name :: "string \<rightharpoonup> u32 link_relay option"
  s_link_by_input_handle :: "u32 \<rightharpoonup> u32 link_relay"
  s_close_pending :: "u32 set"
  s_delivery_tag_by_id :: "role \<times> u32 \<rightharpoonup> u32 \<times> delivery_tag"

definition session_frame_new :: "u16 \<Rightarrow> session_frame_body \<Rightarrow> session_frame" where
  "session_frame_new channel body = \<lparr>sf_channel = channel, sf_body = body\<rparr>"

section \<open>Outgoing transfers\<close>

definition on_outgoing_transfer_inner ::
    "session \<Rightarrow> u32 \<Rightarrow> transfer \<Rightarrow> payload \<Rightarrow> bool \<Rightarrow> session \<times> (session_inner_error + session_frame)" where
  "on_outgoing_transfer_inner s input_handle t p is_first =
     (let settled = (case tr_settled t of Some b \<Rightarrow> b | None \<Rightarrow> False);
          emit = (\<lambda>s t. (s\<lparr>s_next_outgoing_id := wrapping_add (s_next_outgoing_id s) 1,
                            s_remote_incoming_window := saturating_sub (s_remote_incoming_window s) 1\<rparr>,
                         Inr (session_frame_new (s_outgoing_channel s) (SfTransfer t p))))
      in if is_first then
           (case tr_delivery_tag t of
              None \<Rightarrow> (s, Inl IllegalState)
            | Some delivery_tag \<Rightarrow>
                (let delivery_id = s_next_outgoing_delivery_id s;
                     s1 = s\<lparr>s_next_outgoing_delivery_id :=
                              wrapping_add (s_next_outgoing_delivery_id s) 1\<rparr>;
                     s2 = (if \<not> settled
                           then s1\<lparr>s_delivery_tag_by_id := (s_delivery_tag_by_id s1)
                                     ((Receiver, delivery_id) \<mapsto> (input_handle, delivery_tag))\<rparr>
                           else s1)
                 in emit s2 (t\<lparr>tr_delivery_id := Some delivery_id\<rparr>)))
         else emit s t)"

lemma transfer_inner_buffer:
  "on_outgoing_transfer_inner s h t p f = (s', r) \<Longrightarrow> s_exhausted_buffer s' = s_exhausted_buffer s"
  by (auto simp: on_outgoing_transfer_inner_def Let_def split: option.splits if_splits)

function prepare_buffered_transfers ::
    "session \<Rightarrow> session_frame list \<Rightarrow> session \<times> (session_inner_error + session_frame list)" where
  "prepare_buffered_transfers s out =
     (if 0 < s_remote_incoming_window s then
        (case s_exhausted_buffer s of
           [] \<Rightarrow> (s, Inr out)
         | (h, t, p, f) # rest \<Rightarrow>
             (case on_outgoing_transfer_inner (s\<lparr>s_exhausted_buffer := rest\<rparr>) h t p f of
                (s', Inl e) \<Rightarrow> (s', Inl e)
              | (s', Inr frame) \<Rightarrow> prepare_buffered_transfers s' (out @ [frame])))
      else (s, Inr out))"
  by pat_completeness auto

termination
  by (relation "measure (\<lambda>(s, out). length (s_exhausted_buffer s))")
    (auto dest!: transfer_inner_buffer [OF sym])

declare prepare_buffered_transfers.simps [simp del]

definition prepare_buffered_and_current_transfers ::
    "session \<Rightarrow> session_frame list \<Rightarrow> u32 \<Rightarrow> transfer \<Rightarrow> payload \<Rightarrow> bool \<Rightarrow>
      session \<times> (session_inner_error + session_frame list)" where
  "prepare_buffered_and_current_transfers s out h t p f =
     (case prepare_buffered_transfers s out of
        (s1, Inl e) \<Rightarrow> (s1, Inl e)
      | (s1, Inr frames) \<Rightarrow>
          if 0 < s_remote_incoming_window s1 then
            (case on_outgoing_transfer_inner s1 h t p f of
               (s2, Inl e) \<Rightarrow> (s2, Inl e)
             | (s2, Inr frame) \<Rightarrow> (s2, Inr (frames @ [frame])))
          else (s1\<lparr>s_exhausted_buffer := s_exhausted_buffer s1 @ [(h, t, p, f)]\<rparr>, Inr frames))"

definition on_outgoing_transfer ::
    "session \<Rightarrow> u32 \<Rightarrow> transfer \<Rightarrow> payload \<Rightarrow> bool \<Rightarrow>
      session \<times> (session_inner_error + session_outgoing_item option)" where
  "on_outgoing_transfer s h t p f =
     (if s_remote_incoming_window s = 0 then
        (s\<lparr>s_exhausted_buffer := s_exhausted_buffer s @ [(h, t, p, f)]\<rparr>, Inr None)
      else if s_exhausted_buffer s = [] then
        (case on_outgoing_transfer_inner s h t p f of
           (s', Inl e) \<Rightarrow> (s', Inl e)
         | (s', Inr frame) \<Rightarrow> (s', Inr (Some (SingleFrame frame))))
      else
        (case prepare_buffered_and_current_transfers s [] h t p f of
           (s', Inl e) \<Rightarrow> (s', Inl e)
         | (s', Inr frames) \<Rightarrow> (s', Inr (Some (MultipleFrames frames)))))"

section \<open>Flows\<close>

definition on_outgoing_session_flow :: "session \<Rightarrow> session_frame" where
  "on_outgoing_session_flow s = session_frame_new (s_outgoing_channel s) (SfFlow
     \<lparr>fl_next_incoming_id = Some (s_next_incoming_id s), fl_incoming_window = s_incoming_window s,
      fl_next_outgoing_id = s_next_outgoing_id s, fl_outgoing_window = s_outgoing_window s,
      fl_handle = None, fl_delivery_count = None, fl_link_credit = None, fl_available = None,
      fl_drain = False, fl_echo = False, fl_properties = None\<rparr>)"

definition on_outgoing_flow :: "session \<Rightarrow> link_flow \<Rightarrow> session_frame" where
  "on_outgoing_flow s flow = session_frame_new (s_outgoing_channel s) (SfFlow
     \<lparr>fl_next_incoming_id = Some (s_next_incoming_id s), fl_incoming_window = s_incoming_window s,
      fl_next_outgoing_id = s_next_outgoing_id s, fl_outgoing_window = s_outgoing_window s,
      fl_handle = Some (lf_handle flow), fl_delivery_count = lf_delivery_count flow,
      fl_link_credit = lf_link_credit flow, fl_available = lf_available flow,
      fl_drain = lf_drain flow, fl_echo = lf_echo flow, fl_properties = lf_properties flow\<rparr>)"

definition maybe_outgoing_session_flow :: "session \<Rightarrow> session \<times> session_outgoing_item option" where
  "maybe_outgoing_session_flow s =
     (if s_local_state s \<noteq> Mapped then (s, None)
      else if s_incoming_window s div 2 \<le> s_need_flow_count s then
        (let s1 = s\<lparr>s_need_flow_count := 0\<rparr>
         in (s1, Some (SingleFrame (on_outgoing_session_flow s1))))
      else (s, None))"

definition update_windows :: "session \<Rightarrow> flow \<Rightarrow> session" where
  "update_windows s fl =
     (let s1 = s\<lparr>s_next_incoming_id := fl_next_outgoing_id fl,
                 s_remote_outgoing_window := fl_outgoing_window fl\<rparr>
      in case fl_next_incoming_id fl of
           Some flow_next_incoming_id \<Rightarrow>
             s1\<lparr>s_remote_incoming_window := saturating_sub
                  (saturating_add flow_next_incoming_id (fl_incoming_window fl)) (s_next_outgoing_id s1)\<rparr>
         | None \<Rightarrow>
             s1\<lparr>s_remote_incoming_window := saturating_sub
                  (saturating_add (s_initial_outgoing_id s1) (fl_incoming_window fl)) (s_next_outgoing_id s1)\<rparr>)"

definition on_incoming_flow_inner ::
    "session \<Rightarrow> flow \<Rightarrow> session \<times> (session_inner_error + link_flow option)" where
  "on_incoming_flow_inner s fl =
     (let s1 = update_windows s fl
      in case link_flow_try_from fl of
           None \<Rightarrow> (s1, Inr None)
         | Some link_flow \<Rightarrow>
             (case s_link_by_input_handle s1 (lf_handle link_flow) of
                None \<Rightarrow> (s1, Inl UnattachedHandle)
              | Some relay \<Rightarrow>
                  (case relay_on_incoming_flow relay link_flow of
                     Inl e \<Rightarrow> (s1, Inl (inner_error_of_relay e))
                   | Inr (relay', ret) \<Rightarrow>
                       (s1\<lparr>s_link_by_input_handle :=
                             (s_link_by_input_handle s1)(lf_handle link_flow \<mapsto> relay')\<rparr>, Inr ret))))"

definition on_incoming_flow ::
    "session \<Rightarrow> flow \<Rightarrow> session \<times> (session_inner_error + session_outgoing_item option)" where
  "on_incoming_flow s fl =
     (case on_incoming_flow_inner s fl of
        (s1, Inl e) \<Rightarrow> (s1, Inl e)
      | (s1, Inr outgoing_link_flow) \<Rightarrow>
          (let outgoing_session_flow = map_option (on_outgoing_flow s1) outgoing_link_flow
           in if 0 < s_remote_incoming_window s1 \<and> s_exhausted_buffer s1 \<noteq> [] then
                (case prepare_buffered_transfers s1
                        (case outgoing_session_flow of None \<Rightarrow> [] | Some f \<Rightarrow> [f]) of
                   (s2, Inl e) \<Rightarrow> (s2, Inl e)
                 | (s2, Inr frames) \<Rightarrow> (s2, Inr (Some (MultipleFrames frames))))
              else (s1, Inr (map_option SingleFrame outgoing_session_flow))))"

section \<open>Links of a session\<close>

definition set_session_stop_reason :: "session \<Rightarrow> session_stop_reason \<Rightarrow> session" where
  "set_session_stop_reason s reason =
     (case s_session_stop_reason s of
        None \<Rightarrow> s\<lparr>s_session_stop_reason := Some reason\<rparr> | Some _ \<Rightarrow> s)"

text \<open>\<open>key\<close> is the key of the slab's vacant entry.\<close>

definition allocate_link ::
    "nat \<Rightarrow> session \<Rightarrow> string \<Rightarrow> unit link_relay option \<Rightarrow> session \<times> (alloc_link_error + u32)" where
  "allocate_link key s link_name link_relay =
     (if s_local_state s \<noteq> Mapped then
        (s, Inl (case s_session_stop_reason s of
             Some reason \<Rightarrow> SessionStopped reason
           | None \<Rightarrow> (if s_local_state s \<in> {EndSent, EndReceived, Discarding}
                     then SessionStopped Ended else SessionNotMapped)))
      else if s_link_by_name s link_name \<noteq> None then (s, Inl DuplicatedLinkName)
      else
        (let handle = word_of_nat key;
             s1 = s\<lparr>s_link_name_by_output_handle := (s_link_name_by_output_handle s)(key \<mapsto> link_name)\<rparr>;
             value = map_option (\<lambda>val. with_output_handle val handle) link_relay
         in (s1\<lparr>s_link_by_name := (s_link_by_name s1)(link_name \<mapsto> value)\<rparr>, Inr handle)))"

definition allocate_incoming_link ::
    "nat \<Rightarrow> session \<Rightarrow> string \<Rightarrow> unit link_relay \<Rightarrow> u32 \<Rightarrow> session \<times> (alloc_link_error + u32)" where
  "allocate_incoming_link key s link_name link_relay input_handle =
     (case allocate_link key s link_name None of
        (s1, Inr handle) \<Rightarrow>
          (s1\<lparr>s_link_by_input_handle := (s_link_by_input_handle s1)
                (input_handle \<mapsto> with_output_handle link_relay handle)\<rparr>, Inr handle)
      | (s1, Inl e) \<Rightarrow> (s1, Inl e))"

definition deallocate_link :: "session \<Rightarrow> u32 \<Rightarrow> session \<times> bool" where
  "deallocate_link s handle =
     (case s_link_name_by_output_handle s (unat handle) of
        Some name \<Rightarrow>
          (s\<lparr>s_link_name_by_output_handle := (s_link_name_by_output_handle s)(unat handle := None),
             s_link_by_name := (s_link_by_name s)(name := None)\<rparr>, True)
      | None \<Rightarrow> (s, False))"

definition on_incoming_attach :: "session \<Rightarrow> attach \<Rightarrow> session \<times> (session_inner_error + unit)" where
  "on_incoming_attach s a =
     (case s_link_by_name s (at_name a) of
        None \<Rightarrow> (s, Inl RemoteAttachingLinkNameNotFound)
      | Some None \<Rightarrow> (s, Inl HandleInUse)
      | Some (Some relay) \<Rightarrow>
          (let s1 = s\<lparr>s_link_by_name := (s_link_by_name s)(at_name a \<mapsto> None)\<rparr>;
               relay1 = (case relay of
                  SenderRelay r \<Rightarrow> SenderRelay (r\<lparr>sr_receiver_settle_mode := at_rcv_settle_mode a\<rparr>)
                | ReceiverRelay r \<Rightarrow> ReceiverRelay r)
           in case relay_send relay1 (LfAttach a) of
                None \<Rightarrow> (s1, Inl UnattachedHandle)
              | Some relay2 \<Rightarrow>
                  (s1\<lparr>s_link_by_input_handle :=
                        (s_link_by_input_handle s1)(at_handle a \<mapsto> relay2)\<rparr>, Inr ())))"

definition on_outgoing_attach :: "session \<Rightarrow> attach \<Rightarrow> session_frame" where
  "on_outgoing_attach s a = session_frame_new (s_outgoing_channel s) (SfAttach a)"

text \<open>
  The relay leaves the session; it is returned because the link endpoint still sees its shared
  cells.
\<close>

definition on_incoming_detach ::
    "session \<Rightarrow> detach \<Rightarrow> session \<times> u32 link_relay option \<times> detach option" where
  "on_incoming_detach s d =
     (case s_link_by_input_handle s (de_handle d) of
        None \<Rightarrow> (s, None, None)
      | Some link \<Rightarrow>
          (let s1 = s\<lparr>s_link_by_input_handle := (s_link_by_input_handle s)(de_handle d := None)\<rparr>;
               h = output_handle link;
               remote_initiated = (h \<notin> s_close_pending s1);
               s2 = s1\<lparr>s_close_pending := s_close_pending s1 - {h}\<rparr>
           in case relay_on_incoming_detach link d remote_initiated of
                (link', response) \<Rightarrow> (s2, Some link', response)))"

definition on_outgoing_detach :: "session \<Rightarrow> detach \<Rightarrow> bool \<Rightarrow> session \<times> session_frame option" where
  "on_outgoing_detach s d expects_echo =
     (let (s1, deallocated) = deallocate_link s (de_handle d);
          frame = session_frame_new (s_outgoing_channel s1) (SfDetach d)
      in if expects_echo then
           (if \<not> deallocated then (s1, None)
            else (s1\<lparr>s_close_pending := insert (de_handle d) (s_close_pending s1)\<rparr>, Some frame))
         else (s1, Some frame))"

section \<open>Incoming transfers and dispositions\<close>

definition on_incoming_transfer ::
    "session \<Rightarrow> transfer \<Rightarrow> payload \<Rightarrow> session \<times> (session_inner_error + disposition option)" where
  "on_incoming_transfer s t p =
     (let s1 = s\<lparr>s_next_incoming_id := wrapping_add (s_next_incoming_id s) 1,
                 s_remote_outgoing_window := saturating_sub (s_remote_outgoing_window s) 1,
                 s_need_flow_count := saturating_add (s_need_flow_count s) 1\<rparr>;
          input_handle = tr_handle t
      in case s_link_by_input_handle s1 input_handle of
           None \<Rightarrow> (s1, Inl UnattachedHandle)
         | Some relay \<Rightarrow>
             (case relay_on_incoming_transfer relay t p of
                Inl e \<Rightarrow> (s1, Inl (inner_error_of_relay e))
              | Inr (relay', id_and_tag) \<Rightarrow>
                  (let s2 = s1\<lparr>s_link_by_input_handle :=
                         (s_link_by_input_handle s1)(input_handle \<mapsto> relay')\<rparr>;
                       s3 = (case id_and_tag of
                           None \<Rightarrow> s2
                         | Some (delivery_id, delivery_tag) \<Rightarrow>
                             s2\<lparr>s_delivery_tag_by_id := (s_delivery_tag_by_id s2)
                                  ((Sender, delivery_id) \<mapsto> (input_handle, delivery_tag))\<rparr>)
                   in (s3, Inr None))))"

text \<open>One iteration of the loop over the deliveries a settled disposition names.\<close>

definition settle_one :: "disposition \<Rightarrow> session \<Rightarrow> u32 \<Rightarrow> session" where
  "settle_one d s delivery_id =
     (case s_delivery_tag_by_id s (di_role d, delivery_id) of
        None \<Rightarrow> s
      | Some (handle, tag) \<Rightarrow>
          (let s1 = s\<lparr>s_delivery_tag_by_id :=
                         (s_delivery_tag_by_id s)((di_role d, delivery_id) := None)\<rparr>
           in case s_link_by_input_handle s1 handle of
                None \<Rightarrow> s1
              | Some relay \<Rightarrow>
                  s1\<lparr>s_link_by_input_handle := (s_link_by_input_handle s1)
                       (handle \<mapsto> fst (relay_on_incoming_disposition relay (di_settled d) (di_state d) tag))\<rparr>))"

text \<open>
  One iteration of the loop over the deliveries an unsettled disposition names, with the ids to
  echo collected so far.
\<close>

definition update_one :: "disposition \<Rightarrow> session \<times> u32 list \<Rightarrow> u32 \<Rightarrow> session \<times> u32 list" where
  "update_one d sd delivery_id =
     (case sd of (s, delivery_ids) \<Rightarrow>
       (case s_delivery_tag_by_id s (di_role d, delivery_id) of
          None \<Rightarrow> (s, delivery_ids)
        | Some (handle, tag) \<Rightarrow>
            (case s_link_by_input_handle s handle of
               None \<Rightarrow> (s, delivery_ids)
             | Some relay \<Rightarrow>
                 (case relay_on_incoming_disposition relay (di_settled d) (di_state d) tag of
                    (relay', echo) \<Rightarrow>
                      (s\<lparr>s_link_by_input_handle := (s_link_by_input_handle s)(handle \<mapsto> relay')\<rparr>,
                       if echo then delivery_ids @ [delivery_id] else delivery_ids)))))"

definition is_consecutive :: "u32 \<Rightarrow> u32 \<Rightarrow> bool" where
  "is_consecutive left right \<longleftrightarrow> right - left = 1"

definition consecutive_chunk_indices :: "u32 list \<Rightarrow> nat list" where
  "consecutive_chunk_indices ids =
     map Suc (filter (\<lambda>i. \<not> is_consecutive (ids ! i) (ids ! Suc i)) [0 ..< length ids - 1])"

text \<open>
  The loop over the chunk indices. \<open>slice[0]\<close> of the source would panic on an empty slice;
  the indices are strictly increasing, so no slice is empty (\<open>chunk_indices_props\<close>).
\<close>

fun echo_dispositions :: "delivery_state option \<Rightarrow> u32 list \<Rightarrow> nat \<Rightarrow> nat list \<Rightarrow> disposition list" where
  "echo_dispositions state ids prev_ind [] = []"
| "echo_dispositions state ids prev_ind (ind # inds) =
     (let slice = take (ind - prev_ind) (drop prev_ind ids)
      in \<lparr>di_role = Sender, di_first = hd slice,
          di_last = (if slice = [] then None else Some (last slice)), di_settled = True,
          di_state = state, di_batchable = False\<rparr> # echo_dispositions state ids ind inds)"

definition on_incoming_disposition :: "session \<Rightarrow> disposition \<Rightarrow> session \<times> disposition list option" where
  "on_incoming_disposition s d =
     (let a = di_first d;
          b = (case di_last d of Some l \<Rightarrow> l | None \<Rightarrow> a)
      in if di_settled d then (foldl (settle_one d) s (range_incl a b), None)
         else
           (case foldl (update_one d) (s, []) (range_incl a b) of
              (s1, delivery_ids) \<Rightarrow>
                (s1, Some (echo_dispositions (di_state d) delivery_ids 0
                             (consecutive_chunk_indices delivery_ids)))))"

definition num_messages_settled_by_disposition :: "u32 \<Rightarrow> u32 option \<Rightarrow> u32" where
  "num_messages_settled_by_disposition a b =
     (case b of
        None \<Rightarrow> 0
      | Some l \<Rightarrow> (case checked_sub l a of None \<Rightarrow> 0 | Some n \<Rightarrow> n)) + 1"

definition on_outgoing_disposition :: "session \<Rightarrow> disposition \<Rightarrow> session \<times> session_frame" where
  "on_outgoing_disposition s d =
     (let s1 = (if state_is_terminal (di_state d)
                then s\<lparr>s_remote_outgoing_window := saturating_add (s_remote_outgoing_window s)
                         (num_messages_settled_by_disposition (di_first d) (di_last d))\<rparr>
                else s)
      in (s1, session_frame_new (s_outgoing_channel s1) (SfDisposition d)))"

section \<open>Begin and end\<close>

definition on_incoming_begin :: "session \<Rightarrow> u16 \<Rightarrow> begin_perf \<Rightarrow> session \<times> (session_state_error + unit)" where
  "on_incoming_begin s channel b =
     (let accept = (\<lambda>st. (s\<lparr>s_local_state := st, s_incoming_channel := Some channel,
            s_next_incoming_id := be_next_outgoing_id b,
            s_remote_incoming_window := be_incoming_window b,
            s_remote_outgoing_window := be_outgoing_window b\<rparr>, Inr ()))
      in case s_local_state s of
           Unmapped \<Rightarrow> accept BeginReceived
         | BeginSent \<Rightarrow> accept Mapped
         | _ \<Rightarrow> (s, Inl SseIllegalState))"

definition on_incoming_end :: "session \<Rightarrow> end_perf \<Rightarrow> session \<times> (session_state_error + unit)" where
  "on_incoming_end s e =
     (if s_local_state s \<in> {BeginSent, BeginReceived, Mapped} then
        (s\<lparr>s_local_state := EndReceived\<rparr>,
         Inl (case en_error e of Some err \<Rightarrow> SseRemoteEndedWithError err | None \<Rightarrow> SseRemoteEnded))
      else if s_local_state s \<in> {EndSent, Discarding} then
        (s\<lparr>s_local_state := Unmapped\<rparr>,
         case en_error e of Some err \<Rightarrow> Inl (SseRemoteEndedWithError err) | None \<Rightarrow> Inr ())
      else (s, Inl SseIllegalState))"

definition connection_stop_reason_or_closed :: "connection_stop_reason option \<Rightarrow> connection_stop_reason" where
  "connection_stop_reason_or_closed cell = (case cell of Some reason \<Rightarrow> reason | None \<Rightarrow> ConnClosed)"

definition send_begin ::
    "session \<Rightarrow> session_frame chan \<Rightarrow> session \<times> session_frame chan \<times> (session_state_error + unit)" where
  "send_begin s writer =
     (let frame = session_frame_new (s_outgoing_channel s) (SfBegin
            \<lparr>be_remote_channel = s_incoming_channel s, be_next_outgoing_id = s_next_outgoing_id s,
             be_incoming_window = s_incoming_window s, be_outgoing_window = s_outgoing_window s,
             be_handle_max = s_handle_max s, be_offered_capabilities = s_offered_capabilities s,
             be_desired_capabilities = s_desired_capabilities s, be_properties = s_properties s\<rparr>);
          go = (\<lambda>st. case chan_send writer frame of
             None \<Rightarrow> (s, writer, Inl (SseConnectionStopped
                        (connection_stop_reason_or_closed (s_connection_stop_reason s))))
           | Some writer' \<Rightarrow> (s\<lparr>s_local_state := st\<rparr>, writer', Inr ()))
      in case s_local_state s of
           Unmapped \<Rightarrow> go BeginSent
         | BeginReceived \<Rightarrow> go Mapped
         | _ \<Rightarrow> (s, writer, Inl SseIllegalState))"

definition send_end ::
    "session \<Rightarrow> session_frame chan \<Rightarrow> amqp_error option \<Rightarrow>
      session \<times> session_frame chan \<times> (session_state_error + unit)" where
  "send_end s writer err =
     (let go = (\<lambda>st. let s1 = s\<lparr>s_local_state := st\<rparr> in
           case chan_send writer (session_frame_new (s_outgoing_channel s1) (SfEnd \<lparr>en_error = err\<rparr>)) of
             None \<Rightarrow> (s1, writer, Inl (SseConnectionStopped
                        (connection_stop_reason_or_closed (s_connection_stop_reason s1))))
           | Some writer' \<Rightarrow> (s1, writer', Inr ()))
      in case s_local_state s of
           Mapped \<Rightarrow> go (if err \<noteq> None then Discarding else EndSent)
         | EndReceived \<Rightarrow> go Unmapped
         | _ \<Rightarrow> (s, writer, Inl SseIllegalState))"

end
