(* ===== verification/Session_Windows.thy ===== *)
theory Session_Windows
  imports Session
begin

text \<open>
  Session flow control: what the outgoing-transfer and incoming-flow operations of
  \<open>Session\<close> promise together. The interface \<open>fifo_channel\<close> states the discipline of
  the buffer of blocked transfers for any client (nothing is lost, duplicated or reordered) and
  \<open>numbered_channel\<close> adds the numbering of what goes out; both are interpreted on the
  session's operations.
\<close>

section \<open>A queue that is released by grants\<close>

datatype ('x, 'g) channel_event = Submit 'x | Grant 'g

locale fifo_channel =
  fixes submit :: "'s \<Rightarrow> 'x \<Rightarrow> 's \<times> 'y list"
    and grant :: "'s \<Rightarrow> 'g \<Rightarrow> 's \<times> 'y list"
    and queue :: "'s \<Rightarrow> 'x list"
    and what_in :: "'x \<Rightarrow> 'z"
    and what_out :: "'y \<Rightarrow> 'z"
    and inv :: "'s \<Rightarrow> bool"
    and ok :: "'x \<Rightarrow> bool"
  assumes submit_fifo: "inv s \<Longrightarrow> ok x \<Longrightarrow> submit s x = (t, ys) \<Longrightarrow>
      map what_out ys @ map what_in (queue t) = map what_in (queue s) @ [what_in x]"
    and grant_fifo: "inv s \<Longrightarrow> grant s g = (t, ys) \<Longrightarrow>
      map what_out ys @ map what_in (queue t) = map what_in (queue s)"
    and submit_inv: "inv s \<Longrightarrow> ok x \<Longrightarrow> submit s x = (t, ys) \<Longrightarrow> inv t"
    and grant_inv: "inv s \<Longrightarrow> grant s g = (t, ys) \<Longrightarrow> inv t"
begin

fun step :: "'s \<Rightarrow> ('x, 'g) channel_event \<Rightarrow> 's \<times> 'y list" where
  "step s (Submit x) = submit s x"
| "step s (Grant g) = grant s g"

fun run :: "'s \<Rightarrow> ('x, 'g) channel_event list \<Rightarrow> 's \<times> 'y list" where
  "run s [] = (s, [])"
| "run s (e # es) = (case step s e of (t, ys) \<Rightarrow> (case run t es of (u, zs) \<Rightarrow> (u, ys @ zs)))"

fun submitted :: "('x, 'g) channel_event list \<Rightarrow> 'x list" where
  "submitted [] = []"
| "submitted (Submit x # es) = x # submitted es"
| "submitted (Grant g # es) = submitted es"

lemma run_ConsE:
  assumes "run s (e # es) = (u, ys)"
  obtains t ys1 ys2 where "step s e = (t, ys1)" "run t es = (u, ys2)" "ys = ys1 @ ys2"
  using assms by (auto split: prod.splits)

lemma run_fifo:
  "inv s \<Longrightarrow> list_all ok (submitted es) \<Longrightarrow> run s es = (t, ys) \<Longrightarrow>
     inv t \<and> map what_out ys @ map what_in (queue t) = map what_in (queue s) @ map what_in (submitted es)"
proof (induction es arbitrary: s ys)
  case Nil
  then show ?case by simp
next
  case (Cons e es)
  from Cons.prems(3) obtain u ys1 ys2 where step: "step s e = (u, ys1)"
    and run: "run u es = (t, ys2)" and ys: "ys = ys1 @ ys2" by (rule run_ConsE)
  show ?case
  proof (cases e)
    case (Submit x)
    with step Cons.prems have ok: "ok x" and sub: "submit s x = (u, ys1)"
      and rest: "list_all ok (submitted es)" by simp_all
    from Cons.IH [OF submit_inv [OF Cons.prems(1) ok sub] rest run]
      submit_fifo [OF Cons.prems(1) ok sub]
    show ?thesis by (simp add: ys Submit)
  next
    case (Grant g)
    with step Cons.prems have gr: "grant s g = (u, ys1)"
      and rest: "list_all ok (submitted es)" by simp_all
    from Cons.IH [OF grant_inv [OF Cons.prems(1) gr] rest run] grant_fifo [OF Cons.prems(1) gr]
    show ?thesis by (simp add: ys Grant)
  qed
qed

end

text \<open>A channel that numbers what goes out: each output advances the counter by one.\<close>

locale numbered_channel = fifo_channel submit grant queue what_in what_out inv ok
  for submit :: "'s \<Rightarrow> 'x \<Rightarrow> 's \<times> 'y list"
    and grant :: "'s \<Rightarrow> 'g \<Rightarrow> 's \<times> 'y list"
    and queue :: "'s \<Rightarrow> 'x list"
    and what_in :: "'x \<Rightarrow> 'z"
    and what_out :: "'y \<Rightarrow> 'z"
    and inv :: "'s \<Rightarrow> bool"
    and ok :: "'x \<Rightarrow> bool" +
  fixes next_id :: "'s \<Rightarrow> u32"
  assumes submit_id: "inv s \<Longrightarrow> ok x \<Longrightarrow> submit s x = (t, ys) \<Longrightarrow>
      next_id t = next_id s + word_of_nat (length ys)"
    and grant_id: "inv s \<Longrightarrow> grant s g = (t, ys) \<Longrightarrow>
      next_id t = next_id s + word_of_nat (length ys)"
begin

lemma run_id:
  "inv s \<Longrightarrow> list_all ok (submitted es) \<Longrightarrow> run s es = (t, ys) \<Longrightarrow>
     next_id t = next_id s + word_of_nat (length ys)"
proof (induction es arbitrary: s ys)
  case Nil
  then show ?case by simp
next
  case (Cons e es)
  from Cons.prems(3) obtain u ys1 ys2 where step: "step s e = (u, ys1)"
    and run: "run u es = (t, ys2)" and ys: "ys = ys1 @ ys2" by (rule run_ConsE)
  show ?case
  proof (cases e)
    case (Submit x)
    with step Cons.prems have ok: "ok x" and sub: "submit s x = (u, ys1)"
      and rest: "list_all ok (submitted es)" by simp_all
    from Cons.IH [OF submit_inv [OF Cons.prems(1) ok sub] rest run]
      submit_id [OF Cons.prems(1) ok sub]
    show ?thesis by (simp add: ys add.assoc)
  next
    case (Grant g)
    with step Cons.prems have gr: "grant s g = (u, ys1)"
      and rest: "list_all ok (submitted es)" by simp_all
    from Cons.IH [OF grant_inv [OF Cons.prems(1) gr] rest run] grant_id [OF Cons.prems(1) gr]
    show ?thesis by (simp add: ys add.assoc)
  qed
qed

end

section \<open>What one transfer does to the session\<close>

text \<open>
  What the sender link hands to the session: the first frame of a delivery carries the
  delivery-tag, a continuation carries no delivery-id.
\<close>

fun ok_item :: "buffered_transfer \<Rightarrow> bool" where
  "ok_item (h, t, p, f) = (if f then tr_delivery_tag t \<noteq> None else tr_delivery_id t = None)"

definition emit_state :: "session \<Rightarrow> buffered_transfer \<Rightarrow> session" where
  "emit_state s x = (case x of (h, t, p, f) \<Rightarrow> fst (on_outgoing_transfer_inner s h t p f))"

definition emit_frame :: "session \<Rightarrow> buffered_transfer \<Rightarrow> session_frame" where
  "emit_frame s x = (case x of (h, t, p, f) \<Rightarrow>
     session_frame_new (s_outgoing_channel s)
       (SfTransfer (if f then t\<lparr>tr_delivery_id := Some (s_next_outgoing_delivery_id s)\<rparr> else t) p))"

lemma transfer_inner_ok:
  "ok_item (h, t, p, f) \<Longrightarrow> on_outgoing_transfer_inner s h t p f
     = (emit_state s (h, t, p, f), Inr (emit_frame s (h, t, p, f)))"
  by (auto simp: on_outgoing_transfer_inner_def emit_state_def emit_frame_def Let_def
      split: option.splits if_splits)

lemma emit_state_simps [simp]:
  "s_exhausted_buffer (emit_state s x) = s_exhausted_buffer s"
  "s_outgoing_channel (emit_state s x) = s_outgoing_channel s"
  "emit_state (s\<lparr>s_exhausted_buffer := b\<rparr>) x = (emit_state s x)\<lparr>s_exhausted_buffer := b\<rparr>"
  "emit_frame (s\<lparr>s_exhausted_buffer := b\<rparr>) x = emit_frame s x"
  by (auto simp: emit_state_def emit_frame_def on_outgoing_transfer_inner_def Let_def
      split: prod.splits option.splits)

lemma emit_state_counters:
  assumes "ok_item x"
  shows "s_next_outgoing_id (emit_state s x) = s_next_outgoing_id s + 1"
    and "unat (s_remote_incoming_window (emit_state s x)) = unat (s_remote_incoming_window s) - 1"
    and "s_next_outgoing_delivery_id (emit_state s x)
           = s_next_outgoing_delivery_id s + (if snd (snd (snd x)) then 1 else 0)"
  using assms
  by (cases x; auto simp: emit_state_def on_outgoing_transfer_inner_def Let_def wrapping_add_def
      unat_saturating_sub split: option.splits)+

fun emit_all :: "session \<Rightarrow> buffered_transfer list \<Rightarrow> session \<times> session_frame list" where
  "emit_all s [] = (s, [])"
| "emit_all s (x # xs) = (case emit_all (emit_state s x) xs of (t, fs) \<Rightarrow> (t, emit_frame s x # fs))"

lemma emit_all_buffer:
  "emit_all (s\<lparr>s_exhausted_buffer := b\<rparr>) xs =
     (case emit_all s xs of (t, fs) \<Rightarrow> (t\<lparr>s_exhausted_buffer := b\<rparr>, fs))"
  by (induction xs arbitrary: s) (auto split: prod.splits)

lemma emit_all_snoc:
  "emit_all s (xs @ [x]) =
     (case emit_all s xs of (t, fs) \<Rightarrow> (emit_state t x, fs @ [emit_frame t x]))"
  by (induction xs arbitrary: s) (auto split: prod.splits)

text \<open>
  Draining emits as many buffered transfers as the window allows, in order, and keeps the rest.
\<close>

lemma prepare_buffered_ok:
  "list_all ok_item (s_exhausted_buffer s) \<Longrightarrow>
     prepare_buffered_transfers s out =
       (let n = min (unat (s_remote_incoming_window s)) (length (s_exhausted_buffer s))
        in case emit_all s (take n (s_exhausted_buffer s)) of
             (t, fs) \<Rightarrow> (t\<lparr>s_exhausted_buffer := drop n (s_exhausted_buffer s)\<rparr>, Inr (out @ fs)))"
proof (induction s out rule: prepare_buffered_transfers.induct)
  case (1 s out)
  show ?case
  proof (cases "0 < s_remote_incoming_window s \<and> s_exhausted_buffer s \<noteq> []")
    case False
    then show ?thesis
      by (subst prepare_buffered_transfers.simps)
        (auto simp: Let_def word_gt_0 split: list.splits)
  next
    case True
    then obtain h t p f rest where buf: "s_exhausted_buffer s = (h, t, p, f) # rest"
      by (cases "s_exhausted_buffer s") auto
    let ?x = "(h, t, p, f)" and ?s = "s\<lparr>s_exhausted_buffer := rest\<rparr>"
    from 1 buf have ok: "ok_item ?x" and oks: "list_all ok_item rest" by simp_all
    from True have w: "unat (s_remote_incoming_window s) = Suc (unat (s_remote_incoming_window s) - 1)"
      by (simp add: word_less_nat_alt)
    have inner: "on_outgoing_transfer_inner ?s h t p f = (emit_state ?s ?x, Inr (emit_frame ?s ?x))"
      using ok by (rule transfer_inner_ok)
    have win: "unat (s_remote_incoming_window (emit_state ?s ?x)) = unat (s_remote_incoming_window s) - 1"
      using emit_state_counters(2) [OF ok, of ?s] by simp
    let ?n = "min (unat (s_remote_incoming_window s) - 1) (length rest)"
    have n: "min (unat (s_remote_incoming_window s)) (length (?x # rest)) = Suc ?n"
      using w by simp
    have "prepare_buffered_transfers s out
        = prepare_buffered_transfers (emit_state ?s ?x) (out @ [emit_frame ?s ?x])"
      using True buf inner by (subst prepare_buffered_transfers.simps) simp
    also have "\<dots> = (case emit_all (emit_state ?s ?x) (take ?n rest) of
        (t, fs) \<Rightarrow> (t\<lparr>s_exhausted_buffer := drop ?n rest\<rparr>, Inr ((out @ [emit_frame ?s ?x]) @ fs)))"
      using "1.IH" [OF _ buf _ _ _ inner [symmetric]] True oks win by (simp add: Let_def)
    also have "\<dots> = (case emit_all s (take (Suc ?n) (?x # rest)) of
        (t, fs) \<Rightarrow> (t\<lparr>s_exhausted_buffer := drop (Suc ?n) (?x # rest)\<rparr>, Inr (out @ fs)))"
      by (simp add: emit_all_buffer split: prod.split)
    finally show ?thesis unfolding Let_def buf n .
  qed
qed

section \<open>The session as a numbered channel\<close>

fun frames_of_item :: "session_outgoing_item option \<Rightarrow> session_frame list" where
  "frames_of_item None = []"
| "frames_of_item (Some (SingleFrame f)) = [f]"
| "frames_of_item (Some (MultipleFrames fs)) = fs"

definition transfers_of :: "session_frame list \<Rightarrow> (transfer \<times> payload) list" where
  "transfers_of fs = concat (map (\<lambda>f. case sf_body f of SfTransfer t p \<Rightarrow> [(t, p)] | _ \<Rightarrow> []) fs)"

definition session_submit :: "session \<Rightarrow> buffered_transfer \<Rightarrow> session \<times> (transfer \<times> payload) list" where
  "session_submit s x =
     (case x of (h, t, p, f) \<Rightarrow>
       (case on_outgoing_transfer s h t p f of
          (s', Inl _) \<Rightarrow> (s', [])
        | (s', Inr item) \<Rightarrow> (s', transfers_of (frames_of_item item))))"

definition session_grant :: "session \<Rightarrow> flow \<Rightarrow> session \<times> (transfer \<times> payload) list" where
  "session_grant s fl =
     (case on_incoming_flow s fl of
        (s', Inl _) \<Rightarrow> (s', [])
      | (s', Inr item) \<Rightarrow> (s', transfers_of (frames_of_item item)))"

definition anonymous :: "transfer \<times> payload \<Rightarrow> transfer \<times> payload" where
  "anonymous = (\<lambda>(t, p). (t\<lparr>tr_delivery_id := None\<rparr>, p))"

definition item_content :: "buffered_transfer \<Rightarrow> transfer \<times> payload" where
  "item_content = (\<lambda>(h, t, p, f). anonymous (t, p))"

definition buffer_ok :: "session \<Rightarrow> bool" where
  "buffer_ok s \<longleftrightarrow> list_all ok_item (s_exhausted_buffer s)"

text \<open>Emit the first \<open>n\<close> items of \<open>q\<close> and leave the rest in the buffer.\<close>

definition release :: "session \<Rightarrow> buffered_transfer list \<Rightarrow> nat \<Rightarrow> session \<times> (transfer \<times> payload) list" where
  "release s q n = (case emit_all s (take n q) of
     (t, fs) \<Rightarrow> (t\<lparr>s_exhausted_buffer := drop n q\<rparr>, transfers_of fs))"

lemma transfers_of_simps [simp]:
  "transfers_of [] = []"
  "transfers_of (fs @ gs) = transfers_of fs @ transfers_of gs"
  "transfers_of (emit_frame s x # fs) =
     (case x of (h, t, p, f) \<Rightarrow>
        (if f then t\<lparr>tr_delivery_id := Some (s_next_outgoing_delivery_id s)\<rparr> else t, p)) # transfers_of fs"
  "transfers_of (on_outgoing_flow s lf # fs) = transfers_of fs"
  by (auto simp: transfers_of_def emit_frame_def session_frame_new_def on_outgoing_flow_def
      split: prod.split)

lemma emit_all_content:
  "emit_all s xs = (t, fs) \<Longrightarrow> map anonymous (transfers_of fs) = map item_content xs"
  by (induction xs arbitrary: s fs)
    (auto simp: anonymous_def item_content_def split: prod.splits if_splits)

lemma emit_all_length:
  "emit_all s xs = (t, fs) \<Longrightarrow> length (transfers_of fs) = length xs"
  using emit_all_content by (metis length_map)

lemma emit_all_counters:
  "emit_all s xs = (t, fs) \<Longrightarrow> list_all ok_item xs \<Longrightarrow>
     s_next_outgoing_id t = s_next_outgoing_id s + word_of_nat (length xs) \<and>
     unat (s_remote_incoming_window t) = unat (s_remote_incoming_window s) - length xs"
  by (induction xs arbitrary: s fs) (auto simp: emit_state_counters split: prod.splits)

lemma release_fifo:
  "release s q n = (t, ys) \<Longrightarrow>
     map anonymous ys @ map item_content (s_exhausted_buffer t) = map item_content q"
  using emit_all_content [of s "take n q"]
  by (auto simp: release_def map_append [symmetric] simp del: map_append split: prod.splits)

lemma release_ok: "release s q n = (t, ys) \<Longrightarrow> list_all ok_item q \<Longrightarrow> buffer_ok t"
  by (cases "emit_all s (take n q)") (auto simp: release_def buffer_ok_def)

lemma release_counters:
  assumes "release s q n = (t, ys)" and "list_all ok_item q"
  shows "s_next_outgoing_id t = s_next_outgoing_id s + word_of_nat (length ys)"
    and "unat (s_remote_incoming_window t) = unat (s_remote_incoming_window s) - length ys"
    and "length ys = min n (length q)"
proof -
  obtain u fs where e: "emit_all s (take n q) = (u, fs)" by (cases "emit_all s (take n q)")
  with assms(1) have t: "t = u\<lparr>s_exhausted_buffer := drop n q\<rparr>" "ys = transfers_of fs"
    by (simp_all add: release_def)
  from assms(2) have ok: "list_all ok_item (take n q)" by (rule list_all_take)
  from emit_all_length [OF e] t(2) show "length ys = min n (length q)" by simp
  with emit_all_counters [OF e ok] t
  show "s_next_outgoing_id t = s_next_outgoing_id s + word_of_nat (length ys)"
    and "unat (s_remote_incoming_window t) = unat (s_remote_incoming_window s) - length ys"
    by (simp_all add: min.commute)
qed

lemma session_submit_release:
  assumes "buffer_ok s" and "ok_item x"
  shows "session_submit s x = release s (s_exhausted_buffer s @ [x])
           (min (unat (s_remote_incoming_window s)) (Suc (length (s_exhausted_buffer s))))"
proof -
  obtain h t p f where x: "x = (h, t, p, f)" by (cases x) auto
  let ?w = "unat (s_remote_incoming_window s)" and ?q = "s_exhausted_buffer s"
  consider (closed) "?w = 0" | (direct) "0 < ?w" "?q = []" | (behind) "0 < ?w" "?q \<noteq> []" by auto
  then show ?thesis
  proof cases
    case closed
    then show ?thesis
      by (simp add: session_submit_def on_outgoing_transfer_def release_def x unat_eq_zero)
  next
    case direct
    with assms(2) have "on_outgoing_transfer s h t p f = (emit_state s x, Inr (Some (SingleFrame (emit_frame s x))))"
      by (simp add: on_outgoing_transfer_def transfer_inner_ok x unat_pos_iff)
    with direct show ?thesis
      by (simp add: session_submit_def release_def x Let_def split: prod.split)
  next
    case behind
    let ?n = "min ?w (length ?q)"
    obtain u fs where e: "emit_all s (take ?n ?q) = (u, fs)" by (cases "emit_all s (take ?n ?q)")
    let ?u = "u\<lparr>s_exhausted_buffer := drop ?n ?q\<rparr>"
    have prep: "prepare_buffered_transfers s [] = (?u, Inr fs)"
      using prepare_buffered_ok [of s "[]"] assms(1) e by (simp add: buffer_ok_def)
    have win: "unat (s_remote_incoming_window ?u) = ?w - ?n"
      using emit_all_counters [OF e list_all_take] assms(1) by (simp add: buffer_ok_def)
    show ?thesis
    proof (cases "length ?q < ?w")
      case True
      with win have "0 < s_remote_incoming_window ?u" by (simp add: word_less_nat_alt)
      with prep assms(2) behind True e show ?thesis
        by (simp add: session_submit_def on_outgoing_transfer_def release_def x unat_pos_iff
          prepare_buffered_and_current_transfers_def transfer_inner_ok emit_all_snoc min_absorb2)
    next
      case False
      with win have "\<not> 0 < s_remote_incoming_window ?u" by (simp add: word_less_nat_alt)
      with prep behind False e show ?thesis
        by (simp add: session_submit_def on_outgoing_transfer_def release_def x unat_pos_iff
          prepare_buffered_and_current_transfers_def min_absorb1)
    qed
  qed
qed

lemma flow_inner_frame:
  assumes "on_incoming_flow_inner s fl = (s1, r)"
  shows "s_exhausted_buffer s1 = s_exhausted_buffer s" "s_next_outgoing_id s1 = s_next_outgoing_id s"
    "s_next_outgoing_delivery_id s1 = s_next_outgoing_delivery_id s"
    "s_remote_incoming_window s1 = s_remote_incoming_window (update_windows s fl)"
    "s_initial_outgoing_id s1 = s_initial_outgoing_id s"
  using assms
  by (auto simp: on_incoming_flow_inner_def update_windows_def Let_def
      split: option.splits sum.splits prod.splits)

definition grant_size :: "session \<times> (session_inner_error + link_flow option) \<Rightarrow> nat" where
  "grant_size sr = (case sr of (s1, Inl _) \<Rightarrow> 0
     | (s1, Inr _) \<Rightarrow> min (unat (s_remote_incoming_window s1)) (length (s_exhausted_buffer s1)))"

lemma session_grant_release:
  assumes "buffer_ok s"
  shows "session_grant s fl = release (fst (on_incoming_flow_inner s fl)) (s_exhausted_buffer s)
           (grant_size (on_incoming_flow_inner s fl))"
proof -
  obtain s1 r where inner: "on_incoming_flow_inner s fl = (s1, r)" by (cases "on_incoming_flow_inner s fl")
  note frame = flow_inner_frame [OF inner]
  show ?thesis
  proof (cases r)
    case (Inl e)
    with inner frame show ?thesis
      by (simp add: session_grant_def on_incoming_flow_def release_def grant_size_def)
  next
    case (Inr lf)
    let ?n = "min (unat (s_remote_incoming_window s1)) (length (s_exhausted_buffer s1))"
    obtain u fs where e: "emit_all s1 (take ?n (s_exhausted_buffer s1)) = (u, fs)"
      by (cases "emit_all s1 (take ?n (s_exhausted_buffer s1))")
    have prep: "prepare_buffered_transfers s1 out
        = (u\<lparr>s_exhausted_buffer := drop ?n (s_exhausted_buffer s1)\<rparr>, Inr (out @ fs))" for out
      using prepare_buffered_ok [of s1 out] assms frame(1) e by (simp add: buffer_ok_def)
    show ?thesis
    proof (cases "0 < s_remote_incoming_window s1 \<and> s_exhausted_buffer s1 \<noteq> []")
      case True
      with inner Inr prep e frame(1) show ?thesis
        by (cases lf)
          (simp_all add: session_grant_def on_incoming_flow_def release_def grant_size_def Let_def)
    next
      case False
      then have "?n = 0" by (auto simp: word_gt_0)
      with inner Inr False e frame(1) show ?thesis
        by (cases lf)
          (auto simp: session_grant_def on_incoming_flow_def release_def grant_size_def Let_def)
    qed
  qed
qed

interpretation outgoing: numbered_channel session_submit session_grant s_exhausted_buffer
  item_content anonymous buffer_ok ok_item s_next_outgoing_id
proof (unfold_locales, goal_cases)
  case (1 s x t ys)
  then show ?case by (auto simp: session_submit_release dest!: release_fifo)
next
  case (2 s g t ys)
  then show ?case by (auto simp: session_grant_release dest!: release_fifo)
next
  case (3 s x t ys)
  then show ?case by (auto simp: session_submit_release buffer_ok_def intro!: release_ok [unfolded buffer_ok_def])
next
  case (4 s g t ys)
  then show ?case by (auto simp: session_grant_release buffer_ok_def intro!: release_ok [unfolded buffer_ok_def])
next
  case (5 s x t ys)
  then show ?case by (auto simp: session_submit_release buffer_ok_def dest!: release_counters(1))
next
  case (6 s g t ys)
  obtain s1 r where inner: "on_incoming_flow_inner s g = (s1, r)" by (cases "on_incoming_flow_inner s g")
  from 6 inner flow_inner_frame [OF inner] show ?case
    by (auto simp: session_grant_release buffer_ok_def dest!: release_counters(1))
qed

section \<open>Runs of the outgoing side\<close>

fun session_run ::
    "session \<Rightarrow> (buffered_transfer, flow) channel_event list \<Rightarrow> session \<times> (transfer \<times> payload) list" where
  "session_run s [] = (s, [])"
| "session_run s (Submit x # es) =
     (case session_submit s x of (t, ys) \<Rightarrow> (case session_run t es of (u, zs) \<Rightarrow> (u, ys @ zs)))"
| "session_run s (Grant fl # es) =
     (case session_grant s fl of (t, ys) \<Rightarrow> (case session_run t es of (u, zs) \<Rightarrow> (u, ys @ zs)))"

fun handed_over :: "(buffered_transfer, flow) channel_event list \<Rightarrow> buffered_transfer list" where
  "handed_over [] = []"
| "handed_over (Submit x # es) = x # handed_over es"
| "handed_over (Grant fl # es) = handed_over es"

lemma session_run_eq: "session_run s es = outgoing.run s es"
  by (induction s es rule: session_run.induct) (simp_all split: prod.split)

lemma handed_over_eq: "handed_over es = outgoing.submitted es"
  by (induction es rule: handed_over.induct) simp_all

definition delivery_ids :: "(transfer \<times> payload) list \<Rightarrow> u32 list" where
  "delivery_ids ys = List.map_filter (\<lambda>(t, p). tr_delivery_id t) ys"

definition ids_from :: "u32 \<Rightarrow> nat \<Rightarrow> u32 list" where
  "ids_from d n = map (\<lambda>k. d + word_of_nat k) [0 ..< n]"

lemma ids_from_append: "ids_from d m @ ids_from (d + word_of_nat m) n = ids_from d (m + n)"
proof -
  have "ids_from d (m + n) = map (\<lambda>k. d + word_of_nat k) ([0 ..< m] @ [m ..< m + n])"
    by (simp add: ids_from_def upt_add_eq_append [of 0 m n, simplified])
  moreover have "[m ..< m + n] = map (\<lambda>k. m + k) [0 ..< n]"
    by (simp add: map_add_upt add.commute)
  ultimately show ?thesis by (simp add: ids_from_def o_def add.assoc)
qed

lemma delivery_ids_append: "delivery_ids (xs @ ys) = delivery_ids xs @ delivery_ids ys"
  by (simp add: delivery_ids_def map_filter_def)

lemma emit_all_ids:
  "emit_all s xs = (t, fs) \<Longrightarrow> list_all ok_item xs \<Longrightarrow>
     delivery_ids (transfers_of fs) = ids_from (s_next_outgoing_delivery_id s) (length (delivery_ids (transfers_of fs)))
     \<and> s_next_outgoing_delivery_id t
         = s_next_outgoing_delivery_id s + word_of_nat (length (delivery_ids (transfers_of fs)))"
proof (induction xs arbitrary: s fs)
  case Nil
  then show ?case by (simp add: delivery_ids_def ids_from_def map_filter_def)
next
  case (Cons x xs)
  obtain h tr p f where x: "x = (h, tr, p, f)" by (cases x) auto
  let ?d = "s_next_outgoing_delivery_id s"
  obtain gs where rec: "emit_all (emit_state s x) xs = (t, gs)" and fs: "fs = emit_frame s x # gs"
    using Cons.prems(1) by (auto split: prod.splits)
  let ?out = "(if f then tr\<lparr>tr_delivery_id := Some ?d\<rparr> else tr, p)"
  have ok: "ok_item x" "list_all ok_item xs" using Cons.prems(2) by simp_all
  have out: "transfers_of fs = ?out # transfers_of gs" by (simp add: fs x)
  note IH = Cons.IH [OF rec ok(2)]
  have next_d: "s_next_outgoing_delivery_id (emit_state s x) = ?d + (if f then 1 else 0)"
    using emit_state_counters(3) [OF ok(1)] by (simp add: x)
  show ?case
  proof (cases f)
    case True
    then have ids: "delivery_ids (transfers_of fs) = ?d # delivery_ids (transfers_of gs)"
      by (simp add: out delivery_ids_def map_filter_def)
    have "?d # ids_from (?d + 1) n = ids_from ?d (Suc n)" for n
      using ids_from_append [of ?d 1 n] by (simp add: ids_from_def)
    with IH next_d True ids show ?thesis by (simp add: add.assoc) metis
  next
    case False
    with ok x have "delivery_ids (transfers_of fs) = delivery_ids (transfers_of gs)"
      by (simp add: out delivery_ids_def map_filter_def)
    with IH next_d False show ?thesis by simp
  qed
qed

lemma release_ids:
  assumes "release s q n = (t, ys)" and "list_all ok_item q"
  shows "delivery_ids ys = ids_from (s_next_outgoing_delivery_id s) (length (delivery_ids ys))"
    and "s_next_outgoing_delivery_id t
           = s_next_outgoing_delivery_id s + word_of_nat (length (delivery_ids ys))"
proof -
  obtain u fs where e: "emit_all s (take n q) = (u, fs)" by (cases "emit_all s (take n q)")
  with assms(1) have t: "t = u\<lparr>s_exhausted_buffer := drop n q\<rparr>" "ys = transfers_of fs"
    by (simp_all add: release_def)
  from emit_all_ids [OF e list_all_take [OF assms(2)]] t
  show "delivery_ids ys = ids_from (s_next_outgoing_delivery_id s) (length (delivery_ids ys))"
    and "s_next_outgoing_delivery_id t
           = s_next_outgoing_delivery_id s + word_of_nat (length (delivery_ids ys))"
    by simp_all
qed

text \<open>One event of the outgoing side, whichever it is.\<close>

lemma outgoing_step_release:
  assumes "buffer_ok s" and "list_all ok_item (handed_over [e])" and "outgoing.step s e = (t, ys)"
  obtains s1 q n where "release s1 q n = (t, ys)" "list_all ok_item q"
    "s_next_outgoing_delivery_id s1 = s_next_outgoing_delivery_id s"
proof (cases e)
  case (Submit x)
  with assms show thesis
    by (intro that [of s "s_exhausted_buffer s @ [x]"]) (auto simp: session_submit_release buffer_ok_def)
next
  case (Grant fl)
  obtain s1 r where inner: "on_incoming_flow_inner s fl = (s1, r)" by (cases "on_incoming_flow_inner s fl")
  from assms Grant inner flow_inner_frame(3) [OF inner] show thesis
    by (intro that [of s1 "s_exhausted_buffer s"]) (auto simp: session_grant_release buffer_ok_def)
qed

lemma run_delivery_ids:
  "buffer_ok s \<Longrightarrow> list_all ok_item (handed_over es) \<Longrightarrow> outgoing.run s es = (t, ys) \<Longrightarrow>
     delivery_ids ys = ids_from (s_next_outgoing_delivery_id s) (length (delivery_ids ys)) \<and>
     s_next_outgoing_delivery_id t
       = s_next_outgoing_delivery_id s + word_of_nat (length (delivery_ids ys))"
proof (induction es arbitrary: s ys)
  case Nil
  then show ?case by (simp add: delivery_ids_def ids_from_def map_filter_def)
next
  case (Cons e es)
  from Cons.prems(3) obtain u ys1 ys2 where step: "outgoing.step s e = (u, ys1)"
    and run: "outgoing.run u es = (t, ys2)" and ys: "ys = ys1 @ ys2" by (rule outgoing.run_ConsE)
  from Cons.prems(2) have ok: "list_all ok_item (handed_over [e])" "list_all ok_item (handed_over es)"
    by (cases e; simp)+
  obtain s1 q n where rel: "release s1 q n = (u, ys1)" "list_all ok_item q"
    "s_next_outgoing_delivery_id s1 = s_next_outgoing_delivery_id s"
    using Cons.prems(1) ok(1) step by (rule outgoing_step_release)
  from release_ok [OF rel(1,2)] have "buffer_ok u" .
  from Cons.IH [OF this ok(2) run] release_ids [OF rel(1,2)] rel(3) show ?case
    by (simp add: ys delivery_ids_append add.assoc) (metis ids_from_append)
qed

section \<open>Windows\<close>

lemma submit_window:
  assumes "buffer_ok s" "ok_item x" "session_submit s x = (t, ys)"
  shows "length ys + unat (s_remote_incoming_window t) = unat (s_remote_incoming_window s)"
    and "s_exhausted_buffer t = [] \<or> s_remote_incoming_window t = 0"
proof -
  let ?w = "unat (s_remote_incoming_window s)" and ?q = "s_exhausted_buffer s @ [x]"
  from assms have rel: "release s ?q (min ?w (length ?q)) = (t, ys)"
    by (simp add: session_submit_release)
  have ok: "list_all ok_item ?q" using assms by (simp add: buffer_ok_def)
  note c = release_counters [OF rel ok]
  show "length ys + unat (s_remote_incoming_window t) = ?w" using c(2,3) by simp
  show "s_exhausted_buffer t = [] \<or> s_remote_incoming_window t = 0"
  proof (cases "length ?q \<le> ?w")
    case True
    with rel show ?thesis by (auto simp: release_def min_absorb2 split: prod.splits)
  next
    case False
    with c(2,3) have "unat (s_remote_incoming_window t) = 0" by simp
    then show ?thesis by (simp add: unat_eq_zero)
  qed
qed

lemma submits_window:
  "buffer_ok s \<Longrightarrow> list_all ok_item xs \<Longrightarrow> session_run s (map Submit xs) = (t, ys) \<Longrightarrow>
     length ys + unat (s_remote_incoming_window t) = unat (s_remote_incoming_window s)
     \<and> (xs \<noteq> [] \<longrightarrow> s_exhausted_buffer t = [] \<or> s_remote_incoming_window t = 0)"
proof (induction xs arbitrary: s ys)
  case Nil
  then show ?case by simp
next
  case (Cons x xs)
  obtain u ys1 where sub: "session_submit s x = (u, ys1)" by (cases "session_submit s x")
  with Cons.prems(3) obtain ys2 where run: "session_run u (map Submit xs) = (t, ys2)"
    and ys: "ys = ys1 @ ys2" by (auto split: prod.splits)
  from Cons.prems have ok: "ok_item x" "list_all ok_item xs" by simp_all
  note w = submit_window [OF Cons.prems(1) ok(1) sub]
  from Cons.IH [OF outgoing.submit_inv [OF Cons.prems(1) ok(1) sub] ok(2) run] w ys run
  show ?case by (cases xs) auto
qed

lemma grant_window:
  assumes "buffer_ok s" "session_grant s fl = (t, ys)"
  shows "length ys + unat (s_remote_incoming_window t)
           = unat (s_remote_incoming_window (update_windows s fl))"
proof -
  obtain s1 r where inner: "on_incoming_flow_inner s fl = (s1, r)" by (cases "on_incoming_flow_inner s fl")
  from assms inner have rel: "release s1 (s_exhausted_buffer s) (grant_size (s1, r)) = (t, ys)"
    by (simp add: session_grant_release)
  have ok: "list_all ok_item (s_exhausted_buffer s)" using assms(1) by (simp add: buffer_ok_def)
  have "grant_size (s1, r) \<le> unat (s_remote_incoming_window s1)"
    by (auto simp: grant_size_def split: sum.splits)
  with release_counters [OF rel ok] flow_inner_frame(4) [OF inner] show ?thesis by simp
qed

definition example_session :: session where
  "example_session = \<lparr>s_outgoing_channel = 1, s_session_stop_reason = None,
     s_connection_stop_reason = None, s_local_state = Mapped, s_initial_outgoing_id = 0,
     s_next_outgoing_id = 0, s_next_outgoing_delivery_id = 0, s_incoming_window = 8,
     s_outgoing_window = 8, s_handle_max = 255, s_incoming_channel = Some 1,
     s_next_incoming_id = 0, s_need_flow_count = 0, s_remote_incoming_window = 1,
     s_exhausted_buffer = [], s_remote_outgoing_window = 8, s_offered_capabilities = None,
     s_desired_capabilities = None, s_properties = None,
     s_link_name_by_output_handle = Map.empty, s_link_by_name = Map.empty,
     s_link_by_input_handle = Map.empty, s_close_pending = {}, s_delivery_tag_by_id = Map.empty\<rparr>"

definition example_transfer :: transfer where
  "example_transfer = \<lparr>tr_handle = 0, tr_delivery_id = None, tr_delivery_tag = Some [1],
     tr_message_format = None, tr_settled = None, tr_more = False, tr_rcv_settle_mode = None,
     tr_state = None, tr_resume = False, tr_aborted = False, tr_batchable = False\<rparr>"

definition example_session_flow :: flow where
  "example_session_flow = \<lparr>fl_next_incoming_id = Some 1, fl_incoming_window = 1,
     fl_next_outgoing_id = 0, fl_outgoing_window = 8, fl_handle = None, fl_delivery_count = None,
     fl_link_credit = None, fl_available = None, fl_drain = False, fl_echo = False,
     fl_properties = None\<rparr>"

text \<open>
  A delivery of two frames and a second delivery, with room for one frame and a flow that makes
  room for one more.
\<close>

definition example_events :: "(buffered_transfer, flow) channel_event list" where
  "example_events =
     [Submit (0, example_transfer\<lparr>tr_more := True\<rparr>, [7], True),
      Submit (0, clear_continuation_fields example_transfer, [8], False),
      Submit (0, example_transfer\<lparr>tr_delivery_tag := Some [2]\<rparr>, [9], True),
      Grant example_session_flow]"

lemma example_run:
  "session_run example_session example_events =
     (example_session\<lparr>s_next_outgoing_id := 2, s_next_outgoing_delivery_id := 1,
        s_remote_incoming_window := 0,
        s_exhausted_buffer := [(0, example_transfer\<lparr>tr_delivery_tag := Some [2]\<rparr>, [9], True)],
        s_delivery_tag_by_id := [(Receiver, 0) \<mapsto> (0, [1])]\<rparr>,
      [(example_transfer\<lparr>tr_delivery_id := Some 0, tr_more := True\<rparr>, [7]),
       (clear_continuation_fields example_transfer, [8])])"
  by (simp add: example_events_def example_session_def example_transfer_def
      example_session_flow_def session_submit_def session_grant_def on_outgoing_transfer_def
      on_outgoing_transfer_inner_def session_frame_new_def on_incoming_flow_def
      on_incoming_flow_inner_def update_windows_def link_flow_try_from_def Let_def
      prepare_buffered_transfers.simps saturating_sub_def saturating_add_def wrapping_add_def
      transfers_of_def clear_continuation_fields_def)

lemma example_session_simps:
  "s_exhausted_buffer example_session = []" "s_next_outgoing_id example_session = 0"
  "s_next_outgoing_delivery_id example_session = 0"
  by (simp_all add: example_session_def)

lemma example_ok: "buffer_ok example_session" "list_all ok_item (handed_over example_events)"
  by (simp_all add: buffer_ok_def example_session_def example_events_def example_transfer_def
      clear_continuation_fields_def)

section \<open>Properties\<close>

text \<open>
  C7: whatever transfers the links hand over and whatever flows arrive in between, the transfers a
  session puts on the wire followed by those still in its buffer are exactly those that were
  buffered at the start followed by those handed over, in order and with unchanged content: no
  transfer is lost, duplicated or reordered by the remote-incoming-window. The next-outgoing-id
  advances by one for each transfer on the wire.
\<close>

theorem session_transfers_fifo:
  assumes "buffer_ok s" and "list_all ok_item (handed_over es)" and "session_run s es = (t, ys)"
  shows "map anonymous ys @ map item_content (s_exhausted_buffer t)
           = map item_content (s_exhausted_buffer s) @ map item_content (handed_over es)
         \<and> s_next_outgoing_id t = s_next_outgoing_id s + word_of_nat (length ys)"
  using outgoing.run_fifo [of s es t ys] outgoing.run_id [of s es t ys] assms
  by (simp add: session_run_eq handed_over_eq)

theorem session_transfers_fifo_witness:
  "map anonymous (snd (session_run example_session example_events))
     @ map item_content (s_exhausted_buffer (fst (session_run example_session example_events)))
     = map item_content (handed_over example_events)
   \<and> length (snd (session_run example_session example_events)) = 2"
proof -
  from session_transfers_fifo [OF example_ok example_run] show ?thesis
    by (simp add: example_run example_session_simps)
qed





text \<open>
  C17: a session whose next-outgoing-id has reached \<open>u32::MAX\<close> and whose window is used up never
  sends again: the saturating computation of the remote-incoming-window gives zero for every flow of
  the peer, so every transfer handed over stays in the buffer.
\<close>

lemma update_windows_at_max:
  assumes "s_next_outgoing_id s = - 1"
  shows "s_remote_incoming_window (update_windows s fl) = 0"
proof -
  have "saturating_sub a (- 1) = 0" for a :: u32
    using unat_lt_exp [of a] by (simp add: word_unat_eq_iff unat_saturating_sub unat_max_word)
  with assms show ?thesis by (simp add: update_windows_def Let_def split: option.split)
qed

theorem session_stalls_at_max:
  "buffer_ok s \<Longrightarrow> list_all ok_item (handed_over es) \<Longrightarrow> s_next_outgoing_id s = - 1 \<Longrightarrow>
   s_remote_incoming_window s = 0 \<Longrightarrow> snd (session_run s es) = []"
proof (induction s es rule: session_run.induct)
  case (2 s x es)
  obtain t ys where sub: "session_submit s x = (t, ys)" by (cases "session_submit s x")
  from 2 have ok: "ok_item x" "list_all ok_item (handed_over es)" by simp_all
  from submit_window [OF "2.prems"(1) ok(1) sub] "2.prems"(4)
  have e: "ys = []" "s_remote_incoming_window t = 0" by (auto simp: unat_eq_zero)
  from outgoing.submit_id [OF "2.prems"(1) ok(1) sub] e "2.prems"(3)
  have "s_next_outgoing_id t = - 1" by simp
  with "2.IH" [OF sub [symmetric]] outgoing.submit_inv [OF "2.prems"(1) ok(1) sub] ok(2) e sub
  show ?case by (auto split: prod.splits)
next
  case (3 s fl es)
  obtain t ys where g: "session_grant s fl = (t, ys)" by (cases "session_grant s fl")
  from grant_window [OF "3.prems"(1) g] "3.prems"(3)
  have e: "ys = []" "s_remote_incoming_window t = 0"
    by (auto simp: update_windows_at_max unat_eq_zero)
  from outgoing.grant_id [OF "3.prems"(1) g] e "3.prems"(3) have "s_next_outgoing_id t = - 1" by simp
  with "3.IH" [OF g [symmetric]] outgoing.grant_inv [OF "3.prems"(1) g] "3.prems"(2) e g
  show ?case by (auto split: prod.splits)
qed simp

theorem session_stalls_at_max_witness:
  "(let s = example_session\<lparr>s_next_outgoing_id := 4294967295, s_remote_incoming_window := 0\<rparr>;
        fl = example_session_flow\<lparr>fl_next_incoming_id := Some 4294967295, fl_incoming_window := 5000\<rparr>
    in snd (session_run s [Submit (0, example_transfer, [7], True), Grant fl]) = [])"
  using session_stalls_at_max
    [of "example_session\<lparr>s_next_outgoing_id := 4294967295, s_remote_incoming_window := 0\<rparr>"
        "[Submit (0, example_transfer, [7], True),
          Grant (example_session_flow\<lparr>fl_next_incoming_id := Some 4294967295, fl_incoming_window := 5000\<rparr>)]"]
  by (simp add: buffer_ok_def example_session_def example_transfer_def Let_def)

end
