(* ===== verification/Session_Links.thy ===== *)
theory Session_Links
  imports Session_Windows
begin

text \<open>
  The session's bookkeeping of links and deliveries: output handles and link names, the detach
  handshake, and the dispositions of the peer. The interface \<open>named_handles\<close> states what the
  pair of tables (handle to name, name to relay) promises.
\<close>

section \<open>Handles and names\<close>

text \<open>
  A table of names by handle and a table of entries by name agree when every handle's name has an
  entry, every entry's name has a handle, and no name has two handles. The locale shows what
  follows for any provider of an allocation that keeps the tables in agreement.
\<close>

locale named_handles =
  fixes names :: "'s \<Rightarrow> nat \<rightharpoonup> string"
    and entries :: "'s \<Rightarrow> string \<Rightarrow> bool"
    and alloc :: "nat \<Rightarrow> 's \<Rightarrow> string \<Rightarrow> 's option"
    and dealloc :: "'s \<Rightarrow> nat \<Rightarrow> 's"
  assumes alloc_names: "alloc k s n = Some t \<Longrightarrow> names t = (names s)(k \<mapsto> n)"
    and alloc_entries: "alloc k s n = Some t \<Longrightarrow> entries t = (entries s)(n := True)"
    and alloc_new: "alloc k s n = Some t \<Longrightarrow> \<not> entries s n"
    and dealloc_names: "names (dealloc s k) = (names s)(k := None)"
    and dealloc_entries: "entries (dealloc s k) =
      (case names s k of None \<Rightarrow> entries s | Some n \<Rightarrow> (entries s)(n := False))"
begin

definition agree :: "'s \<Rightarrow> bool" where
  "agree s \<longleftrightarrow> ran (names s) = {n. entries s n} \<and> inj_on (names s) (dom (names s))"

lemma agree_alloc:
  assumes "agree s" and "alloc k s n = Some t" and vacant: "names s k = None"
  shows "agree t"
proof -
  from assms(1) alloc_new [OF assms(2)] have new: "n \<notin> ran (names s)" by (auto simp: agree_def)
  then have "\<forall>k'. names s k' \<noteq> Some n" by (auto simp: ran_def)
  with assms(1) vacant new show ?thesis
    by (auto simp: agree_def alloc_names [OF assms(2)] alloc_entries [OF assms(2)] inj_on_def dom_def)
qed

lemma agree_dealloc:
  assumes "agree s"
  shows "agree (dealloc s k)"
proof (cases "names s k")
  case None
  then have "(names s)(k := None) = names s" by auto
  with assms None show ?thesis by (simp add: agree_def dealloc_names dealloc_entries)
next
  case (Some n)
  from assms have inj: "inj_on (names s) (dom (names s))" and ran: "ran (names s) = {n. entries s n}"
    by (auto simp: agree_def)
  have uniq: "k' = k" if "names s k' = Some n" for k'
    using inj that Some by (auto simp: inj_on_def dom_def)
  have "(\<exists>a. ((names s)(k := None)) a = Some m) \<longleftrightarrow> (\<exists>a. names s a = Some m) \<and> m \<noteq> n" for m
    by (metis Some uniq fun_upd_apply option.distinct(1) option.inject)
  then have "ran ((names s)(k := None)) = ran (names s) - {n}"
    by (simp only: ran_def) blast
  also have "\<dots> = {m. ((entries s)(n := False)) m}" using ran by auto
  finally have 1: "ran (names (dealloc s k)) = {m. entries (dealloc s k) m}"
    using Some by (simp add: dealloc_names dealloc_entries)
  have "dom ((names s)(k := None)) = dom (names s) - {k}" by auto
  moreover have "inj_on ((names s)(k := None)) (dom (names s) - {k})"
    using inj unfolding inj_on_def by simp
  ultimately have 2: "inj_on (names (dealloc s k)) (dom (names (dealloc s k)))"
    by (simp only: dealloc_names)
  from 1 2 show ?thesis by (simp add: agree_def)
qed

lemma dealloc_alloc:
  "alloc k s n = Some t \<Longrightarrow> names s k = None \<Longrightarrow>
     names (dealloc t k) = names s \<and> entries (dealloc t k) = entries s"
  using alloc_new [of k s n t]
  by (auto simp: dealloc_names dealloc_entries alloc_names alloc_entries fun_eq_iff)

end

definition session_alloc :: "nat \<Rightarrow> session \<Rightarrow> string \<Rightarrow> session option" where
  "session_alloc k s n =
     (case allocate_link k s n None of (t, Inr _) \<Rightarrow> Some t | (t, Inl _) \<Rightarrow> None)"

definition session_entries :: "session \<Rightarrow> string \<Rightarrow> bool" where
  "session_entries s n \<longleftrightarrow> s_link_by_name s n \<noteq> None"

text \<open>
  The slab hands out keys below \<open>2 ^ 32\<close> as handles, so deallocating by handle is deallocating
  by key for those keys.
\<close>

definition session_dealloc :: "session \<Rightarrow> nat \<Rightarrow> session" where
  "session_dealloc s k =
     (if k < 2 ^ 32 then fst (deallocate_link s (word_of_nat k))
      else (case s_link_name_by_output_handle s k of
          None \<Rightarrow> s
        | Some n \<Rightarrow> s\<lparr>s_link_name_by_output_handle := (s_link_name_by_output_handle s)(k := None),
                      s_link_by_name := (s_link_by_name s)(n := None)\<rparr>))"

lemma allocate_link_Inr:
  "allocate_link k s n relay = (t, Inr h) \<Longrightarrow>
     s_local_state s = Mapped \<and> s_link_by_name s n = None \<and> h = word_of_nat k \<and>
     s_link_name_by_output_handle t = (s_link_name_by_output_handle s)(k \<mapsto> n) \<and>
     s_link_by_name t = (s_link_by_name s)(n \<mapsto> map_option (\<lambda>v. with_output_handle v h) relay)"
  by (auto simp: allocate_link_def Let_def split: if_splits)

lemma deallocate_link_names:
  "s_link_name_by_output_handle (fst (deallocate_link s h)) = (s_link_name_by_output_handle s)(unat h := None)"
  "s_link_by_name (fst (deallocate_link s h)) =
     (case s_link_name_by_output_handle s (unat h) of
        None \<Rightarrow> s_link_by_name s | Some n \<Rightarrow> (s_link_by_name s)(n := None))"
  by (auto simp: deallocate_link_def split: option.split)

lemma unat_word_of_nat_u32: "k < 2 ^ 32 \<Longrightarrow> unat (word_of_nat k :: u32) = k"
  by (simp add: unsigned_of_nat take_bit_nat_eq_self)

interpretation handles: named_handles s_link_name_by_output_handle session_entries session_alloc session_dealloc
  by unfold_locales
    (auto simp: session_alloc_def session_dealloc_def session_entries_def deallocate_link_names
      unat_word_of_nat_u32 fun_eq_iff dest!: allocate_link_Inr split: sum.splits prod.splits option.splits)

definition links_agree :: "session \<Rightarrow> bool" where
  "links_agree s \<longleftrightarrow>
     ran (s_link_name_by_output_handle s) = {n. s_link_by_name s n \<noteq> None} \<and>
     inj_on (s_link_name_by_output_handle s) (dom (s_link_name_by_output_handle s))"

lemma links_agree_eq: "links_agree s = handles.agree s"
  by (simp add: links_agree_def handles.agree_def session_entries_def)

text \<open>Only the two tables matter, and of the second only which names have an entry.\<close>

lemma links_agree_cong:
  "s_link_name_by_output_handle t = s_link_name_by_output_handle s \<Longrightarrow>
   dom (s_link_by_name t) = dom (s_link_by_name s) \<Longrightarrow> links_agree t = links_agree s"
  by (simp add: links_agree_def dom_def)

lemma links_agree_allocate:
  assumes "links_agree s" and "s_link_name_by_output_handle s k = None"
  shows "links_agree (fst (allocate_link k s n relay))"
proof (cases "allocate_link k s n relay")
  case (Pair t r)
  show ?thesis
  proof (cases r)
    case (Inl e)
    with Pair have "t = s" by (auto simp: allocate_link_def Let_def split: if_splits)
    with assms Pair show ?thesis by simp
  next
    case (Inr h)
    note a = allocate_link_Inr [OF Pair [unfolded Inr]]
    obtain u h' where u: "allocate_link k s n None = (u, Inr h')"
      using a by (auto simp: allocate_link_def Let_def)
    then have "handles.agree u"
      using handles.agree_alloc [of s k n u] assms by (simp add: links_agree_eq session_alloc_def)
    moreover have "links_agree t = links_agree u"
      using a allocate_link_Inr [OF u] by (intro links_agree_cong) auto
    ultimately show ?thesis using Pair by (simp add: links_agree_eq)
  qed
qed

lemma links_agree_deallocate:
  assumes "links_agree s"
  shows "links_agree (fst (deallocate_link s h))"
proof -
  have "unat h < 2 ^ 32" using unat_lt_exp [of h] by simp
  with handles.agree_dealloc [of s "unat h"] assms show ?thesis
    by (simp add: links_agree_eq session_dealloc_def)
qed

section \<open>Every operation of a session as a step\<close>

text \<open>The tables that hold links: what the operations on windows leave alone.\<close>

definition link_view ::
    "session \<Rightarrow> (nat \<rightharpoonup> string) \<times> (string \<rightharpoonup> u32 link_relay option) \<times> (u32 \<rightharpoonup> u32 link_relay)" where
  "link_view s = (s_link_name_by_output_handle s, s_link_by_name s, s_link_by_input_handle s)"

definition relays_ok :: "session \<Rightarrow> bool" where
  "relays_ok s \<longleftrightarrow> (\<forall>n r. s_link_by_name s n = Some (Some r) \<longrightarrow> relay_inv r)
     \<and> (\<forall>h r. s_link_by_input_handle s h = Some r \<longrightarrow> relay_inv r)"

definition session_inv :: "session \<Rightarrow> bool" where
  "session_inv s \<longleftrightarrow> links_agree s \<and> relays_ok s"

lemma session_inv_view: "link_view t = link_view s \<Longrightarrow> session_inv t = session_inv s"
  by (simp add: session_inv_def links_agree_def relays_ok_def link_view_def)

lemma link_view_transfer_inner: "link_view (fst (on_outgoing_transfer_inner s h t p f)) = link_view s"
  by (simp add: on_outgoing_transfer_inner_def link_view_def Let_def split: option.split)

lemma link_view_prepare: "link_view (fst (prepare_buffered_transfers s out)) = link_view s"
proof (induction s out rule: prepare_buffered_transfers.induct)
  case (1 s out)
  show ?case
  proof (cases "0 < s_remote_incoming_window s \<and> s_exhausted_buffer s \<noteq> []")
    case False
    then show ?thesis
      by (subst prepare_buffered_transfers.simps) (auto split: list.splits)
  next
    case True
    then obtain h t p f rest where buf: "s_exhausted_buffer s = (h, t, p, f) # rest"
      by (cases "s_exhausted_buffer s") auto
    let ?s = "s\<lparr>s_exhausted_buffer := rest\<rparr>"
    obtain s' r where inner: "on_outgoing_transfer_inner ?s h t p f = (s', r)"
      by (cases "on_outgoing_transfer_inner ?s h t p f")
    have view: "link_view s' = link_view s"
      using link_view_transfer_inner [of ?s h t p f] inner by (simp add: link_view_def)
    have unfold: "prepare_buffered_transfers s out =
        (case r of Inl e \<Rightarrow> (s', Inl e) | Inr frame \<Rightarrow> prepare_buffered_transfers s' (out @ [frame]))"
      using True buf inner by (subst prepare_buffered_transfers.simps) (simp split: sum.split)
    show ?thesis
    proof (cases r)
      case (Inl e)
      with unfold view show ?thesis by simp
    next
      case (Inr frame)
      from "1.IH" [OF _ buf _ _ _ inner [symmetric] Inr] True view unfold Inr show ?thesis by simp
    qed
  qed
qed

lemma link_view_outgoing_transfer: "link_view (fst (on_outgoing_transfer s h t p f)) = link_view s"
proof -
  have 1: "link_view s' = link_view s" if "on_outgoing_transfer_inner s h t p f = (s', r)" for s s' r
    using link_view_transfer_inner [of s h t p f] that by simp
  have 2: "link_view s' = link_view s" if "prepare_buffered_transfers s out = (s', r)" for s s' out r
    using link_view_prepare [of s out] that by simp
  have 3: "link_view (s\<lparr>s_exhausted_buffer := b\<rparr>) = link_view s" for s b
    by (simp add: link_view_def)
  show ?thesis
    by (auto simp: on_outgoing_transfer_def prepare_buffered_and_current_transfers_def 3
      split: prod.splits sum.splits if_splits dest!: 1 2)
qed

lemma session_inv_frame [simp]:
  "session_inv (s\<lparr>s_local_state := a\<rparr>) = session_inv s"
  "session_inv (s\<lparr>s_next_incoming_id := b\<rparr>) = session_inv s"
  "session_inv (s\<lparr>s_remote_incoming_window := b\<rparr>) = session_inv s"
  "session_inv (s\<lparr>s_remote_outgoing_window := b\<rparr>) = session_inv s"
  "session_inv (s\<lparr>s_need_flow_count := b\<rparr>) = session_inv s"
  "session_inv (s\<lparr>s_incoming_channel := c\<rparr>) = session_inv s"
  "session_inv (s\<lparr>s_delivery_tag_by_id := m\<rparr>) = session_inv s"
  "session_inv (s\<lparr>s_close_pending := cp\<rparr>) = session_inv s"
  "session_inv (s\<lparr>s_session_stop_reason := sr\<rparr>) = session_inv s"
  by (rule session_inv_view; simp add: link_view_def)+

lemma session_inv_inputI:
  assumes "session_inv s" and "relay_inv r"
    and "s_link_name_by_output_handle t = s_link_name_by_output_handle s"
    and "s_link_by_name t = s_link_by_name s"
    and "s_link_by_input_handle t = (s_link_by_input_handle s)(h \<mapsto> r)"
  shows "session_inv t"
  using assms by (auto simp: session_inv_def links_agree_def relays_ok_def)

lemma session_inv_relay:
  "session_inv s \<Longrightarrow> s_link_by_input_handle s h = Some r \<Longrightarrow> relay_inv r"
  by (auto simp: session_inv_def relays_ok_def)

lemma update_windows_inv: "session_inv (update_windows s fl) = session_inv s"
  by (rule session_inv_view) (simp add: update_windows_def link_view_def Let_def split: option.split)

lemma incoming_flow_inner_inv:
  assumes "session_inv s"
  shows "session_inv (fst (on_incoming_flow_inner s fl))"
proof -
  let ?w = "update_windows s fl"
  have inv: "session_inv ?w" using assms by (simp add: update_windows_inv)
  consider (none) "link_flow_try_from fl = None \<or> s_link_by_input_handle ?w (lf_handle (the (link_flow_try_from fl))) = None"
    | (link) lf relay where "link_flow_try_from fl = Some lf" "s_link_by_input_handle ?w (lf_handle lf) = Some relay"
    by (cases "link_flow_try_from fl") auto
  then show ?thesis
  proof cases
    case none
    with inv show ?thesis
      by (auto simp: on_incoming_flow_inner_def Let_def split: option.split)
  next
    case link
    note ok = session_inv_relay [OF inv link(2)]
    show ?thesis
    proof (cases "relay_on_incoming_flow relay lf")
      case (Inl e)
      with inv link show ?thesis by (simp add: on_incoming_flow_inner_def Let_def)
    next
      case (Inr rr)
      obtain relay' ret where rr: "rr = (relay', ret)" by (cases rr)
      with Inr ok have "relay_inv relay'" by (auto dest: relay_flow_inv)
      with inv show ?thesis
        by (rule session_inv_inputI [where h = "lf_handle lf"])
          (simp_all add: on_incoming_flow_inner_def Let_def link Inr rr)
    qed
  qed
qed

lemma incoming_flow_inv:
  assumes "session_inv s"
  shows "session_inv (fst (on_incoming_flow s fl))"
proof -
  obtain s1 r where inner: "on_incoming_flow_inner s fl = (s1, r)" by (cases "on_incoming_flow_inner s fl")
  have prep: "link_view t = link_view s1" if "prepare_buffered_transfers s1 out = (t, q)" for out t q
    using link_view_prepare [of s1 out] that by simp
  have "link_view (fst (on_incoming_flow s fl)) = link_view s1"
    by (auto simp: on_incoming_flow_def inner Let_def split: sum.splits prod.splits dest!: prep)
  moreover have "session_inv s1" using incoming_flow_inner_inv [OF assms, of fl] inner by simp
  ultimately show ?thesis using session_inv_view by blast
qed

lemma incoming_transfer_inv:
  assumes inv: "session_inv s"
  shows "session_inv (fst (on_incoming_transfer s t p))"
proof (cases "s_link_by_input_handle s (tr_handle t)")
  case None
  with inv show ?thesis by (simp add: on_incoming_transfer_def Let_def)
next
  case (Some relay)
  note ok = session_inv_relay [OF inv Some]
  show ?thesis
  proof (cases "relay_on_incoming_transfer relay t p")
    case (Inl e)
    with Some inv show ?thesis by (simp add: on_incoming_transfer_def Let_def)
  next
    case (Inr rr)
    obtain relay' ret where rr: "rr = (relay', ret)" by (cases rr)
    with Inr ok have "relay_inv relay'" by (auto dest: relay_transfer_inv)
    with inv show ?thesis
      by (rule session_inv_inputI [where h = "tr_handle t"])
        (simp_all add: on_incoming_transfer_def Let_def Some Inr rr split: option.split)
  qed
qed

lemma settle_one_inv:
  assumes inv: "session_inv s"
  shows "session_inv (settle_one d s i)"
proof (cases "s_delivery_tag_by_id s (di_role d, i)")
  case None
  with inv show ?thesis by (simp add: settle_one_def)
next
  case (Some ht)
  obtain h tag where ht: "ht = (h, tag)" by (cases ht)
  show ?thesis
  proof (cases "s_link_by_input_handle s h")
    case None
    with Some ht inv show ?thesis by (simp add: settle_one_def Let_def)
  next
    case (Some relay)
    note ok = relay_disposition_inv [OF session_inv_relay [OF inv Some], of "di_settled d" "di_state d" tag]
    from inv ok show ?thesis
      by (rule session_inv_inputI [where h = h])
        (simp_all add: settle_one_def Let_def \<open>s_delivery_tag_by_id s (di_role d, i) = Some ht\<close> ht Some)
  qed
qed

lemma update_one_inv:
  assumes "session_inv (fst sd)"
  shows "session_inv (fst (update_one d sd i))"
proof -
  obtain s ids where sd: "sd = (s, ids)" by (cases sd)
  with assms have inv: "session_inv s" by simp
  show ?thesis
  proof (cases "\<exists>h tag relay. s_delivery_tag_by_id s (di_role d, i) = Some (h, tag)
      \<and> s_link_by_input_handle s h = Some relay")
    case False
    with sd inv show ?thesis by (auto simp: update_one_def split: option.splits)
  next
    case True
    then obtain h tag relay where found: "s_delivery_tag_by_id s (di_role d, i) = Some (h, tag)"
      "s_link_by_input_handle s h = Some relay" by blast
    note ok = relay_disposition_inv [OF session_inv_relay [OF inv found(2)], of "di_settled d" "di_state d" tag]
    from inv ok show ?thesis
      by (rule session_inv_inputI [where h = h])
        (simp_all add: update_one_def sd found split: prod.split)
  qed
qed

lemma incoming_disposition_inv: "session_inv s \<Longrightarrow> session_inv (fst (on_incoming_disposition s d))"
proof -
  assume inv: "session_inv s"
  have "session_inv (foldl (settle_one d) s xs)" for xs
    using inv by (rule foldl_invariant) (rule settle_one_inv)
  moreover have "session_inv (fst (foldl (update_one d) (s, []) xs))" for xs
    by (rule foldl_invariant [where P = "\<lambda>sd. session_inv (fst sd)"]) (simp_all add: inv update_one_inv)
  ultimately show ?thesis
    by (auto simp: on_incoming_disposition_def Let_def split: prod.splits) (metis fst_conv)+
qed

lemma session_inv_take_name:
  "session_inv s \<Longrightarrow> s_link_by_name s n \<noteq> None \<Longrightarrow>
     session_inv (s\<lparr>s_link_by_name := (s_link_by_name s)(n \<mapsto> None)\<rparr>)"
  by (auto simp: session_inv_def links_agree_def relays_ok_def split: if_splits)

lemma incoming_attach_inv:
  assumes inv: "session_inv s"
  shows "session_inv (fst (on_incoming_attach s a))"
proof (cases "\<exists>relay. s_link_by_name s (at_name a) = Some (Some relay)")
  case False
  with inv show ?thesis by (auto simp: on_incoming_attach_def split: option.splits)
next
  case True
  then obtain relay where relay: "s_link_by_name s (at_name a) = Some (Some relay)" by blast
  let ?r = "case relay of SenderRelay r \<Rightarrow> SenderRelay (r\<lparr>sr_receiver_settle_mode := at_rcv_settle_mode a\<rparr>)
    | ReceiverRelay r \<Rightarrow> ReceiverRelay r"
  let ?s = "s\<lparr>s_link_by_name := (s_link_by_name s)(at_name a \<mapsto> None)\<rparr>"
  from inv relay have "relay_inv relay" by (auto simp: session_inv_def relays_ok_def)
  then have r: "relay_inv ?r" by (cases relay) simp_all
  have s: "session_inv ?s" using inv relay by (intro session_inv_take_name) simp_all
  show ?thesis
  proof (cases "relay_send ?r (LfAttach a)")
    case None
    with relay s show ?thesis by (simp add: on_incoming_attach_def Let_def)
  next
    case (Some relay2)
    from s relay_send_inv [OF Some r] show ?thesis
      by (rule session_inv_inputI [where h = "at_handle a"])
        (simp_all add: on_incoming_attach_def Let_def relay Some)
  qed
qed

lemma session_inv_drop_input:
  "session_inv s \<Longrightarrow> session_inv (s\<lparr>s_link_by_input_handle := (s_link_by_input_handle s)(h := None)\<rparr>)"
  by (auto simp: session_inv_def links_agree_def relays_ok_def)

lemma incoming_detach_inv: "session_inv s \<Longrightarrow> session_inv (fst (on_incoming_detach s d))"
  by (auto simp: on_incoming_detach_def Let_def session_inv_drop_input split: option.splits prod.splits)

lemma deallocate_inv:
  assumes "session_inv s"
  shows "session_inv (fst (deallocate_link s h))"
proof -
  have "relays_ok (fst (deallocate_link s h))"
    using assms by (auto simp: session_inv_def relays_ok_def deallocate_link_def split: option.split)
  with assms show ?thesis by (simp add: session_inv_def links_agree_deallocate)
qed

lemma outgoing_detach_inv:
  assumes "session_inv s"
  shows "session_inv (fst (on_outgoing_detach s d e))"
proof -
  obtain s1 b where dl: "deallocate_link s (de_handle d) = (s1, b)" by (cases "deallocate_link s (de_handle d)")
  with deallocate_inv [OF assms, of "de_handle d"] show ?thesis
    by (simp add: on_outgoing_detach_def Let_def)
qed

lemma allocate_inv:
  assumes inv: "session_inv s" and vacant: "s_link_name_by_output_handle s k = None"
    and relay: "\<And>r. relay = Some r \<Longrightarrow> relay_inv r"
  shows "session_inv (fst (allocate_link k s n relay))"
proof -
  have "relay_inv (with_output_handle r h)" if "relay_inv r" for r h
    using that by (cases r) (simp_all add: pending_def)
  then have "relays_ok (fst (allocate_link k s n relay))"
    using inv relay by (auto simp: session_inv_def relays_ok_def allocate_link_def Let_def)
  with inv vacant show ?thesis by (simp add: session_inv_def links_agree_allocate)
qed

lemma allocate_incoming_inv:
  assumes inv: "session_inv s" and vacant: "s_link_name_by_output_handle s k = None"
    and relay: "relay_inv r"
  shows "session_inv (fst (allocate_incoming_link k s n r ih))"
proof -
  obtain s1 res where al: "allocate_link k s n None = (s1, res)" by (cases "allocate_link k s n None")
  from allocate_inv [OF inv vacant, of None n] al have s1: "session_inv s1" by simp
  have r': "relay_inv (with_output_handle r h)" for h
    using relay by (cases r) (simp_all add: pending_def)
  show ?thesis
  proof (cases res)
    case (Inl e)
    with al s1 show ?thesis by (simp add: allocate_incoming_link_def)
  next
    case (Inr h)
    from s1 r' [of h] show ?thesis
      by (rule session_inv_inputI [where h = ih]) (simp_all add: allocate_incoming_link_def al Inr)
  qed
qed

text \<open>
  One step of a session: any of its operations, with any arguments the environment supplies. A
  relay that is handed in satisfies its own invariant, and the slab's entry is vacant.
\<close>

inductive session_step :: "session \<Rightarrow> session \<Rightarrow> bool" where
  allocate: "s_link_name_by_output_handle s k = None \<Longrightarrow> (\<And>r. relay = Some r \<Longrightarrow> relay_inv r) \<Longrightarrow>
     session_step s (fst (allocate_link k s n relay))"
| allocate_incoming: "s_link_name_by_output_handle s k = None \<Longrightarrow> relay_inv r \<Longrightarrow>
     session_step s (fst (allocate_incoming_link k s n r ih))"
| deallocate: "session_step s (fst (deallocate_link s h))"
| in_begin: "session_step s (fst (on_incoming_begin s c b))"
| in_attach: "session_step s (fst (on_incoming_attach s a))"
| in_flow: "session_step s (fst (on_incoming_flow s fl))"
| in_transfer: "session_step s (fst (on_incoming_transfer s t p))"
| in_disposition: "session_step s (fst (on_incoming_disposition s d))"
| in_detach: "session_step s (fst (on_incoming_detach s dt))"
| in_end: "session_step s (fst (on_incoming_end s e))"
| out_begin: "session_step s (fst (send_begin s w))"
| out_transfer: "session_step s (fst (on_outgoing_transfer s h t p f))"
| out_disposition: "session_step s (fst (on_outgoing_disposition s d))"
| out_detach: "session_step s (fst (on_outgoing_detach s dt ee))"
| out_flow: "session_step s (fst (maybe_outgoing_session_flow s))"
| out_end: "session_step s (fst (send_end s w er))"
| stop: "session_step s (set_session_stop_reason s reason)"

inductive session_reachable :: "session \<Rightarrow> session \<Rightarrow> bool" for s0 where
  start: "session_reachable s0 s0"
| step: "session_reachable s0 s \<Longrightarrow> session_step s t \<Longrightarrow> session_reachable s0 t"

lemmas session_op_defs = on_incoming_begin_def on_incoming_end_def send_begin_def send_end_def
  on_outgoing_disposition_def maybe_outgoing_session_flow_def set_session_stop_reason_def Let_def

lemma session_step_inv: "session_step s t \<Longrightarrow> session_inv s \<Longrightarrow> session_inv t"
proof (induction rule: session_step.induct)
  case (out_transfer s h t p f)
  then show ?case using session_inv_view [OF link_view_outgoing_transfer] by blast
qed (simp_all add: allocate_inv allocate_incoming_inv deallocate_inv incoming_attach_inv
      incoming_flow_inv incoming_transfer_inv incoming_disposition_inv incoming_detach_inv
      outgoing_detach_inv session_op_defs split: option.split session_state.split)

section \<open>Dispositions\<close>

lemma unat_plus_one: "a < b \<Longrightarrow> unat (a + 1) = Suc (unat (a :: u32))"
  using unat_lt_exp [of b] by (simp add: unat_word_ariths word_less_nat_alt)

lemma range_incl_Cons:
  assumes "a \<le> b"
  shows "range_incl a b = a # (if a = b then [] else range_incl (a + 1) b)"
proof (cases "a = b")
  case False
  with assms have "a < b" by simp
  then have "unat a < unat b" "unat (a + 1) = Suc (unat a)" by (simp_all add: unat_plus_one word_less_nat_alt)
  then show ?thesis using False by (simp add: range_incl_def upt_conv_Cons del: upt_Suc)
qed (simp add: range_incl_def)

text \<open>A run of consecutive ascending ids is the range between its ends.\<close>

lemma range_incl_run:
  "xs \<noteq> [] \<Longrightarrow> sorted_wrt (<) xs \<Longrightarrow> (\<forall>j. Suc j < length xs \<longrightarrow> is_consecutive (xs ! j) (xs ! Suc j))
     \<Longrightarrow> range_incl (hd xs) (last xs) = xs"
proof (induction xs)
  case (Cons a xs)
  show ?case
  proof (cases xs)
    case Nil
    then show ?thesis by (simp add: range_incl_Cons)
  next
    case (Cons b ys)
    have "is_consecutive a b" using Cons.prems(3) Cons by (auto dest: spec [of _ 0])
    then have b: "b = a + 1" by (simp add: is_consecutive_def algebra_simps)
    have "\<forall>j. Suc j < length xs \<longrightarrow> is_consecutive (xs ! j) (xs ! Suc j)"
      using Cons.prems(3) by (metis Suc_less_eq length_Cons nth_Cons_Suc)
    with Cons.IH Cons.prems(2) Cons have IH: "range_incl b (last xs) = xs" by simp
    have "a < last xs" using Cons.prems(2) Cons by (simp add: last_in_set)
    then have "range_incl a (last xs) = a # range_incl b (last xs)"
      using b by (subst range_incl_Cons) auto
    with IH Cons show ?thesis by simp
  qed
qed simp

definition covered :: "disposition list \<Rightarrow> u32 list" where
  "covered ds = concat (map (\<lambda>d. range_incl (di_first d) (case di_last d of Some l \<Rightarrow> l | None \<Rightarrow> di_first d)) ds)"

lemma echo_covered:
  "sorted_wrt (<) ids \<Longrightarrow> sorted_wrt (<) (prev # inds) \<Longrightarrow> (\<forall>i \<in> set inds. i < length ids) \<Longrightarrow>
   (\<forall>j \<ge> prev. Suc j < length ids \<longrightarrow> Suc j \<notin> set inds \<longrightarrow> is_consecutive (ids ! j) (ids ! Suc j)) \<Longrightarrow>
   covered (echo_dispositions st ids prev inds)
     = take (last (prev # inds) - prev) (drop prev ids)"
proof (induction inds arbitrary: prev)
  case Nil
  then show ?case by (simp add: covered_def)
next
  case (Cons ind inds)
  let ?slice = "take (ind - prev) (drop prev ids)"
  have ind: "prev < ind" "ind < length ids" using Cons.prems by auto
  have ne: "?slice \<noteq> []" using ind by simp
  have srt: "sorted_wrt (<) ?slice" using Cons.prems(1) by (intro sorted_wrt_take sorted_wrt_drop)
  have gap: "Suc j \<notin> set (ind # inds)" if "Suc j < ind" for j
    using that Cons.prems(2) by auto
  have "is_consecutive (?slice ! j) (?slice ! Suc j)" if "Suc j < length ?slice" for j
  proof -
    from that ind have j: "Suc (prev + j) < ind" by simp
    with gap [of "prev + j"] Cons.prems(4) ind have "is_consecutive (ids ! (prev + j)) (ids ! Suc (prev + j))"
      by (metis le_add1 less_trans)
    with j ind show ?thesis by (simp add: less_imp_le)
  qed
  then have run: "range_incl (hd ?slice) (last ?slice) = ?slice" using ne srt by (intro range_incl_run) auto
  have IH: "covered (echo_dispositions st ids ind inds) = take (last (ind # inds) - ind) (drop ind ids)"
    using Cons.prems ind by (intro Cons.IH) auto
  have le: "ind \<le> last (ind # inds)" using Cons.prems(2) by (cases inds) (auto simp: last_in_set less_imp_le)
  have "?slice @ take (last (ind # inds) - ind) (drop ind ids) = take (last (ind # inds) - prev) (drop prev ids)"
    using take_add [of "ind - prev" "last (ind # inds) - ind" "drop prev ids"] ind(1) le by simp
  with IH run ne show ?case by (simp add: covered_def Let_def)
qed
lemma chunk_indices_props:
  "sorted_wrt (<) (0 # consecutive_chunk_indices ids)"
  "\<forall>i \<in> set (consecutive_chunk_indices ids). i < length ids"
  "\<forall>j. Suc j < length ids \<longrightarrow> Suc j \<notin> set (consecutive_chunk_indices ids) \<longrightarrow>
     is_consecutive (ids ! j) (ids ! Suc j)"
proof -
  have "sorted_wrt (<) (filter P [0 ..< n])" for P :: "nat \<Rightarrow> bool" and n
    by (intro sorted_wrt_filter) (rule sorted_wrt_upt)
  then show "sorted_wrt (<) (0 # consecutive_chunk_indices ids)"
    by (auto simp: consecutive_chunk_indices_def sorted_wrt_map)
qed (auto simp: consecutive_chunk_indices_def)

lemma settle_all_tags:
  "s_delivery_tag_by_id (foldl (settle_one d) s xs) =
     (\<lambda>k. if fst k = di_role d \<and> snd k \<in> set xs then None else s_delivery_tag_by_id s k)"
proof (induction xs arbitrary: s)
  case Nil
  then show ?case by simp
next
  case (Cons i xs)
  have "s_delivery_tag_by_id (settle_one d s i) = (s_delivery_tag_by_id s)((di_role d, i) := None)"
    by (auto simp: settle_one_def Let_def split: option.splits)
  with Cons show ?case by (auto simp: fun_eq_iff)
qed

lemma settle_one_sender:
  assumes "s_link_by_input_handle s h = Some (SenderRelay r)" and "di_settled d"
  shows "\<exists>r'. s_link_by_input_handle (settle_one d s i) h = Some (SenderRelay r')
     \<and> pending r' = pending r - {tag. s_delivery_tag_by_id s (di_role d, i) = Some (h, tag)}"
proof (cases "s_delivery_tag_by_id s (di_role d, i)")
  case None
  with assms show ?thesis by (simp add: settle_one_def)
next
  case (Some ht)
  obtain h' tag where ht: "ht = (h', tag)" by (cases ht)
  show ?thesis
  proof (cases "h' = h")
    case True
    have "{t. t = tag} = {tag}" by simp
    with True Some ht assms show ?thesis
      by (auto simp: settle_one_def Let_def sr_settle_pending)
  next
    case False
    with Some ht assms show ?thesis
      by (auto simp: settle_one_def Let_def split: option.split)
  qed
qed

lemma settle_all_sender:
  "s_link_by_input_handle s h = Some (SenderRelay r) \<Longrightarrow> di_settled d \<Longrightarrow>
   \<exists>r'. s_link_by_input_handle (foldl (settle_one d) s xs) h = Some (SenderRelay r')
     \<and> pending r' = pending r - {tag. \<exists>i \<in> set xs. s_delivery_tag_by_id s (di_role d, i) = Some (h, tag)}"
proof (induction xs rule: rev_induct)
  case Nil
  then show ?case by simp
next
  case (snoc i xs)
  let ?s = "foldl (settle_one d) s xs"
  from snoc obtain r1 where r1: "s_link_by_input_handle ?s h = Some (SenderRelay r1)"
    "pending r1 = pending r - {tag. \<exists>i \<in> set xs. s_delivery_tag_by_id s (di_role d, i) = Some (h, tag)}" by blast
  from settle_one_sender [OF r1(1) snoc.prems(2), of i] obtain r2 where
    "s_link_by_input_handle (settle_one d ?s i) h = Some (SenderRelay r2)"
    "pending r2 = pending r1 - {tag. s_delivery_tag_by_id ?s (di_role d, i) = Some (h, tag)}" by blast
  with r1(2) show ?case by (auto simp: settle_all_tags split: if_splits)
qed

text \<open>The ids to echo are collected in the order of the range.\<close>

lemma update_one_ids: "snd (update_one d sd i) = snd sd \<or> snd (update_one d sd i) = snd sd @ [i]"
  by (cases sd) (auto simp: update_one_def split: option.splits prod.splits)

lemma update_all_ids:
  "sorted_wrt (<) xs \<Longrightarrow> sorted_wrt (<) (snd (foldl (update_one d) (s, []) xs))
     \<and> set (snd (foldl (update_one d) (s, []) xs)) \<subseteq> set xs"
proof (induction xs rule: rev_induct)
  case Nil
  then show ?case by simp
next
  case (snoc i xs)
  then have IH: "sorted_wrt (<) (snd (foldl (update_one d) (s, []) xs))"
    "set (snd (foldl (update_one d) (s, []) xs)) \<subseteq> set xs"
    by (auto simp: sorted_wrt_append)
  moreover have "\<forall>x \<in> set (snd (foldl (update_one d) (s, []) xs)). x < i"
    using snoc.prems IH(2) by (auto simp: sorted_wrt_append)
  ultimately show ?case
    using update_one_ids [of d "foldl (update_one d) (s, []) xs" i] by (auto simp: sorted_wrt_append)
qed

definition echo_ids :: "session \<Rightarrow> disposition \<Rightarrow> u32 list" where
  "echo_ids s d = snd (foldl (update_one d) (s, [])
     (range_incl (di_first d) (case di_last d of Some l \<Rightarrow> l | None \<Rightarrow> di_first d)))"

section \<open>Properties\<close>

text \<open>
  C10: in every state a session reaches by any sequence of its operations, the table of names by
  output handle and the table of links by name agree (every handle's name is registered, every
  registered name has a handle, no name has two), and every link of the session keeps its
  invariant: no delivery is at the same time pending and resolved.
\<close>

theorem session_reachable_consistent:
  assumes "session_inv s0" and "session_reachable s0 s"
  shows "links_agree s \<and> relays_ok s"
  using assms(2,1)
proof (induction rule: session_reachable.induct)
  case start
  then show ?case by (simp add: session_inv_def)
next
  case (step s t)
  then have "session_inv s" by (simp add: session_inv_def)
  with step.hyps(2) have "session_inv t" by (rule session_step_inv)
  then show ?case by (simp add: session_inv_def)
qed

definition example_relay :: "unit link_relay" where
  "example_relay = new_sender \<lparr>rx_alive = True, sent = []\<rparr> example_state (Some Map.empty)"

theorem session_reachable_consistent_witness:
  "(let s = fst (allocate_link 3 example_session ''link-a'' (Some example_relay))
    in s_link_name_by_output_handle s 3 = Some ''link-a'' \<and> links_agree s \<and> relays_ok s)"
proof -
  have inv: "session_inv example_session"
    by (simp add: session_inv_def links_agree_def relays_ok_def example_session_def)
  have "session_step example_session (fst (allocate_link 3 example_session ''link-a'' (Some example_relay)))"
    by (rule session_step.allocate)
      (auto simp: example_session_def example_relay_def new_sender_def pending_def)
  then have "session_reachable example_session
      (fst (allocate_link 3 example_session ''link-a'' (Some example_relay)))"
    by (rule session_reachable.step [OF session_reachable.start])
  from session_reachable_consistent [OF inv this] show ?thesis
    by (simp add: Let_def) (simp add: allocate_link_def example_session_def Let_def)
qed

text \<open>
  a link name that is free in a mapped session gets the handle of the vacant slab entry, which
  no other link of the session has, and releasing that handle frees exactly this name and handle:
  both tables are as before the allocation.
\<close>

lemma allocate_deallocate_roundtrip:
  assumes "s_local_state s = Mapped" and "s_link_by_name s n = None"
    and "s_link_name_by_output_handle s k = None" and "k < 2 ^ 32"
  shows "\<exists>t h u. allocate_link k s n relay = (t, Inr h) \<and> unat h = k \<and>
    s_link_name_by_output_handle t = (s_link_name_by_output_handle s)(k \<mapsto> n) \<and>
    deallocate_link t h = (u, True) \<and>
    s_link_name_by_output_handle u = s_link_name_by_output_handle s \<and>
    s_link_by_name u = s_link_by_name s"
  using assms
  by (simp add: allocate_link_def deallocate_link_def Let_def unat_word_of_nat_u32 fun_eq_iff)

lemma allocate_deallocate_roundtrip_witness:
  "\<exists>t h u. allocate_link 3 example_session ''link-a'' (Some example_relay) = (t, Inr h) \<and> unat h = 3 \<and>
     deallocate_link t h = (u, True) \<and> s_link_by_name u = Map.empty"
proof -
  have "s_local_state example_session = Mapped" "s_link_by_name example_session ''link-a'' = None"
    "s_link_name_by_output_handle example_session 3 = None" "(3 :: nat) < 2 ^ 32"
    "s_link_by_name example_session = Map.empty"
    by (simp_all add: example_session_def)
  with allocate_deallocate_roundtrip [of example_session "''link-a''" 3 "Some example_relay"]
  show ?thesis by metis
qed

text \<open>
  C12: when both sides close a link at the same time, exactly one detach frame leaves the session in
  either order of events. If the peer's detach is processed first, the session sends the relay's
  reply and suppresses the link's own detach; if the link's own detach goes first, the peer's
  detach is taken as its answer and no reply is sent. Either way the link is gone from all tables
  and nothing waits for an answer.
\<close>

theorem simultaneous_close_sends_one_detach:
  assumes "s_link_by_input_handle s (de_handle d) = Some relay"
    and "s_link_name_by_output_handle s (unat (output_handle relay)) = Some name"
    and "output_handle relay \<notin> s_close_pending s"
    and "de_handle own = output_handle relay"
  shows "(\<exists>s1 l1 reply s2 s3. on_incoming_detach s d = (s1, Some l1, Some reply)
        \<and> on_outgoing_detach s1 reply False
            = (s2, Some (session_frame_new (s_outgoing_channel s) (SfDetach reply)))
        \<and> on_outgoing_detach s2 own True = (s3, None)
        \<and> s_link_by_input_handle s3 (de_handle d) = None \<and> s_link_by_name s3 name = None
        \<and> output_handle relay \<notin> s_close_pending s3)
    \<and> (\<exists>s1 l2 s2. on_outgoing_detach s own True
            = (s1, Some (session_frame_new (s_outgoing_channel s) (SfDetach own)))
        \<and> on_incoming_detach s1 d = (s2, Some l2, None)
        \<and> s_link_by_input_handle s2 (de_handle d) = None \<and> s_link_by_name s2 name = None
        \<and> output_handle relay \<notin> s_close_pending s2)"
proof -
  let ?h = "output_handle relay"
  obtain l1 where reply: "relay_on_incoming_detach relay d True
      = (l1, Some \<lparr>de_handle = ?h, de_closed = de_closed d, de_error = de_error d\<rparr>)"
    by (cases relay) (simp_all add: Let_def)
  obtain l2 where noreply: "relay_on_incoming_detach relay d False = (l2, None)"
    by (cases relay) (simp_all add: Let_def)
  show ?thesis
    using assms reply noreply
    by (simp add: on_incoming_detach_def on_outgoing_detach_def deallocate_link_def Let_def)
qed

theorem simultaneous_close_sends_one_detach_witness:
  "(let relay = with_output_handle example_relay 4;
        s = example_session\<lparr>s_link_by_input_handle := [9 \<mapsto> relay],
              s_link_name_by_output_handle := [4 \<mapsto> ''link-a''], s_link_by_name := [''link-a'' \<mapsto> None]\<rparr>;
        d = \<lparr>de_handle = 9, de_closed = True, de_error = None\<rparr>;
        own = \<lparr>de_handle = 4, de_closed = True, de_error = None\<rparr>
    in (\<exists>s1 l1 reply s2 s3. on_incoming_detach s d = (s1, Some l1, Some reply)
          \<and> on_outgoing_detach s1 reply False = (s2, Some (session_frame_new 1 (SfDetach reply)))
          \<and> on_outgoing_detach s2 own True = (s3, None)))"
proof -
  let ?relay = "with_output_handle example_relay 4"
  let ?s = "example_session\<lparr>s_link_by_input_handle := [9 \<mapsto> ?relay],
    s_link_name_by_output_handle := [4 \<mapsto> ''link-a''], s_link_by_name := [''link-a'' \<mapsto> None]\<rparr>"
  let ?d = "\<lparr>de_handle = 9, de_closed = True, de_error = None\<rparr>"
  let ?own = "\<lparr>de_handle = 4, de_closed = True, de_error = None\<rparr>"
  have pre: "s_link_by_input_handle ?s (de_handle ?d) = Some ?relay"
    "s_link_name_by_output_handle ?s (unat (output_handle ?relay)) = Some ''link-a''"
    "output_handle ?relay \<notin> s_close_pending ?s" "de_handle ?own = output_handle ?relay"
    and ch: "s_outgoing_channel ?s = 1"
    by (simp_all add: example_relay_def new_sender_def) (simp_all add: example_session_def)
  from conjunct1 [OF simultaneous_close_sends_one_detach [OF pre]] show ?thesis
    unfolding Let_def ch by blast
qed

text \<open>
  C11: a settled disposition makes the session forget exactly the deliveries of that role in the range
  it names, and each sender link exactly the named ones of its pending deliveries: all others stay
  pending.
\<close>

theorem settled_disposition_settles_exactly_the_range:
  assumes "di_settled d" and "s_link_by_input_handle s h = Some (SenderRelay r)"
  shows "\<exists>t r'. on_incoming_disposition s d = (t, None) \<and>
    (let named = {i. di_first d \<le> i \<and> i \<le> (case di_last d of Some l \<Rightarrow> l | None \<Rightarrow> di_first d)}
     in s_delivery_tag_by_id t = (\<lambda>(role, i). if role = di_role d \<and> i \<in> named then None
           else s_delivery_tag_by_id s (role, i))
      \<and> s_link_by_input_handle t h = Some (SenderRelay r')
      \<and> pending r' = pending r - {tag. \<exists>i \<in> named. s_delivery_tag_by_id s (di_role d, i) = Some (h, tag)})"
proof -
  let ?xs = "range_incl (di_first d) (case di_last d of Some l \<Rightarrow> l | None \<Rightarrow> di_first d)"
  from settle_all_sender [OF assms(2,1), of ?xs] settle_all_tags [of d s ?xs] assms(1) show ?thesis
    by (auto simp: on_incoming_disposition_def Let_def set_range_incl split_def fun_eq_iff)
qed

definition example_disposed :: session where
  "example_disposed = example_session\<lparr>
     s_link_by_input_handle := [9 \<mapsto> SenderRelay example_sender_relay],
     s_delivery_tag_by_id := [(Receiver, 5) \<mapsto> (9, [1]), (Receiver, 8) \<mapsto> (9, [2])]\<rparr>"

definition example_settled :: disposition where
  "example_settled = \<lparr>di_role = Receiver, di_first = 4, di_last = Some 6, di_settled = True,
     di_state = Some Accepted, di_batchable = False\<rparr>"

theorem settled_disposition_settles_exactly_the_range_witness:
  "\<exists>t r'. on_incoming_disposition example_disposed example_settled = (t, None)
     \<and> s_delivery_tag_by_id t (Receiver, 5) = None \<and> s_delivery_tag_by_id t (Receiver, 8) = Some (9, [2])
     \<and> s_link_by_input_handle t 9 = Some (SenderRelay r') \<and> pending r' = {}"
proof -
  let ?named = "{i. (4 :: u32) \<le> i \<and> i \<le> 6}"
  have d: "di_settled example_settled" "di_role example_settled = Receiver"
    "di_first example_settled = 4" "di_last example_settled = Some 6"
    by (simp_all add: example_settled_def)
  have relay: "s_link_by_input_handle example_disposed 9 = Some (SenderRelay example_sender_relay)"
    by (simp add: example_disposed_def)
  have pend: "pending example_sender_relay = {[1]}" by (simp add: pending_def example_sender_relay_def)
  have tag: "s_delivery_tag_by_id example_disposed (Receiver, 5) = Some (9, [1])"
    "s_delivery_tag_by_id example_disposed (Receiver, 8) = Some (9, [2])"
    by (simp_all add: example_disposed_def)
  from settled_disposition_settles_exactly_the_range [OF d(1) relay]
  obtain t r' where t: "on_incoming_disposition example_disposed example_settled = (t, None)"
    "s_delivery_tag_by_id t = (\<lambda>(role, i). if role = Receiver \<and> i \<in> ?named then None
        else s_delivery_tag_by_id example_disposed (role, i))"
    "s_link_by_input_handle t 9 = Some (SenderRelay r')"
    and r': "pending r' = {[1]} - {tag. \<exists>i \<in> ?named.
        s_delivery_tag_by_id example_disposed (Receiver, i) = Some (9, tag)}"
    unfolding Let_def d(2-4) option.case pend by (elim exE conjE) (rule that; assumption)
  have "[1] \<in> {tag. \<exists>i \<in> ?named. s_delivery_tag_by_id example_disposed (Receiver, i) = Some (9, tag)}"
    by (rule CollectI, rule bexI [of _ 5]) (simp_all add: tag)
  then have "pending r' = {}" unfolding r' by (simp only: insert_Diff_if if_True empty_Diff)
  moreover have "s_delivery_tag_by_id t (Receiver, 5) = None"
    "s_delivery_tag_by_id t (Receiver, 8) = Some (9, [2])" unfolding t(2) using tag by simp_all
  ultimately show ?thesis using t by blast
qed

text \<open>
  C16: the settled dispositions with which a sender answers an unsettled one from a receiver in mode
  second name, in order, exactly the deliveries to be answered up to the last gap in their ids; the
  deliveries after the last gap are not answered.
\<close>

theorem echo_covers_all_but_last_run:
  "\<not> di_settled d \<Longrightarrow> \<exists>t ds. on_incoming_disposition s d = (t, Some ds) \<and>
     covered ds = take (last (0 # consecutive_chunk_indices (echo_ids s d))) (echo_ids s d) \<and>
     (\<forall>e \<in> set ds. di_role e = Sender \<and> di_settled e \<and> di_state e = di_state d)"
proof -
  assume unsettled: "\<not> di_settled d"
  let ?xs = "range_incl (di_first d) (case di_last d of Some l \<Rightarrow> l | None \<Rightarrow> di_first d)"
  obtain t ids where fold: "foldl (update_one d) (s, []) ?xs = (t, ids)"
    by (cases "foldl (update_one d) (s, []) ?xs")
  then have ids: "echo_ids s d = ids" by (simp add: echo_ids_def)
  have srt: "sorted_wrt (<) ids"
    using update_all_ids [OF sorted_range_incl, of d s "di_first d"] fold by (metis snd_conv)
  have cov: "covered (echo_dispositions (di_state d) ids 0 (consecutive_chunk_indices ids))
      = take (last (0 # consecutive_chunk_indices ids)) ids"
    using echo_covered [OF srt chunk_indices_props(1) chunk_indices_props(2)] chunk_indices_props(3) [of ids]
    by simp
  have "\<forall>e \<in> set (echo_dispositions st ids p inds). di_role e = Sender \<and> di_settled e \<and> di_state e = st" for st p inds
    by (induction inds arbitrary: p) (auto simp: Let_def)
  with unsettled fold cov ids show ?thesis
    by (auto simp: on_incoming_disposition_def Let_def)
qed

theorem echo_covers_all_but_last_run_witness:
  "(let d = \<lparr>di_role = Receiver, di_first = 5, di_last = Some 8, di_settled = False,
              di_state = Some Accepted, di_batchable = False\<rparr>
    in echo_ids example_disposed d = [5, 8] \<and>
       (\<exists>t ds. on_incoming_disposition example_disposed d = (t, Some ds) \<and> covered ds = [5]))"
proof -
  let ?d = "\<lparr>di_role = Receiver, di_first = 5, di_last = Some 8, di_settled = False,
              di_state = Some Accepted, di_batchable = False\<rparr>"
  have rng: "range_incl 5 8 = [5, 6, 7, 8]" by (simp add: range_incl_def upt_rec)
  have ids: "echo_ids example_disposed ?d = [5, 8]"
    by (simp add: echo_ids_def rng update_one_def example_disposed_def example_sender_relay_def
        example_session_def)
  have "consecutive_chunk_indices [5, 8 :: u32] = [1]"
    by (simp add: consecutive_chunk_indices_def is_consecutive_def)
  with echo_covers_all_but_last_run [of ?d example_disposed] ids show ?thesis by (auto simp: Let_def)
qed

end
