(* ===== verification/Connection.thy ===== *)
theory Connection
  imports Session_Links
begin

text \<open>
  The connection endpoint: fe2o3-amqp/src/connection/mod.rs, with the frames of frames/amqp.rs.
  The two channel tables hold \<open>Arc\<close>s of the same senders, so a sender is a reference and
  \<open>c_relays\<close> holds the channel behind each reference. The slab that numbers the outgoing
  channels is not part of the repository: \<open>allocate_session\<close> takes the key of its vacant
  entry as an argument. The transport is a \<open>chan\<close> of frames: \<open>rx_alive\<close> says whether
  writing to it succeeds.
\<close>

section \<open>Frames\<close>

datatype frame_body =
    FOpen open_perf
  | FBegin begin_perf
  | FAttach attach
  | FFlow flow
  | FTransfer transfer payload
  | FDisposition disposition
  | FDetach detach
  | FEnd end_perf
  | FClose close_perf
  | FEmpty

record frame =
  f_channel :: u16
  f_body :: frame_body

definition frame_new :: "u16 \<Rightarrow> frame_body \<Rightarrow> frame" where
  "frame_new channel body = \<lparr>f_channel = channel, f_body = body\<rparr>"

definition frame_empty :: frame where
  "frame_empty = \<lparr>f_channel = 0, f_body = FEmpty\<rparr>"

section \<open>State and errors\<close>

datatype transport_error = TeIo | TeIdleTimeoutElapsed | TeDecodeError string
  | TeNotImplemented "string option" | TeFramingError

datatype connection_state_error = CseIllegalState | CseRemoteClosed
  | CseRemoteClosedWithError amqp_error | CseTransportError transport_error

datatype connection_inner_error = CieTransportError transport_error | CieIllegalState
  | CieNotImplemented "string option" | CieNotFound "string option" | CieRemoteClosed
  | CieRemoteClosedWithError amqp_error

fun inner_of_state_error :: "connection_state_error \<Rightarrow> connection_inner_error" where
  "inner_of_state_error CseIllegalState = CieIllegalState"
| "inner_of_state_error CseRemoteClosed = CieRemoteClosed"
| "inner_of_state_error (CseRemoteClosedWithError e) = CieRemoteClosedWithError e"
| "inner_of_state_error (CseTransportError e) = CieTransportError e"

datatype alloc_session_error = ConnectionNotOpened
  | AsConnectionStopped connection_stop_reason | ChannelMaxReached

type_synonym sender_ref = nat

record connection =
  c_local_state :: connection_state
  c_local_open :: open_perf
  c_session_by_incoming_channel :: "u16 \<rightharpoonup> sender_ref"
  c_session_by_outgoing_channel :: "nat \<rightharpoonup> sender_ref"
  c_remote_open :: "open_perf option"
  c_agreed_channel_max :: u16
  c_connection_stop_reason :: "connection_stop_reason option"
  c_relays :: "sender_ref \<Rightarrow> session_frame chan"

definition connection_new ::
    "(sender_ref \<Rightarrow> session_frame chan) \<Rightarrow> connection_state \<Rightarrow> open_perf \<Rightarrow> connection" where
  "connection_new chans st local_open =
     \<lparr>c_local_state = st, c_local_open = local_open, c_session_by_incoming_channel = Map.empty,
      c_session_by_outgoing_channel = Map.empty, c_remote_open = None,
      c_agreed_channel_max = op_channel_max local_open, c_connection_stop_reason = None,
      c_relays = chans\<rparr>"

definition set_connection_stop_reason :: "connection \<Rightarrow> connection_stop_reason \<Rightarrow> connection" where
  "set_connection_stop_reason c reason =
     (case c_connection_stop_reason c of
        None \<Rightarrow> c\<lparr>c_connection_stop_reason := Some reason\<rparr>
      | Some _ \<Rightarrow> c)"

text \<open>Sending to a session: a failed \<open>send\<close> is the error \<open>NotFound\<close>
  (\<open>From<SendError>\<close> in connection/error.rs).\<close>

definition send_to_relay ::
    "connection \<Rightarrow> sender_ref \<Rightarrow> session_frame \<Rightarrow> connection \<times> (connection_inner_error + unit)" where
  "send_to_relay c tx fr =
     (case chan_send (c_relays c tx) fr of
        None \<Rightarrow> (c, Inl (CieNotFound (Some ''Session is not found'')))
      | Some ch \<Rightarrow> (c\<lparr>c_relays := (c_relays c)(tx := ch)\<rparr>, Inr ()))"

section \<open>Sessions\<close>

definition allocate_session ::
    "nat \<Rightarrow> connection \<Rightarrow> sender_ref \<Rightarrow> connection \<times> (alloc_session_error + u16)" where
  "allocate_session key c tx =
     (if c_local_state c \<in> {CStart, CHeaderSent, CHeaderReceived, CHeaderExchange} then
        (c, Inl ConnectionNotOpened)
      else if c_local_state c \<in> {CCloseSent, CDiscarding, CEnd} then
        (c, Inl (AsConnectionStopped (connection_stop_reason_or_closed (c_connection_stop_reason c))))
      else if unat (c_agreed_channel_max c) < key then (c, Inl ChannelMaxReached)
      else (c\<lparr>c_session_by_outgoing_channel := (c_session_by_outgoing_channel c)(key \<mapsto> tx)\<rparr>,
            Inr (word_of_nat key)))"

text \<open>\<open>Slab::remove\<close> panics on a vacant key: the result is then \<open>None\<close>.\<close>

definition deallocate_session :: "connection \<Rightarrow> u16 \<Rightarrow> connection option" where
  "deallocate_session c channel =
     (case c_session_by_outgoing_channel c (unat channel) of
        None \<Rightarrow> None
      | Some _ \<Rightarrow> Some (c\<lparr>c_session_by_outgoing_channel :=
                              (c_session_by_outgoing_channel c)(unat channel := None)\<rparr>))"

section \<open>Incoming performatives\<close>

definition on_incoming_open :: "connection \<Rightarrow> open_perf \<Rightarrow> connection \<times> (connection_state_error + unit)" where
  "on_incoming_open c opn =
     (let accept = (\<lambda>st. (c\<lparr>c_local_state := st,
            c_agreed_channel_max := min (op_channel_max (c_local_open c)) (op_channel_max opn),
            c_remote_open := Some opn\<rparr>, Inr ()))
      in case c_local_state c of
           CHeaderExchange \<Rightarrow> accept COpenReceived
         | COpenSent \<Rightarrow> accept COpened
         | CClosePipe \<Rightarrow> accept CCloseSent
         | _ \<Rightarrow> (c, Inl CseIllegalState))"

definition on_incoming_begin_inner ::
    "connection \<Rightarrow> u16 \<Rightarrow> begin_perf \<Rightarrow> connection \<times> (connection_inner_error + sender_ref option)" where
  "on_incoming_begin_inner c channel b =
     (if c_local_state c \<noteq> COpened then (c, Inl CieIllegalState)
      else case be_remote_channel b of
        Some outgoing_channel \<Rightarrow>
          (case c_session_by_outgoing_channel c (unat outgoing_channel) of
             None \<Rightarrow> (c, Inl (CieNotFound None))
           | Some relay \<Rightarrow>
               (c\<lparr>c_session_by_incoming_channel := (c_session_by_incoming_channel c)(channel \<mapsto> relay)\<rparr>,
                Inr (Some relay)))
      | None \<Rightarrow> (c, Inr None))"

definition conn_on_incoming_begin ::
    "connection \<Rightarrow> u16 \<Rightarrow> begin_perf \<Rightarrow> connection \<times> (connection_inner_error + unit)" where
  "conn_on_incoming_begin c channel b =
     (case on_incoming_begin_inner c channel b of
        (c1, Inl e) \<Rightarrow> (c1, Inl e)
      | (c1, Inr (Some relay)) \<Rightarrow> send_to_relay c1 relay (session_frame_new channel (SfBegin b))
      | (c1, Inr None) \<Rightarrow>
          (c1, Inl (CieNotImplemented (Some ''Remotely initiazted session is not supported yet''))))"

definition conn_on_incoming_end ::
    "connection \<Rightarrow> u16 \<Rightarrow> end_perf \<Rightarrow> connection \<times> (connection_inner_error + unit)" where
  "conn_on_incoming_end c channel e =
     (if c_local_state c \<noteq> COpened then (c, Inl CieIllegalState)
      else case c_session_by_incoming_channel c channel of
        None \<Rightarrow> (c, Inl (CieNotFound None))
      | Some relay \<Rightarrow>
          send_to_relay
            (c\<lparr>c_session_by_incoming_channel := (c_session_by_incoming_channel c)(channel := None)\<rparr>)
            relay (session_frame_new channel (SfEnd e)))"

definition on_incoming_close :: "connection \<Rightarrow> close_perf \<Rightarrow> connection \<times> (connection_state_error + unit)" where
  "on_incoming_close c cl =
     (if c_local_state c \<in> {COpened, COpenPipe, COpenClosePipe, COpenReceived, COpenSent} then
        (c\<lparr>c_local_state := CCloseReceived\<rparr>,
         Inl (case cl_error cl of Some e \<Rightarrow> CseRemoteClosedWithError e | None \<Rightarrow> CseRemoteClosed))
      else if c_local_state c \<in> {CCloseSent, CDiscarding} then
        (c\<lparr>c_local_state := CEnd\<rparr>,
         case cl_error cl of Some e \<Rightarrow> Inl (CseRemoteClosedWithError e) | None \<Rightarrow> Inr ())
      else (c, Inl CseIllegalState))"

section \<open>Outgoing performatives\<close>

text \<open>Both methods write the frame first and look at the state afterwards.\<close>

definition send_open ::
    "connection \<Rightarrow> frame chan \<Rightarrow> connection \<times> frame chan \<times> (connection_state_error + unit)" where
  "send_open c writer =
     (case chan_send writer (frame_new 0 (FOpen (c_local_open c))) of
        None \<Rightarrow> (c, writer, Inl (CseTransportError TeIo))
      | Some writer' \<Rightarrow>
          (case c_local_state c of
             CHeaderExchange \<Rightarrow> (c\<lparr>c_local_state := COpenSent\<rparr>, writer', Inr ())
           | COpenReceived \<Rightarrow> (c\<lparr>c_local_state := COpened\<rparr>, writer', Inr ())
           | CHeaderSent \<Rightarrow> (c\<lparr>c_local_state := COpenPipe\<rparr>, writer', Inr ())
           | _ \<Rightarrow> (c, writer', Inl CseIllegalState)))"

definition send_close ::
    "connection \<Rightarrow> frame chan \<Rightarrow> amqp_error option \<Rightarrow> connection \<times> frame chan \<times> (connection_state_error + unit)" where
  "send_close c writer err =
     (case chan_send writer (frame_new 0 (FClose \<lparr>cl_error = err\<rparr>)) of
        None \<Rightarrow> (c, writer, Inl (CseTransportError TeIo))
      | Some writer' \<Rightarrow>
          (case c_local_state c of
             COpened \<Rightarrow> (c\<lparr>c_local_state := if err \<noteq> None then CDiscarding else CCloseSent\<rparr>, writer', Inr ())
           | CCloseReceived \<Rightarrow> (c\<lparr>c_local_state := CEnd\<rparr>, writer', Inr ())
           | COpenSent \<Rightarrow> (c\<lparr>c_local_state := if err \<noteq> None then CDiscarding else CClosePipe\<rparr>, writer', Inr ())
           | COpenPipe \<Rightarrow> (c\<lparr>c_local_state := if err \<noteq> None then CDiscarding else COpenClosePipe\<rparr>, writer', Inr ())
           | _ \<Rightarrow> (c, writer', Inl CseIllegalState)))"

end
