(* ===== verification/Connection_Engine.thy ===== *)
theory Connection_Engine
  imports Connection
begin

text \<open>
  The connection engine: fe2o3-amqp/src/connection/engine.rs. \<open>e_incoming\<close> is what the transport
  will still yield, an empty list being the end of the stream; \<open>e_outgoing\<close> is what the sessions
  have queued. One iteration of the event loop is \<open>event_step\<close>: \<open>select!\<close> picks a ready branch
  in an order the code does not control, so the branch taken is an argument. A panic and a loop that
  does not return are values of the result.
\<close>

section \<open>State\<close>

record engine =
  e_transport :: "frame chan"
  e_incoming :: "(transport_error + frame) list"
  e_connection :: connection
  e_outgoing :: "session_frame list"
  e_outgoing_closed :: bool
  e_heartbeat :: "u32 option"
  e_encoder_max :: nat
  e_decoder_max :: nat

datatype running = Continue | Stop

datatype connection_control =
    CcClose "amqp_error option"
  | CcAllocateSession sender_ref bool
  | CcDeallocateSession u16

datatype open_error = OeIo | OeIllegalState | OeNotImplemented "string option"
  | OeTransportError transport_error | OeRemoteClosed | OeRemoteClosedWithError amqp_error

fun open_of_state_error :: "connection_state_error \<Rightarrow> open_error" where
  "open_of_state_error CseIllegalState = OeIllegalState"
| "open_of_state_error CseRemoteClosed = OeRemoteClosed"
| "open_of_state_error (CseRemoteClosedWithError e) = OeRemoteClosedWithError e"
| "open_of_state_error (CseTransportError e) = OeTransportError e"

definition MIN_MAX_FRAME_SIZE :: nat where
  "MIN_MAX_FRAME_SIZE = 512"

definition set_encoder_max_frame_size :: "nat \<Rightarrow> engine \<Rightarrow> engine" where
  "set_encoder_max_frame_size n e = e\<lparr>e_encoder_max := max MIN_MAX_FRAME_SIZE n - 4\<rparr>"

definition set_decoder_max_frame_size :: "nat \<Rightarrow> engine \<Rightarrow> engine" where
  "set_decoder_max_frame_size n e = e\<lparr>e_decoder_max := max MIN_MAX_FRAME_SIZE n\<rparr>"

section \<open>Sending\<close>

definition on_outgoing_begin :: "u16 \<Rightarrow> begin_perf \<Rightarrow> frame" where
  "on_outgoing_begin channel b = frame_new channel (FBegin b)"

definition on_outgoing_end :: "u16 \<Rightarrow> end_perf \<Rightarrow> frame" where
  "on_outgoing_end channel e = frame_new channel (FEnd e)"

fun frame_of_session :: "u16 \<Rightarrow> session_frame_body \<Rightarrow> frame" where
  "frame_of_session channel (SfBegin b) = on_outgoing_begin channel b"
| "frame_of_session channel (SfAttach a) = frame_new channel (FAttach a)"
| "frame_of_session channel (SfFlow f) = frame_new channel (FFlow f)"
| "frame_of_session channel (SfTransfer t p) = frame_new channel (FTransfer t p)"
| "frame_of_session channel (SfDisposition d) = frame_new channel (FDisposition d)"
| "frame_of_session channel (SfDetach d) = frame_new channel (FDetach d)"
| "frame_of_session channel (SfEnd e) = on_outgoing_end channel e"

definition on_outgoing_session_frames ::
    "engine \<Rightarrow> session_frame \<Rightarrow> engine \<times> (connection_inner_error + running)" where
  "on_outgoing_session_frames e fr =
     (if c_local_state (e_connection e) \<notin> {COpened, CCloseReceived} then (e, Inl CieIllegalState)
      else case chan_send (e_transport e) (frame_of_session (sf_channel fr) (sf_body fr)) of
        None \<Rightarrow> (e, Inl (CieTransportError TeIo))
      | Some t \<Rightarrow> (e\<lparr>e_transport := t\<rparr>, Inr Continue))"

text \<open>\<open>outgoing_session_frames.close()\<close> and the loop that empties it: the argument is the queue.\<close>

fun drain_outgoing :: "session_frame list \<Rightarrow> engine \<Rightarrow> engine \<times> (connection_inner_error + unit)" where
  "drain_outgoing [] e = (e\<lparr>e_outgoing := []\<rparr>, Inr ())"
| "drain_outgoing (fr # frs) e =
     (case on_outgoing_session_frames (e\<lparr>e_outgoing := frs\<rparr>) fr of
        (e1, Inl err) \<Rightarrow> (e1, Inl err)
      | (e1, Inr _) \<Rightarrow> drain_outgoing frs e1)"

definition close_and_drain :: "engine \<Rightarrow> engine \<times> (connection_inner_error + unit)" where
  "close_and_drain e = drain_outgoing (e_outgoing e) (e\<lparr>e_outgoing_closed := True\<rparr>)"

definition engine_send_close ::
    "engine \<Rightarrow> amqp_error option \<Rightarrow> engine \<times> (connection_inner_error + unit)" where
  "engine_send_close e err =
     (case send_close (e_connection e) (e_transport e) err of
        (c, t, Inl x) \<Rightarrow> (e\<lparr>e_connection := c, e_transport := t\<rparr>, Inl (inner_of_state_error x))
      | (c, t, Inr _) \<Rightarrow> (e\<lparr>e_connection := c, e_transport := t\<rparr>, Inr ()))"

definition on_heartbeat :: "engine \<Rightarrow> engine \<times> (connection_inner_error + running)" where
  "on_heartbeat e =
     (if c_local_state (e_connection e) \<in> {CStart, CCloseSent} then (e, Inr Continue)
      else if c_local_state (e_connection e) = CEnd then (e, Inr Stop)
      else case chan_send (e_transport e) frame_empty of
        None \<Rightarrow> (e, Inl (CieTransportError TeIo))
      | Some t \<Rightarrow> (e\<lparr>e_transport := t\<rparr>, Inr Continue))"

section \<open>Receiving\<close>

definition forward_to_session ::
    "engine \<Rightarrow> u16 \<Rightarrow> session_frame_body \<Rightarrow> engine \<times> (connection_inner_error + unit)" where
  "forward_to_session e channel body =
     (if c_local_state (e_connection e) \<noteq> COpened then (e, Inl CieIllegalState)
      else case c_session_by_incoming_channel (e_connection e) channel of
        None \<Rightarrow> (e, Inl (CieNotFound None))
      | Some tx \<Rightarrow>
          (case send_to_relay (e_connection e) tx (session_frame_new channel body) of
             (c, r) \<Rightarrow> (e\<lparr>e_connection := c\<rparr>, r)))"

definition engine_on_incoming_open ::
    "engine \<Rightarrow> open_perf \<Rightarrow> engine \<times> (connection_inner_error + unit)" where
  "engine_on_incoming_open e opn =
     (case on_incoming_open (e_connection e) opn of
        (c, Inl x) \<Rightarrow> (e\<lparr>e_connection := c\<rparr>, Inl (inner_of_state_error x))
      | (c, Inr _) \<Rightarrow> (e\<lparr>e_connection := c, e_heartbeat := op_idle_time_out opn\<rparr>, Inr ()))"

definition engine_on_incoming_close ::
    "engine \<Rightarrow> close_perf \<Rightarrow> engine \<times> (connection_inner_error + unit)" where
  "engine_on_incoming_close e cl =
     (case on_incoming_close (e_connection e) cl of
        (c, r) \<Rightarrow>
          (let e1 = e\<lparr>e_connection := c\<rparr>;
               result = (case r of Inl x \<Rightarrow> Inl (inner_of_state_error x) | Inr _ \<Rightarrow> Inr ())
           in if c_local_state c = CCloseReceived then
                (case close_and_drain e1 of
                   (e2, Inl err) \<Rightarrow> (e2, Inl err)
                 | (e2, Inr _) \<Rightarrow>
                     (case engine_send_close e2 None of
                        (e3, Inl err) \<Rightarrow> (e3, Inl err)
                      | (e3, Inr _) \<Rightarrow> (e3, result)))
              else (e1, result)))"

definition on_incoming_body ::
    "engine \<Rightarrow> u16 \<Rightarrow> frame_body \<Rightarrow> engine \<times> (connection_inner_error + unit)" where
  "on_incoming_body e channel body =
     (case body of
        FOpen opn \<Rightarrow> engine_on_incoming_open e opn
      | FBegin b \<Rightarrow> (case conn_on_incoming_begin (e_connection e) channel b of
                       (c, r) \<Rightarrow> (e\<lparr>e_connection := c\<rparr>, r))
      | FAttach a \<Rightarrow> forward_to_session e channel (SfAttach a)
      | FFlow f \<Rightarrow> forward_to_session e channel (SfFlow f)
      | FTransfer t p \<Rightarrow> forward_to_session e channel (SfTransfer t p)
      | FDisposition d \<Rightarrow> forward_to_session e channel (SfDisposition d)
      | FDetach d \<Rightarrow> forward_to_session e channel (SfDetach d)
      | FEnd en \<Rightarrow> (case conn_on_incoming_end (e_connection e) channel en of
                       (c, r) \<Rightarrow> (e\<lparr>e_connection := c\<rparr>, r))
      | FClose cl \<Rightarrow> engine_on_incoming_close e cl
      | FEmpty \<Rightarrow> (e, Inr ()))"

fun is_close :: "frame_body \<Rightarrow> bool" where
  "is_close (FClose _) = True"
| "is_close _ = False"

definition running_of :: "engine \<Rightarrow> running" where
  "running_of e = (if c_local_state (e_connection e) = CEnd then Stop else Continue)"

definition on_incoming :: "engine \<Rightarrow> frame \<Rightarrow> engine \<times> (connection_inner_error + running)" where
  "on_incoming e fr =
     (if c_local_state (e_connection e) = CDiscarding \<and> \<not> is_close (f_body fr) then (e, Inr Continue)
      else case on_incoming_body e (f_channel fr) (f_body fr) of
        (e1, Inl err) \<Rightarrow> (e1, Inl err)
      | (e1, Inr _) \<Rightarrow> (e1, Inr (running_of e1)))"

section \<open>No handler reads the transport\<close>

lemma send_to_relay_keeps: "c_local_state (fst (send_to_relay c tx fr)) = c_local_state c"
  by (simp add: send_to_relay_def split: option.split)

lemma on_outgoing_session_frames_incoming [simp]:
  "e_incoming (fst (on_outgoing_session_frames e fr)) = e_incoming e"
  by (simp add: on_outgoing_session_frames_def split: option.split)

lemma drain_outgoing_incoming: "e_incoming (fst (drain_outgoing frs e)) = e_incoming e"
proof (induction frs arbitrary: e)
  case Nil
  then show ?case by simp
next
  case (Cons fr frs)
  have "e_incoming e1 = e_incoming e"
    if "on_outgoing_session_frames (e\<lparr>e_outgoing := frs\<rparr>) fr = (e1, r)" for e1 r
    using on_outgoing_session_frames_incoming [of "e\<lparr>e_outgoing := frs\<rparr>" fr]
    unfolding that by simp
  with Cons show ?case by (auto split: prod.split sum.split)
qed

lemma engine_send_close_incoming: "e_incoming (fst (engine_send_close e err)) = e_incoming e"
  by (simp add: engine_send_close_def split: prod.split sum.split)

lemma close_and_drain_incoming: "e_incoming (fst (close_and_drain e)) = e_incoming e"
  by (simp add: close_and_drain_def drain_outgoing_incoming)

lemma engine_on_incoming_close_incoming:
  "e_incoming (fst (engine_on_incoming_close e cl)) = e_incoming e"
proof -
  have cl: "e_incoming e1 = e_incoming e0" if "close_and_drain e0 = (e1, r)" for e0 e1 r
    using close_and_drain_incoming [of e0] that by simp
  have sc: "e_incoming e1 = e_incoming e0" if "engine_send_close e0 err = (e1, r)" for e0 e1 r err
    using engine_send_close_incoming [of e0 err] that by simp
  show ?thesis
    by (auto simp: engine_on_incoming_close_def Let_def split: prod.split sum.split dest!: cl sc)
qed

lemma on_incoming_incoming: "e_incoming (fst (on_incoming e fr)) = e_incoming e"
proof -
  have "e_incoming (fst (on_incoming_body e ch body)) = e_incoming e" for ch body
    by (cases body)
       (simp_all add: on_incoming_body_def engine_on_incoming_open_def forward_to_session_def
          engine_on_incoming_close_incoming split: prod.split sum.split option.split)
  then show ?thesis
    by (auto simp: on_incoming_def split: prod.split sum.split) (metis fst_conv)+
qed

section \<open>Closing\<close>

function wait_for_remote_close ::
    "bool \<Rightarrow> engine \<Rightarrow> engine \<times> (connection_inner_error + u16 \<times> close_perf)" where
  "wait_for_remote_close discard_other e =
     (case e_incoming e of
        [] \<Rightarrow> (e, Inl (CieTransportError TeIo))
      | Inl err # rest \<Rightarrow> (e\<lparr>e_incoming := rest\<rparr>, Inl (CieTransportError err))
      | Inr fr # rest \<Rightarrow>
          (let e1 = e\<lparr>e_incoming := rest\<rparr> in
           case f_body fr of
             FClose cl \<Rightarrow> (e1, Inr (f_channel fr, cl))
           | _ \<Rightarrow> if discard_other then wait_for_remote_close discard_other e1
                   else (case snd (on_incoming e1 fr) of
                           Inl err \<Rightarrow> (fst (on_incoming e1 fr), Inl err)
                         | Inr _ \<Rightarrow> wait_for_remote_close discard_other (fst (on_incoming e1 fr)))))"
  by pat_completeness auto
termination
  by (relation "measure (\<lambda>(d, e). length (e_incoming e))")
     (simp_all add: on_incoming_incoming)

declare wait_for_remote_close.simps [simp del]

definition engine_close_received ::
    "engine \<Rightarrow> close_perf \<Rightarrow> engine \<times> (connection_inner_error + running)" where
  "engine_close_received e cl =
     (case on_incoming_close (e_connection e) cl of
        (c, Inl x) \<Rightarrow> (e\<lparr>e_connection := c\<rparr>, Inl (inner_of_state_error x))
      | (c, Inr _) \<Rightarrow> (e\<lparr>e_connection := c\<rparr>, Inr Stop))"

definition wait_and_finish :: "bool \<Rightarrow> engine \<Rightarrow> engine \<times> (connection_inner_error + running)" where
  "wait_and_finish discard_other e =
     (case wait_for_remote_close discard_other e of
        (e1, Inl err) \<Rightarrow> (e1, Inl err)
      | (e1, Inr (_, cl)) \<Rightarrow> engine_close_received e1 cl)"

definition close_connection ::
    "engine \<Rightarrow> amqp_error option \<Rightarrow> engine \<times> (connection_inner_error + running)" where
  "close_connection e err =
     (let st = c_local_state (e_connection e) in
      if st \<in> {CStart, CHeaderReceived, CHeaderSent, CHeaderExchange} then (e, Inl CieIllegalState)
      else if st \<in> {COpenPipe, COpenClosePipe, COpenReceived, COpenSent, COpened} then
        (case engine_send_close e err of
           (e1, Inl x) \<Rightarrow> (e1, Inl x)
         | (e1, Inr _) \<Rightarrow> wait_and_finish False e1)
      else if st = CCloseReceived then
        (case engine_send_close e err of
           (e1, Inl x) \<Rightarrow> (e1, Inl x)
         | (e1, Inr _) \<Rightarrow> (e1, Inr Stop))
      else if st \<in> {CClosePipe, CCloseSent} then wait_and_finish False e
      else if st = CDiscarding then wait_and_finish True e
      else (e, Inr Stop))"

definition error_new :: "amqp_error_cond \<Rightarrow> string option \<Rightarrow> amqp_error" where
  "error_new cond description =
     \<lparr>err_condition = AmqpError cond, err_description = description, err_info = None\<rparr>"

text \<open>\<open>self.close_connection(Some(error)).await?; Ok(Running::Stop)\<close>\<close>

definition close_with :: "engine \<Rightarrow> amqp_error \<Rightarrow> engine \<times> (connection_inner_error + running)" where
  "close_with e err =
     (case close_connection e (Some err) of
        (e1, Inl x) \<Rightarrow> (e1, Inl x)
      | (e1, Inr _) \<Rightarrow> (e1, Inr Stop))"

definition on_error ::
    "engine \<Rightarrow> connection_inner_error \<Rightarrow> engine \<times> (connection_inner_error + running)" where
  "on_error e err =
     (case err of
        CieTransportError _ \<Rightarrow> (e, Inr Stop)
      | CieIllegalState \<Rightarrow> close_with e (error_new AmqpIllegalState None)
      | CieNotImplemented d \<Rightarrow> close_with e (error_new NotImplemented d)
      | CieNotFound d \<Rightarrow> close_with e (error_new NotFound d)
      | CieRemoteClosed \<Rightarrow> close_connection e None
      | CieRemoteClosedWithError _ \<Rightarrow> close_connection e None)"

section \<open>Opening\<close>

definition open_inner :: "engine \<Rightarrow> engine \<times> (open_error + unit)" where
  "open_inner e =
     (case send_open (e_connection e) (e_transport e) of
        (c, t, Inl x) \<Rightarrow> (e\<lparr>e_connection := c, e_transport := t\<rparr>, Inl (open_of_state_error x))
      | (c, t, Inr _) \<Rightarrow>
          (let e1 = e\<lparr>e_connection := c, e_transport := t\<rparr> in
           case e_incoming e1 of
             [] \<Rightarrow> (e1, Inl OeIo)
           | Inl err # rest \<Rightarrow> (e1\<lparr>e_incoming := rest\<rparr>, Inl (OeTransportError err))
           | Inr fr # rest \<Rightarrow>
               (let e2 = e1\<lparr>e_incoming := rest\<rparr> in
                case f_body fr of
                  FOpen opn \<Rightarrow>
                    (case on_incoming_open (e_connection e2) opn of
                       (c2, Inl x) \<Rightarrow> (e2\<lparr>e_connection := c2\<rparr>, Inl (open_of_state_error x))
                     | (c2, Inr _) \<Rightarrow>
                         (let e3 = e2\<lparr>e_connection := c2\<rparr>;
                              local_max_frame_size = unat (op_max_frame_size (c_local_open c2));
                              e4 = set_decoder_max_frame_size local_max_frame_size
                                     (set_encoder_max_frame_size (unat (op_max_frame_size opn)) e3)
                          in (e4\<lparr>e_heartbeat := (case op_idle_time_out opn of
                                  None \<Rightarrow> None
                                | Some millis \<Rightarrow> if millis = 0 then None else Some millis)\<rparr>, Inr ())))
                | FClose cl \<Rightarrow>
                    (e2, Inl (case cl_error cl of Some err \<Rightarrow> OeRemoteClosedWithError err
                                                | None \<Rightarrow> OeRemoteClosed))
                | _ \<Rightarrow> (e2, Inl OeIllegalState))))"

fun open_of_inner_error :: "connection_inner_error \<Rightarrow> open_error" where
  "open_of_inner_error (CieTransportError e) = OeTransportError e"
| "open_of_inner_error CieIllegalState = OeIllegalState"
| "open_of_inner_error (CieNotImplemented d) = OeNotImplemented d"
| "open_of_inner_error CieRemoteClosed = OeRemoteClosed"
| "open_of_inner_error (CieRemoteClosedWithError e) = OeRemoteClosedWithError e"
| "open_of_inner_error (CieNotFound _) = OeNotImplemented (Some ''Pipelined open is not implemented'')"

definition engine_open :: "engine \<Rightarrow> open_error + engine" where
  "engine_open e =
     (case open_inner (e\<lparr>e_heartbeat := None\<rparr>) of
        (e1, Inr _) \<Rightarrow> Inr e1
      | (e1, Inl error) \<Rightarrow>
          (case snd (close_connection e1 None) of
             Inr _ \<Rightarrow> Inl error
           | Inl err \<Rightarrow> Inl (open_of_inner_error err)))"

section \<open>Control\<close>

definition on_control_close :: "engine \<Rightarrow> amqp_error option \<Rightarrow> engine \<times> (connection_inner_error + running)" where
  "on_control_close e error =
     (let e1 = (case error of
                  Some err \<Rightarrow> e\<lparr>e_connection :=
                      set_connection_stop_reason (e_connection e) (ConnClosedWithError err)\<rparr>
                | None \<Rightarrow> e)
      in case close_and_drain e1 of
           (e2, Inl x) \<Rightarrow> (e2, Inl x)
         | (e2, Inr _) \<Rightarrow>
             (case engine_send_close e2 error of
                (e3, Inl x) \<Rightarrow> (e3, Inl x)
              | (e3, Inr _) \<Rightarrow> (e3, Inr (running_of e3))))"

text \<open>\<open>CcAllocateSession tx alive\<close>: \<open>alive\<close> is whether the requester still waits for the
  answer. The result is \<open>None\<close> where the code panics.\<close>

definition on_control ::
    "nat \<Rightarrow> engine \<Rightarrow> connection_control \<Rightarrow> (engine \<times> (connection_inner_error + running)) option" where
  "on_control key e control =
     (case control of
        CcClose error \<Rightarrow> Some (on_control_close e error)
      | CcAllocateSession tx alive \<Rightarrow>
          (case allocate_session key (e_connection e) tx of
             (c, _) \<Rightarrow> (let e1 = e\<lparr>e_connection := c\<rparr> in
               Some (e1, if alive then Inr (running_of e1) else Inl CieIllegalState)))
      | CcDeallocateSession channel \<Rightarrow>
          (case deallocate_session (e_connection e) channel of
             None \<Rightarrow> None
           | Some c \<Rightarrow> (let e1 = e\<lparr>e_connection := c\<rparr> in Some (e1, Inr (running_of e1)))))"

text \<open>
  The loop the engine enters when every control sender is gone. It has no bound of its own: the
  result is \<open>None\<close> when it does not return.
\<close>

partial_function (option) finish_closing :: "engine \<Rightarrow> engine option" where
  "finish_closing e =
     (let st = c_local_state (e_connection e) in
      if st \<in> {COpened, CCloseReceived, COpenSent, COpenPipe} then
        finish_closing (fst (on_control_close e None))
      else if st \<in> {CDiscarding, CCloseSent, COpenClosePipe, CClosePipe} then
        (case e_incoming e of
           Inr fr # rest \<Rightarrow> finish_closing (fst (on_incoming (e\<lparr>e_incoming := rest\<rparr>) fr))
         | Inl _ # rest \<Rightarrow> finish_closing (e\<lparr>e_incoming := rest\<rparr>)
         | [] \<Rightarrow> Some e)
      else Some e)"

section \<open>Event loop\<close>

text \<open>
  The branches of \<open>select!\<close>, and what happens around the engine: \<open>EvQueue\<close>, a session queues a
  frame, and \<open>EvTransportFails\<close>, from now on writing to the transport fails.
\<close>

datatype event = EvHeartbeat | EvIncoming | EvControl nat connection_control | EvControlClosed
  | EvOutgoing | EvQueue session_frame | EvTransportFails

datatype handled = Handled engine "connection_inner_error + running" | HPanicked | HHung

definition on_stream_end :: "engine \<Rightarrow> engine \<times> (connection_inner_error + running)" where
  "on_stream_end e =
     (if c_local_state (e_connection e) \<in> {CClosePipe, CDiscarding, CEnd} then (e, Inr Stop)
      else (e, Inl CieIllegalState))"

definition select_branch :: "engine \<Rightarrow> event \<Rightarrow> handled" where
  "select_branch e ev =
     (case ev of
        EvHeartbeat \<Rightarrow> (case on_heartbeat e of (e1, r) \<Rightarrow> Handled e1 r)
      | EvIncoming \<Rightarrow>
          (case e_incoming e of
             [] \<Rightarrow> (case on_stream_end e of (e1, r) \<Rightarrow> Handled e1 r)
           | Inl err # rest \<Rightarrow> Handled (e\<lparr>e_incoming := rest\<rparr>) (Inl (CieTransportError err))
           | Inr fr # rest \<Rightarrow> (case on_incoming (e\<lparr>e_incoming := rest\<rparr>) fr of (e1, r) \<Rightarrow> Handled e1 r))
      | EvControl key control \<Rightarrow>
          (case on_control key e control of
             None \<Rightarrow> HPanicked
           | Some (e1, r) \<Rightarrow> Handled e1 r)
      | EvControlClosed \<Rightarrow>
          (case finish_closing e of
             None \<Rightarrow> HHung
           | Some e1 \<Rightarrow> Handled e1 (Inr Stop))
      | EvOutgoing \<Rightarrow>
          (case e_outgoing e of
             [] \<Rightarrow> Handled e (Inr Continue)
           | fr # rest \<Rightarrow>
               (case on_outgoing_session_frames (e\<lparr>e_outgoing := rest\<rparr>) fr of (e1, r) \<Rightarrow> Handled e1 r))
      | EvQueue fr \<Rightarrow>
          Handled (if e_outgoing_closed e then e else e\<lparr>e_outgoing := e_outgoing e @ [fr]\<rparr>) (Inr Continue)
      | EvTransportFails \<Rightarrow>
          Handled (e\<lparr>e_transport := (e_transport e)\<lparr>rx_alive := False\<rparr>\<rparr>) (Inr Continue))"

datatype loop_state = LRunning engine | LStopped engine "connection_inner_error + unit"
  | LPanicked | LHung

text \<open>What follows the loop: the transport is closed and the reason published.\<close>

definition shutdown :: "engine \<Rightarrow> connection_inner_error + unit \<Rightarrow> loop_state" where
  "shutdown e outcome =
     (let result = (case outcome of
                      Inl x \<Rightarrow> Inl x
                    | Inr _ \<Rightarrow> if rx_alive (e_transport e) then Inr () else Inl (CieTransportError TeIo));
          reason = (case result of
                      Inl (CieRemoteClosedWithError err) \<Rightarrow> ConnRemoteClosedWithError err
                    | Inl CieRemoteClosed \<Rightarrow> ConnRemoteClosed
                    | _ \<Rightarrow> ConnClosed)
      in LStopped (e\<lparr>e_connection := set_connection_stop_reason (e_connection e) reason,
                     e_outgoing_closed := True\<rparr>) result)"

definition event_step :: "engine \<Rightarrow> event \<Rightarrow> loop_state" where
  "event_step e ev =
     (case select_branch e ev of
        HPanicked \<Rightarrow> LPanicked
      | HHung \<Rightarrow> LHung
      | Handled e1 (Inr Continue) \<Rightarrow> LRunning e1
      | Handled e1 (Inr Stop) \<Rightarrow> shutdown e1 (Inr ())
      | Handled e1 (Inl error) \<Rightarrow>
          (case on_error e1 error of
             (e2, Inl error2) \<Rightarrow> shutdown e2 (Inl error2)
           | (e2, Inr Stop) \<Rightarrow> shutdown e2 (Inl error)
           | (e2, Inr Continue) \<Rightarrow> LRunning e2))"

fun event_loop :: "engine \<Rightarrow> event list \<Rightarrow> loop_state" where
  "event_loop e [] = LRunning e"
| "event_loop e (ev # evs) =
     (case event_step e ev of
        LRunning e1 \<Rightarrow> event_loop e1 evs
      | stopped \<Rightarrow> stopped)"

end
