(* ===== verification/Connection_Lifecycle.thy ===== *)
theory Connection_Lifecycle
  imports Connection_Engine
begin

text \<open>
  What the connection engine guarantees: incoming frames reach the session bound to their channel, in
  order; the close handshake; what may follow a close frame on the wire; opening.
\<close>

section \<open>Frames on the wire, and example engines\<close>

definition wire_frame :: "session_frame \<Rightarrow> frame" where
  "wire_frame fr = frame_of_session (sf_channel fr) (sf_body fr)"

definition close_frame :: "amqp_error option \<Rightarrow> frame" where
  "close_frame err = frame_new 0 (FClose \<lparr>cl_error = err\<rparr>)"

definition example_open :: open_perf where
  "example_open = \<lparr>op_container_id = ''c'', op_hostname = None, op_max_frame_size = 1024,
     op_channel_max = 7, op_idle_time_out = Some 30, op_outgoing_locales = None,
     op_incoming_locales = None, op_offered_capabilities = None, op_desired_capabilities = None,
     op_properties = None\<rparr>"

definition example_engine ::
    "connection_state \<Rightarrow> (transport_error + frame) list \<Rightarrow> session_frame list \<Rightarrow> engine" where
  "example_engine st incoming queue =
     \<lparr>e_transport = \<lparr>rx_alive = True, sent = []\<rparr>, e_incoming = incoming,
      e_connection = (connection_new (\<lambda>_. \<lparr>rx_alive = True, sent = []\<rparr>) st example_open)
         \<lparr>c_session_by_incoming_channel := [3 \<mapsto> 0, 4 \<mapsto> 1]\<rparr>,
      e_outgoing = queue, e_outgoing_closed = False, e_heartbeat = None, e_encoder_max = 508,
      e_decoder_max = 512\<rparr>"

definition example_detach :: "u16 \<Rightarrow> session_frame" where
  "example_detach channel = session_frame_new channel
     (SfDetach \<lparr>de_handle = 0, de_closed = True, de_error = None\<rparr>)"

definition example_error :: amqp_error where
  "example_error = error_new InternalError None"

lemmas example_engine_defs = example_engine_def connection_new_def example_detach_def
  session_frame_new_def wire_frame_def frame_new_def close_frame_def on_outgoing_begin_def

section \<open>Routing\<close>

text \<open>
  The contract of a frame router, whatever its tables look like: a frame handed over on a routed
  channel whose receiver lives is appended to that receiver's inbox and changes nothing else.
\<close>

locale frame_router =
  fixes route :: "'s \<Rightarrow> 'c \<Rightarrow> 'r option"
    and alive :: "'s \<Rightarrow> 'r \<Rightarrow> bool"
    and inbox :: "'s \<Rightarrow> 'r \<Rightarrow> 'f list"
    and channel :: "'f \<Rightarrow> 'c"
    and deliver :: "'s \<Rightarrow> 'f \<Rightarrow> 's option"
    and ok :: "'f \<Rightarrow> bool"
  assumes deliver_routed: "ok f \<Longrightarrow> route s (channel f) = Some r \<Longrightarrow> alive s r \<Longrightarrow>
    \<exists>s'. deliver s f = Some s' \<and> route s' = route s \<and> alive s' = alive s
       \<and> inbox s' = (inbox s)(r := inbox s r @ [f])"
begin

fun deliver_all :: "'s \<Rightarrow> 'f list \<Rightarrow> 's option" where
  "deliver_all s [] = Some s"
| "deliver_all s (f # fs) = (case deliver s f of None \<Rightarrow> None | Some s' \<Rightarrow> deliver_all s' fs)"

lemma deliver_all_routed:
  assumes "list_all ok fs"
    and "list_all (\<lambda>f. \<exists>r. route s (channel f) = Some r \<and> alive s r) fs"
  shows "\<exists>s'. deliver_all s fs = Some s' \<and> route s' = route s
           \<and> (\<forall>r. inbox s' r = inbox s r @ filter (\<lambda>f. route s (channel f) = Some r) fs)"
  using assms
proof (induction fs arbitrary: s)
  case Nil
  then show ?case by simp
next
  case (Cons f fs)
  then obtain r where r: "ok f" "route s (channel f) = Some r" "alive s r" by auto
  then obtain s1 where s1: "deliver s f = Some s1" "route s1 = route s" "alive s1 = alive s"
      "inbox s1 = (inbox s)(r := inbox s r @ [f])"
    using deliver_routed by blast
  from Cons.prems s1(2,3) have "list_all ok fs"
    "list_all (\<lambda>f. \<exists>r. route s1 (channel f) = Some r \<and> alive s1 r) fs" by auto
  from Cons.IH [OF this] obtain s' where "deliver_all s1 fs = Some s'" "route s' = route s1"
      "\<forall>r. inbox s' r = inbox s1 r @ filter (\<lambda>f. route s1 (channel f) = Some r) fs" by blast
  with s1 r(2) show ?case by auto
qed

end

text \<open>The engine as a router of the frames a session forwards to its links.\<close>

fun link_level :: "session_frame_body \<Rightarrow> bool" where
  "link_level (SfBegin _) = False"
| "link_level (SfEnd _) = False"
| "link_level _ = True"

definition engine_route :: "engine \<Rightarrow> u16 \<Rightarrow> sender_ref option" where
  "engine_route e = (if c_local_state (e_connection e) = COpened
                     then c_session_by_incoming_channel (e_connection e) else Map.empty)"

definition engine_inbox :: "engine \<Rightarrow> sender_ref \<Rightarrow> session_frame list" where
  "engine_inbox e tx = sent (c_relays (e_connection e) tx)"

definition engine_deliver :: "engine \<Rightarrow> session_frame \<Rightarrow> engine option" where
  "engine_deliver e fr =
     (case on_incoming e (wire_frame fr) of (e', Inr Continue) \<Rightarrow> Some e' | _ \<Rightarrow> None)"

lemma f_channel_wire_frame [simp]: "f_channel (wire_frame fr) = sf_channel fr"
  by (cases "sf_body fr")
     (simp_all add: wire_frame_def frame_new_def on_outgoing_begin_def on_outgoing_end_def)

lemma on_incoming_body_link_level:
  "link_level (sf_body fr) \<Longrightarrow>
   on_incoming_body e ch (f_body (wire_frame fr)) = forward_to_session e ch (sf_body fr)"
  by (cases "sf_body fr") (simp_all add: on_incoming_body_def wire_frame_def frame_new_def)

lemma is_close_wire_frame [simp]: "\<not> is_close (f_body (wire_frame fr))"
  by (cases "sf_body fr")
     (simp_all add: wire_frame_def frame_new_def on_outgoing_begin_def on_outgoing_end_def)

lemma on_incoming_unread:
  assumes "link_level (sf_body fr)"
  shows "on_incoming (e\<lparr>e_incoming := q\<rparr>) (wire_frame fr)
    = map_prod (\<lambda>e. e\<lparr>e_incoming := q\<rparr>) id (on_incoming e (wire_frame fr))"
  by (auto simp: on_incoming_def on_incoming_body_link_level [OF assms] forward_to_session_def
        running_of_def split: option.split prod.split sum.split)

lemma on_incoming_link_frame:
  assumes "link_level (sf_body fr)" and "c_local_state (e_connection e) = COpened"
    and "c_session_by_incoming_channel (e_connection e) (sf_channel fr) = Some tx"
    and "rx_alive (c_relays (e_connection e) tx)"
  shows "on_incoming e (wire_frame fr) =
    (e\<lparr>e_connection := (e_connection e)\<lparr>c_relays := (c_relays (e_connection e))
        (tx := (c_relays (e_connection e) tx)\<lparr>sent := sent (c_relays (e_connection e) tx) @ [fr]\<rparr>)\<rparr>\<rparr>,
     Inr Continue)"
proof -
  have "session_frame_new (sf_channel fr) (sf_body fr) = fr"
    by (simp add: session_frame_new_def)
  with assms(2-) show ?thesis
    by (simp add: on_incoming_def on_incoming_body_link_level [OF assms(1)] forward_to_session_def
          send_to_relay_def chan_send_def running_of_def)
qed

interpretation router: frame_router engine_route
  "\<lambda>e tx. rx_alive (c_relays (e_connection e) tx)" engine_inbox sf_channel engine_deliver
  "\<lambda>fr. link_level (sf_body fr)"
proof
  fix fr :: session_frame and e tx
  assume a: "link_level (sf_body fr)" "engine_route e (sf_channel fr) = Some tx"
    "rx_alive (c_relays (e_connection e) tx)"
  then have o: "c_local_state (e_connection e) = COpened"
    "c_session_by_incoming_channel (e_connection e) (sf_channel fr) = Some tx"
    by (simp_all add: engine_route_def split: if_splits)
  show "\<exists>e'. engine_deliver e fr = Some e' \<and> engine_route e' = engine_route e
     \<and> (\<lambda>tx. rx_alive (c_relays (e_connection e') tx)) = (\<lambda>tx. rx_alive (c_relays (e_connection e) tx))
     \<and> engine_inbox e' = (engine_inbox e)(tx := engine_inbox e tx @ [fr])"
    using a(3) by (auto simp: engine_deliver_def o
        on_incoming_link_frame [OF a(1) o a(3)] engine_route_def engine_inbox_def fun_eq_iff)
qed

lemma engine_deliver_step:
  assumes "engine_deliver e fr = Some e'" and "link_level (sf_body fr)"
  shows "event_step (e\<lparr>e_incoming := Inr (wire_frame fr) # q\<rparr>) EvIncoming = LRunning (e'\<lparr>e_incoming := q\<rparr>)"
  using assms by (auto simp: engine_deliver_def event_step_def select_branch_def on_incoming_unread
      split: prod.splits sum.splits running.splits)

lemma event_loop_incoming:
  "router.deliver_all e frs = Some e' \<Longrightarrow> list_all (\<lambda>fr. link_level (sf_body fr)) frs \<Longrightarrow>
   event_loop (e\<lparr>e_incoming := map (Inr \<circ> wire_frame) frs @ q\<rparr>)
     (replicate (length frs) EvIncoming) = LRunning (e'\<lparr>e_incoming := q\<rparr>)"
  by (induction frs arbitrary: e) (auto simp: engine_deliver_step split: option.splits)

text \<open>
  C32: While a connection is open, every frame for a bound channel reaches the session bound to
  that channel: after the engine has read any sequence of link-level frames, the event loop still
  runs and each session has received exactly the frames on its channels, in the order they
  arrived, after what it had before.
\<close>

theorem incoming_frames_reach_their_session:
  assumes "c_local_state (e_connection e) = COpened"
    and "list_all (\<lambda>fr. link_level (sf_body fr)) frs"
    and "list_all (\<lambda>fr. \<exists>tx. c_session_by_incoming_channel (e_connection e) (sf_channel fr) = Some tx
           \<and> rx_alive (c_relays (e_connection e) tx)) frs"
    and "e_incoming e = map (Inr \<circ> wire_frame) frs @ rest"
  shows "\<exists>e'. event_loop e (replicate (length frs) EvIncoming) = LRunning e' \<and> e_incoming e' = rest
    \<and> (\<forall>tx. sent (c_relays (e_connection e') tx) = sent (c_relays (e_connection e) tx)
         @ filter (\<lambda>fr. c_session_by_incoming_channel (e_connection e) (sf_channel fr) = Some tx) frs)"
proof -
  have r: "engine_route e = c_session_by_incoming_channel (e_connection e)"
    using assms(1) by (simp add: engine_route_def)
  have e: "e\<lparr>e_incoming := map (Inr \<circ> wire_frame) frs @ rest\<rparr> = e" using assms(4) by simp
  from assms(2,3) router.deliver_all_routed [of frs e] obtain e' where e':
    "router.deliver_all e frs = Some e'"
    "\<forall>tx. engine_inbox e' tx = engine_inbox e tx @ filter (\<lambda>fr. engine_route e (sf_channel fr) = Some tx) frs"
    unfolding r by blast
  show ?thesis
    using event_loop_incoming [OF e'(1) assms(2), of rest] e'(2)
    unfolding e r engine_inbox_def
    by (intro exI [of _ "e'\<lparr>e_incoming := rest\<rparr>"]) simp
qed

theorem incoming_frames_reach_their_session_witness:
  "let frs = [example_detach 3, example_detach 4, example_detach 3];
       e = example_engine COpened (map (Inr \<circ> wire_frame) frs) []
   in \<exists>e'. event_loop e (replicate 3 EvIncoming) = LRunning e'
      \<and> sent (c_relays (e_connection e') 0) = [example_detach 3, example_detach 3]"
proof -
  define frs where "frs = [example_detach 3, example_detach 4, example_detach 3]"
  define e where "e = example_engine COpened (map (Inr \<circ> wire_frame) frs) []"
  have m: "c_session_by_incoming_channel (e_connection e) = [3 \<mapsto> 0, 4 \<mapsto> 1]"
    "c_relays (e_connection e) = (\<lambda>_. \<lparr>rx_alive = True, sent = []\<rparr>)"
    by (simp_all add: e_def example_engine_def connection_new_def)
  have "\<exists>e'. event_loop e (replicate (length frs) EvIncoming) = LRunning e' \<and> e_incoming e' = []
    \<and> (\<forall>tx. sent (c_relays (e_connection e') tx) = sent (c_relays (e_connection e) tx)
         @ filter (\<lambda>fr. c_session_by_incoming_channel (e_connection e) (sf_channel fr) = Some tx) frs)"
    by (rule incoming_frames_reach_their_session)
       (simp_all add: m, simp_all add: e_def frs_def example_engine_defs)
  then obtain e' where e': "event_loop e (replicate (length frs) EvIncoming) = LRunning e'"
    "sent (c_relays (e_connection e') 0) = sent (c_relays (e_connection e) 0)
         @ filter (\<lambda>fr. c_session_by_incoming_channel (e_connection e) (sf_channel fr) = Some 0) frs"
    by blast
  have "length frs = 3" by (simp add: frs_def)
  moreover have "sent (c_relays (e_connection e') 0) = [example_detach 3, example_detach 3]"
    unfolding e'(2) m by (simp add: frs_def example_detach_def session_frame_new_def)
  ultimately show ?thesis
    using e'(1) unfolding Let_def frs_def [symmetric] e_def [symmetric] by auto
qed

section \<open>The wire after a close\<close>

named_theorems wire_keeps

fun after_close :: "frame list \<Rightarrow> frame list" where
  "after_close [] = []"
| "after_close (f # fs) = (if is_close (f_body f) then fs else after_close fs)"

definition close_sent :: "frame list \<Rightarrow> bool" where
  "close_sent w = list_ex (\<lambda>f. is_close (f_body f)) w"

definition quiet :: "frame \<Rightarrow> bool" where
  "quiet f = (f_body f = FEmpty \<or> is_close (f_body f))"

lemma after_close_append:
  "after_close (xs @ ys) = (if close_sent xs then after_close xs @ ys else after_close ys)"
  by (induction xs) (auto simp: close_sent_def)

definition wire_ok :: "connection_state \<Rightarrow> frame list \<Rightarrow> bool" where
  "wire_ok st w \<longleftrightarrow> st \<in> {COpened, CCloseReceived, CCloseSent, CDiscarding, CEnd}
     \<and> (st \<in> {COpened, CCloseReceived} \<longrightarrow> \<not> close_sent w) \<and> list_all quiet (after_close w)"

definition engine_wire_ok :: "engine \<Rightarrow> bool" where
  "engine_wire_ok e = wire_ok (c_local_state (e_connection e)) (sent (e_transport e))"

lemma wire_ok_session_frame:
  "wire_ok st w \<Longrightarrow> st \<in> {COpened, CCloseReceived} \<Longrightarrow> \<not> is_close (f_body f) \<Longrightarrow> wire_ok st (w @ [f])"
  by (auto simp: wire_ok_def after_close_append close_sent_def)

lemma wire_ok_quiet: "wire_ok st w \<Longrightarrow> quiet f \<Longrightarrow> st \<noteq> COpened \<and> st \<noteq> CCloseReceived \<or> f_body f = FEmpty \<Longrightarrow> wire_ok st (w @ [f])"
  by (auto simp: wire_ok_def after_close_append close_sent_def quiet_def)

lemma wire_ok_close:
  "wire_ok st w \<Longrightarrow> is_close (f_body f) \<Longrightarrow> st' \<in> {CCloseSent, CDiscarding, CEnd} \<Longrightarrow> wire_ok st' (w @ [f])"
  by (auto simp: wire_ok_def after_close_append close_sent_def quiet_def)

lemma wire_ok_state:
  "wire_ok st w \<Longrightarrow> st' \<in> {COpened, CCloseReceived, CCloseSent, CDiscarding, CEnd} \<Longrightarrow>
   (st' \<in> {COpened, CCloseReceived} \<Longrightarrow> st \<in> {COpened, CCloseReceived}) \<Longrightarrow> wire_ok st' w"
  by (auto simp: wire_ok_def)

lemma wire_frame_not_empty: "f_body (frame_of_session ch b) \<noteq> FEmpty"
  by (cases b) (simp_all add: frame_new_def on_outgoing_begin_def on_outgoing_end_def)

lemma not_is_close_frame_of_session: "\<not> is_close (f_body (frame_of_session ch b))"
  by (cases b) (simp_all add: frame_new_def on_outgoing_begin_def on_outgoing_end_def)

lemma on_outgoing_session_frames_wire [wire_keeps]:
  "engine_wire_ok e \<Longrightarrow> engine_wire_ok (fst (on_outgoing_session_frames e fr))"
  by (auto simp: on_outgoing_session_frames_def engine_wire_ok_def chan_send_def
      not_is_close_frame_of_session intro!: wire_ok_session_frame)

lemma engine_wire_ok_update [simp]:
  "engine_wire_ok (e\<lparr>e_outgoing := q\<rparr>) = engine_wire_ok e"
  "engine_wire_ok (e\<lparr>e_outgoing_closed := b\<rparr>) = engine_wire_ok e"
  "engine_wire_ok (e\<lparr>e_incoming := i\<rparr>) = engine_wire_ok e"
  "engine_wire_ok (e\<lparr>e_heartbeat := h\<rparr>) = engine_wire_ok e"
  "c_local_state c = c_local_state (e_connection e) \<Longrightarrow>
     engine_wire_ok (e\<lparr>e_connection := c\<rparr>) = engine_wire_ok e"
  "engine_wire_ok (e\<lparr>e_transport := (e_transport e)\<lparr>rx_alive := b\<rparr>\<rparr>) = engine_wire_ok e"
  by (simp_all add: engine_wire_ok_def)

lemma drain_outgoing_wire [wire_keeps]:
  "engine_wire_ok e \<Longrightarrow> engine_wire_ok (fst (drain_outgoing frs e))"
proof (induction frs arbitrary: e)
  case (Cons fr frs)
  from Cons.prems have "engine_wire_ok (fst (on_outgoing_session_frames (e\<lparr>e_outgoing := frs\<rparr>) fr))"
    by (simp add: on_outgoing_session_frames_wire)
  with Cons.IH show ?case by (auto split: prod.split sum.split)
qed simp

lemma close_and_drain_wire [wire_keeps]:
  "engine_wire_ok e \<Longrightarrow> engine_wire_ok (fst (close_and_drain e))"
  by (simp add: close_and_drain_def drain_outgoing_wire)

lemma engine_send_close_wire [wire_keeps]:
  "engine_wire_ok e \<Longrightarrow> engine_wire_ok (fst (engine_send_close e err))"
  by (auto simp: engine_send_close_def send_close_def engine_wire_ok_def chan_send_def frame_new_def
      wire_ok_def after_close_append close_sent_def quiet_def split: connection_state.splits)

lemma on_heartbeat_wire [wire_keeps]: "engine_wire_ok e \<Longrightarrow> engine_wire_ok (fst (on_heartbeat e))"
  by (auto simp: on_heartbeat_def engine_wire_ok_def chan_send_def frame_empty_def
      intro!: wire_ok_quiet) (simp add: quiet_def)+

lemma on_incoming_open_wire:
  "engine_wire_ok e \<Longrightarrow> engine_wire_ok (fst (engine_on_incoming_open e opn))"
  by (auto simp: engine_on_incoming_open_def on_incoming_open_def engine_wire_ok_def wire_ok_def
      split: connection_state.splits)

lemma on_incoming_close_wire:
  "engine_wire_ok e \<Longrightarrow> engine_wire_ok (e\<lparr>e_connection := fst (on_incoming_close (e_connection e) cl)\<rparr>)"
  by (auto simp: on_incoming_close_def engine_wire_ok_def wire_ok_def)

lemma engine_on_incoming_close_wire [wire_keeps]:
  assumes "engine_wire_ok e"
  shows "engine_wire_ok (fst (engine_on_incoming_close e cl))"
proof -
  let ?e1 = "e\<lparr>e_connection := fst (on_incoming_close (e_connection e) cl)\<rparr>"
  have 1: "engine_wire_ok ?e1" using assms by (rule on_incoming_close_wire)
  have 2: "engine_wire_ok (fst (close_and_drain ?e1))" using 1 by (rule close_and_drain_wire)
  have 3: "engine_wire_ok (fst (engine_send_close (fst (close_and_drain ?e1)) None))"
    using 2 by (rule engine_send_close_wire)
  show ?thesis using 1 2 3
    by (auto simp: engine_on_incoming_close_def Let_def split: prod.split sum.split)
qed

lemma on_incoming_begin_keeps: "c_local_state (fst (conn_on_incoming_begin c ch b)) = c_local_state c"
  by (auto simp: conn_on_incoming_begin_def on_incoming_begin_inner_def send_to_relay_keeps
      split: option.split)

lemma on_incoming_end_keeps: "c_local_state (fst (conn_on_incoming_end c ch b)) = c_local_state c"
  by (auto simp: conn_on_incoming_end_def send_to_relay_keeps split: option.split)

lemma forward_to_session_wire [wire_keeps]:
  "engine_wire_ok e \<Longrightarrow> engine_wire_ok (fst (forward_to_session e ch b))"
  by (simp add: forward_to_session_def case_prod_beta send_to_relay_keeps split: option.split)

lemma on_incoming_wire [wire_keeps]:
  assumes "engine_wire_ok e" shows "engine_wire_ok (fst (on_incoming e fr))"
proof -
  have "engine_wire_ok (fst (on_incoming_body e ch body))" for ch body
    using assms
    by (cases body) (simp_all add: on_incoming_body_def case_prod_beta on_incoming_begin_keeps
          on_incoming_end_keeps on_incoming_open_wire wire_keeps)
  then show ?thesis using assms
    by (simp add: on_incoming_def case_prod_beta split: sum.split)
qed

lemma wait_for_remote_close_nil:
  "e_incoming e = [] \<Longrightarrow> wait_for_remote_close d e = (e, Inl (CieTransportError TeIo))"
  by (simp add: wait_for_remote_close.simps)

lemma wait_for_remote_close_error:
  "e_incoming e = Inl err # rest \<Longrightarrow>
   wait_for_remote_close d e = (e\<lparr>e_incoming := rest\<rparr>, Inl (CieTransportError err))"
  by (simp add: wait_for_remote_close.simps)

lemma wait_for_remote_close_close:
  "e_incoming e = Inr fr # rest \<Longrightarrow> f_body fr = FClose cl \<Longrightarrow>
   wait_for_remote_close d e = (e\<lparr>e_incoming := rest\<rparr>, Inr (f_channel fr, cl))"
  by (simp add: wait_for_remote_close.simps)

lemma wait_for_remote_close_other:
  assumes "e_incoming e = Inr fr # rest" and "\<not> is_close (f_body fr)"
  shows "wait_for_remote_close d e =
    (let e1 = e\<lparr>e_incoming := rest\<rparr> in
     if d then wait_for_remote_close d e1
     else case snd (on_incoming e1 fr) of
            Inl err \<Rightarrow> (fst (on_incoming e1 fr), Inl err)
          | Inr _ \<Rightarrow> wait_for_remote_close d (fst (on_incoming e1 fr)))"
  using assms by (cases "f_body fr") (simp_all add: wait_for_remote_close.simps [of d e] Let_def)

lemma is_closeE: "is_close b \<Longrightarrow> (\<And>cl. b = FClose cl \<Longrightarrow> P) \<Longrightarrow> P"
  by (cases b) auto

lemmas wait_for_remote_close_cases = wait_for_remote_close_nil wait_for_remote_close_error
  wait_for_remote_close_close wait_for_remote_close_other

lemma wait_for_remote_close_invariant:
  assumes "P e" and "\<And>e q. P e \<Longrightarrow> P (e\<lparr>e_incoming := q\<rparr>)" and "\<And>e fr. P e \<Longrightarrow> P (fst (on_incoming e fr))"
  shows "P (fst (wait_for_remote_close d e))"
  using assms(1)
proof (induction "e_incoming e" arbitrary: e)
  case Nil
  then show ?case by (simp add: wait_for_remote_close_nil)
next
  case (Cons x rest)
  have q: "P (e\<lparr>e_incoming := rest\<rparr>)" using Cons.prems by (rule assms(2))
  show ?case
  proof (cases x)
    case (Inl err)
    with Cons.hyps(2) have "e_incoming e = Inl err # rest" by simp
    with q show ?thesis by (simp add: wait_for_remote_close_error)
  next
    case (Inr fr)
    note x = Cons.hyps(2) [symmetric, unfolded Inr]
    show ?thesis
    proof (cases "is_close (f_body fr)")
      case True
      then obtain cl where "f_body fr = FClose cl" by (rule is_closeE)
      with x q show ?thesis by (simp add: wait_for_remote_close_close)
    next
      case False
      have "P (fst (wait_for_remote_close d (e\<lparr>e_incoming := rest\<rparr>)))"
        using Cons.hyps(1) q by simp
      moreover have "P (fst (on_incoming (e\<lparr>e_incoming := rest\<rparr>) fr))" using q by (rule assms(3))
      moreover have "P (fst (wait_for_remote_close d (fst (on_incoming (e\<lparr>e_incoming := rest\<rparr>) fr))))"
        using Cons.hyps(1) [of "fst (on_incoming (e\<lparr>e_incoming := rest\<rparr>) fr)"] assms(3) [OF q]
        by (simp add: on_incoming_incoming)
      ultimately show ?thesis
        by (cases d) (simp_all add: wait_for_remote_close_other [OF x False] Let_def split: sum.split)
    qed
  qed
qed

lemma wait_for_remote_close_wire [wire_keeps]:
  "engine_wire_ok e \<Longrightarrow> engine_wire_ok (fst (wait_for_remote_close d e))"
  by (rule wait_for_remote_close_invariant) (simp_all add: on_incoming_wire)

lemma wait_and_finish_wire [wire_keeps]:
  assumes "engine_wire_ok e" shows "engine_wire_ok (fst (wait_and_finish d e))"
proof -
  have "engine_wire_ok (fst (engine_close_received e1 cl))" if "engine_wire_ok e1" for e1 cl
    using on_incoming_close_wire [OF that, of cl]
    by (simp add: engine_close_received_def case_prod_beta split: sum.split)
  with wait_for_remote_close_wire [OF assms, of d] show ?thesis
    by (simp add: wait_and_finish_def case_prod_beta split: sum.split)
qed

lemma close_connection_wire [wire_keeps]:
  "engine_wire_ok e \<Longrightarrow> engine_wire_ok (fst (close_connection e err))"
  by (simp add: close_connection_def Let_def case_prod_beta wire_keeps split: sum.split)

lemma on_error_wire [wire_keeps]:
  "engine_wire_ok e \<Longrightarrow> engine_wire_ok (fst (on_error e err))"
  by (simp add: on_error_def close_with_def case_prod_beta wire_keeps
        split: sum.split connection_inner_error.split)

lemma set_connection_stop_reason_keeps [simp]:
  "c_local_state (set_connection_stop_reason c r) = c_local_state c"
  by (simp add: set_connection_stop_reason_def split: option.split)

lemma on_control_close_wire [wire_keeps]:
  "engine_wire_ok e \<Longrightarrow> engine_wire_ok (fst (on_control_close e err))"
  by (simp add: on_control_close_def Let_def case_prod_beta wire_keeps split: sum.split option.split)

lemma on_control_wire:
  "engine_wire_ok e \<Longrightarrow> on_control key e ctl = Some (e', r) \<Longrightarrow> engine_wire_ok e'"
  using on_control_close_wire [of e]
  by (auto simp: on_control_def Let_def allocate_session_def deallocate_session_def
      split: connection_control.splits prod.splits option.splits if_splits) (metis fst_conv)

lemma finish_closing_wire:
  assumes "finish_closing e = Some e'" shows "engine_wire_ok e \<longrightarrow> engine_wire_ok e'"
proof (rule finish_closing.raw_induct [OF _ assms])
  fix f e e'
  assume IH: "\<And>e e'. f e = Some e' \<Longrightarrow> engine_wire_ok e \<longrightarrow> engine_wire_ok e'"
  assume "(let st = c_local_state (e_connection e) in
      if st \<in> {COpened, CCloseReceived, COpenSent, COpenPipe} then f (fst (on_control_close e None))
      else if st \<in> {CDiscarding, CCloseSent, COpenClosePipe, CClosePipe} then
        (case e_incoming e of
           Inr fr # rest \<Rightarrow> f (fst (on_incoming (e\<lparr>e_incoming := rest\<rparr>) fr))
         | Inl _ # rest \<Rightarrow> f (e\<lparr>e_incoming := rest\<rparr>)
         | [] \<Rightarrow> Some e)
      else Some e) = Some e'"
  then show "engine_wire_ok e \<longrightarrow> engine_wire_ok e'"
    by (auto simp: Let_def wire_keeps split: if_splits list.splits sum.splits dest!: IH)
qed

lemma select_branch_wire: "engine_wire_ok e \<Longrightarrow> select_branch e ev = Handled e' r \<Longrightarrow> engine_wire_ok e'"
proof -
  assume ok: "engine_wire_ok e" and s: "select_branch e ev = Handled e' r"
  have fst: "engine_wire_ok (fst x)" if "(case x of (a, b) \<Rightarrow> Handled a b) = Handled e' r" 
     "engine_wire_ok (fst x)" for x :: "engine \<times> (connection_inner_error + running)"
    using that by simp
  show ?thesis
    using ok s
    by (cases ev)
      (auto simp: select_branch_def on_stream_end_def case_prod_beta wire_keeps
          split: list.splits sum.splits option.splits if_splits
          dest: on_control_wire finish_closing_wire)
qed

definition loop_engine :: "loop_state \<Rightarrow> engine option" where
  "loop_engine l = (case l of LRunning e \<Rightarrow> Some e | LStopped e _ \<Rightarrow> Some e | _ \<Rightarrow> None)"

lemma event_step_wire: "engine_wire_ok e \<Longrightarrow> loop_engine (event_step e ev) = Some e' \<Longrightarrow> engine_wire_ok e'"
  using on_error_wire select_branch_wire [of e ev]
  by (auto simp: event_step_def loop_engine_def shutdown_def Let_def case_prod_beta wire_keeps
      split: handled.splits sum.splits running.splits)

lemma event_loop_wire:
  "engine_wire_ok e \<Longrightarrow> loop_engine (event_loop e evs) = Some e' \<Longrightarrow> engine_wire_ok e'"
proof (induction evs arbitrary: e)
  case Nil
  then show ?case by (simp add: loop_engine_def)
next
  case (Cons ev evs)
  then have run: "engine_wire_ok e1" if "event_step e ev = LRunning e1" for e1
    using event_step_wire [OF Cons.prems(1), of ev e1] that by (simp add: loop_engine_def)
  show ?case
  proof (cases "event_step e ev")
    case (LRunning e1)
    with Cons run show ?thesis by simp
  qed (use Cons.prems event_step_wire [OF Cons.prems(1), of ev e'] in \<open>simp_all add: loop_engine_def\<close>)
qed

text \<open>
  C31: Once an open connection has written a close frame it writes no performative of any session
  any more, whatever frames arrive, whatever the sessions queue and whatever is requested: behind a
  close frame only empty frames and further close frames can stand.
\<close>

theorem no_session_frame_after_close:
  assumes "c_local_state (e_connection e) = COpened"
    and "list_all (\<lambda>f. \<not> is_close (f_body f)) (sent (e_transport e))"
    and "loop_engine (event_loop e evs) = Some e'"
    and "sent (e_transport e') = pre @ c # post" and "is_close (f_body c)"
  shows "list_all (\<lambda>f. f_body f = FEmpty \<or> is_close (f_body f)) post"
proof -
  have none: "after_close w = []" if "list_all (\<lambda>f. \<not> is_close (f_body f)) w" for w
    using that by (induction w) auto
  have "engine_wire_ok e"
    using assms(1,2) none [OF assms(2)]
    by (auto simp: engine_wire_ok_def wire_ok_def close_sent_def list_all_iff list_ex_iff)
  then have "list_all quiet (after_close (pre @ c # post))"
    using event_loop_wire [OF _ assms(3)] assms(4) by (simp add: engine_wire_ok_def wire_ok_def)
  then show ?thesis using assms(5)
    by (auto simp: after_close_append quiet_def list_all_iff split: if_splits)
qed

theorem no_session_frame_after_close_witness:
  "let e = example_engine COpened [] [example_detach 3];
       evs = [EvControl 0 (CcClose (Some example_error)), EvHeartbeat]
   in \<exists>e' c post. loop_engine (event_loop e evs) = Some e'
      \<and> sent (e_transport e') = [wire_frame (example_detach 3), c] @ post
      \<and> is_close (f_body c) \<and> post \<noteq> [] \<and> list_all (\<lambda>f. f_body f = FEmpty \<or> is_close (f_body f)) post"
proof -
  define e where "e = example_engine COpened [] [example_detach 3]"
  define evs where "evs = [EvControl 0 (CcClose (Some example_error)), EvHeartbeat]"
  define e' where "e' = the (loop_engine (event_loop e evs))"
  have s: "loop_engine (event_loop e evs) = Some e'"
    "sent (e_transport e') = [wire_frame (example_detach 3)] @ close_frame (Some example_error) # [frame_empty]"
    unfolding e'_def
    by (simp_all add: e_def evs_def example_engine_defs event_step_def select_branch_def on_control_def
        on_control_close_def close_and_drain_def on_outgoing_session_frames_def chan_send_def
        engine_send_close_def send_close_def running_of_def on_heartbeat_def loop_engine_def
        set_connection_stop_reason_def)
  have "list_all (\<lambda>f. f_body f = FEmpty \<or> is_close (f_body f)) [frame_empty]"
    by (rule no_session_frame_after_close [OF _ _ s])
       (simp_all add: e_def example_engine_defs)
  moreover have "is_close (f_body (close_frame (Some example_error)))"
    by (simp add: close_frame_def frame_new_def)
  ultimately show ?thesis
    using s unfolding Let_def e_def [symmetric] evs_def [symmetric]
    by (intro exI [of _ e'] exI [of _ "close_frame (Some example_error)"] exI [of _ "[frame_empty]"]) simp
qed

section \<open>The close handshake\<close>

lemma drain_outgoing_all:
  assumes "c_local_state (e_connection e) \<in> {COpened, CCloseReceived}" and "rx_alive (e_transport e)"
  shows "drain_outgoing q e = (e\<lparr>e_outgoing := [],
    e_transport := (e_transport e)\<lparr>sent := sent (e_transport e) @ map wire_frame q\<rparr>\<rparr>, Inr ())"
  using assms
proof (induction q arbitrary: e)
  case Nil
  then show ?case by simp
next
  case (Cons fr q)
  let ?e1 = "e\<lparr>e_outgoing := q,
    e_transport := (e_transport e)\<lparr>sent := sent (e_transport e) @ [wire_frame fr]\<rparr>\<rparr>"
  have "on_outgoing_session_frames (e\<lparr>e_outgoing := q\<rparr>) fr = (?e1, Inr Continue)"
    using Cons.prems by (auto simp: on_outgoing_session_frames_def chan_send_def wire_frame_def)
  with Cons.IH [of ?e1] Cons.prems show ?case by simp
qed

definition remote_close_error :: "close_perf \<Rightarrow> connection_inner_error" where
  "remote_close_error cl =
     (case cl_error cl of Some err \<Rightarrow> CieRemoteClosedWithError err | None \<Rightarrow> CieRemoteClosed)"

definition remote_stop_reason :: "close_perf \<Rightarrow> connection_stop_reason" where
  "remote_stop_reason cl =
     (case cl_error cl of Some err \<Rightarrow> ConnRemoteClosedWithError err | None \<Rightarrow> ConnRemoteClosed)"

lemma on_incoming_close_opened:
  assumes "c_local_state (e_connection e) = COpened" and "rx_alive (e_transport e)"
    and "f_body fr = FClose cl"
  shows "on_incoming e fr =
    (e\<lparr>e_connection := (e_connection e)\<lparr>c_local_state := CEnd\<rparr>, e_outgoing := [],
       e_outgoing_closed := True,
       e_transport := (e_transport e)\<lparr>sent := sent (e_transport e) @ map wire_frame (e_outgoing e)
          @ [close_frame None]\<rparr>\<rparr>, Inl (remote_close_error cl))"
  using assms
  by (simp add: on_incoming_def on_incoming_body_def engine_on_incoming_close_def on_incoming_close_def
        Let_def close_and_drain_def drain_outgoing_all engine_send_close_def send_close_def chan_send_def
        close_frame_def remote_close_error_def split: option.split)

lemma close_connection_end: "c_local_state (e_connection e) = CEnd \<Longrightarrow> close_connection e err = (e, Inr Stop)"
  by (simp add: close_connection_def)

lemma on_error_remote_close_end:
  "c_local_state (e_connection e) = CEnd \<Longrightarrow> on_error e (remote_close_error cl) = (e, Inr Stop)"
  by (simp add: on_error_def remote_close_error_def close_connection_end split: option.split)

text \<open>
  C34: When the peer closes an open connection, the frames the sessions have already queued are
  written in order, the close is answered, and the loop stops with the peer's error; the reason the
  sessions observe is the peer's close unless a reason was recorded before.
\<close>

theorem remote_close_flushes_and_answers:
  assumes "c_local_state (e_connection e) = COpened" and "rx_alive (e_transport e)"
    and "e_incoming e = Inr fr # rest" and "f_body fr = FClose cl"
  shows "\<exists>e'. event_step e EvIncoming = LStopped e' (Inl (remote_close_error cl))
    \<and> sent (e_transport e') = sent (e_transport e) @ map wire_frame (e_outgoing e) @ [close_frame None]
    \<and> c_local_state (e_connection e') = CEnd
    \<and> c_connection_stop_reason (e_connection e') =
        Some (case c_connection_stop_reason (e_connection e) of
                Some reason \<Rightarrow> reason | None \<Rightarrow> remote_stop_reason cl)"
  using assms
  by (simp add: event_step_def select_branch_def on_incoming_close_opened [where cl = cl]
        on_error_remote_close_end shutdown_def Let_def)
     (simp add: set_connection_stop_reason_def remote_close_error_def remote_stop_reason_def
        split: option.split)

theorem remote_close_flushes_and_answers_witness:
  "\<exists>e'. event_step (example_engine COpened [Inr (close_frame (Some example_error))] [example_detach 3]) EvIncoming
      = LStopped e' (Inl (CieRemoteClosedWithError example_error))
    \<and> sent (e_transport e') = [wire_frame (example_detach 3), close_frame None]"
proof -
  have "f_body (close_frame (Some example_error)) = FClose \<lparr>cl_error = Some example_error\<rparr>"
    by (simp add: close_frame_def frame_new_def)
  from remote_close_flushes_and_answers
    [of "example_engine COpened [Inr (close_frame (Some example_error))] [example_detach 3]", OF _ _ _ this]
  show ?thesis by (auto simp: example_engine_def connection_new_def remote_close_error_def)
qed

lemma on_control_close_opened:
  assumes "c_local_state (e_connection e) = COpened" and "rx_alive (e_transport e)"
  shows "on_control_close e err =
    (e\<lparr>e_connection := (case err of
            Some x \<Rightarrow> set_connection_stop_reason (e_connection e) (ConnClosedWithError x)
          | None \<Rightarrow> e_connection e)\<lparr>c_local_state := if err = None then CCloseSent else CDiscarding\<rparr>,
       e_outgoing := [], e_outgoing_closed := True,
       e_transport := (e_transport e)\<lparr>sent := sent (e_transport e) @ map wire_frame (e_outgoing e)
          @ [close_frame err]\<rparr>\<rparr>, Inr Continue)"
  using assms
  by (cases err)
     (simp_all add: on_control_close_def Let_def close_and_drain_def drain_outgoing_all
        engine_send_close_def send_close_def chan_send_def close_frame_def running_of_def)

lemma discarding_step:
  assumes "c_local_state (e_connection e) = CDiscarding" and "\<not> is_close (f_body fr)"
    and "e_incoming e = Inr fr # rest"
  shows "event_step e EvIncoming = LRunning (e\<lparr>e_incoming := rest\<rparr>)"
  using assms by (simp add: event_step_def select_branch_def on_incoming_def)

lemma discarding_loop:
  "c_local_state (e_connection e) = CDiscarding \<Longrightarrow> list_all (\<lambda>fr. \<not> is_close (f_body fr)) frs \<Longrightarrow>
   e_incoming e = map Inr frs @ rest \<Longrightarrow>
   event_loop e (replicate (length frs) EvIncoming @ evs) = event_loop (e\<lparr>e_incoming := rest\<rparr>) evs"
proof (induction frs arbitrary: e)
  case Nil
  then have "e\<lparr>e_incoming := rest\<rparr> = e" by simp
  then show ?case by simp
next
  case (Cons fr frs)
  then show ?case
    using discarding_step [of e fr "map Inr frs @ rest"] Cons.IH [of "e\<lparr>e_incoming := map Inr frs @ rest\<rparr>"]
    by simp
qed

lemma close_sent_end_step:
  assumes "c_local_state (e_connection e) \<in> {CCloseSent, CDiscarding}"
    and "e_incoming e = Inr fr # rest" and "f_body fr = FClose \<lparr>cl_error = None\<rparr>"
  shows "event_step e EvIncoming =
    shutdown (e\<lparr>e_incoming := rest, e_connection := (e_connection e)\<lparr>c_local_state := CEnd\<rparr>\<rparr>) (Inr ())"
  using assms
  by (auto simp: event_step_def select_branch_def on_incoming_def on_incoming_body_def
        engine_on_incoming_close_def on_incoming_close_def Let_def running_of_def)



text \<open>
  After the local side has sent a close without error, a frame the peer had already on its way
  is refused: the loop then stops with \<open>IllegalState\<close> although the peer answers the close properly,
  and when two such frames are on their way the peer's close is not even read.
\<close>

lemma frame_in_flight_fails_close:
  assumes "c_local_state (e_connection e) = CCloseSent"
    and "link_level (sf_body fr1)" and "link_level (sf_body fr2)"
    and "f_body cl = FClose \<lparr>cl_error = None\<rparr>"
  shows "(e_incoming e = [Inr (wire_frame fr1), Inr cl] \<longrightarrow>
      (\<exists>e'. event_step e EvIncoming = LStopped e' (Inl CieIllegalState)
         \<and> c_local_state (e_connection e') = CEnd \<and> e_incoming e' = []))
    \<and> (e_incoming e = [Inr (wire_frame fr1), Inr (wire_frame fr2), Inr cl] \<longrightarrow>
      (\<exists>e'. event_step e EvIncoming = LStopped e' (Inl CieIllegalState)
         \<and> c_local_state (e_connection e') = CCloseSent \<and> e_incoming e' = [Inr cl]))"
proof (intro conjI impI)
  have refuse: "on_incoming e0 (wire_frame fr) = (e0, Inl CieIllegalState)"
    if "c_local_state (e_connection e0) = CCloseSent" "link_level (sf_body fr)" for e0 fr
    using that by (simp add: on_incoming_def on_incoming_body_link_level forward_to_session_def)
  note defs = event_step_def select_branch_def on_error_def close_with_def close_connection_def
    wait_and_finish_def shutdown_def Let_def
  show "\<exists>e'. event_step e EvIncoming = LStopped e' (Inl CieIllegalState)
         \<and> c_local_state (e_connection e') = CEnd \<and> e_incoming e' = []"
    if "e_incoming e = [Inr (wire_frame fr1), Inr cl]"
    using that assms by (simp add: defs refuse wait_for_remote_close_close
        engine_close_received_def on_incoming_close_def)
  show "\<exists>e'. event_step e EvIncoming = LStopped e' (Inl CieIllegalState)
         \<and> c_local_state (e_connection e') = CCloseSent \<and> e_incoming e' = [Inr cl]"
    if "e_incoming e = [Inr (wire_frame fr1), Inr (wire_frame fr2), Inr cl]"
    using that assms by (simp add: defs refuse wait_for_remote_close_other)
qed

lemma frame_in_flight_fails_close_witness:
  "\<exists>e'. event_step (example_engine CCloseSent [Inr (wire_frame (example_detach 3)), Inr (close_frame None)] [])
        EvIncoming = LStopped e' (Inl CieIllegalState) \<and> c_local_state (e_connection e') = CEnd"
proof -
  have cl: "f_body (close_frame None) = FClose \<lparr>cl_error = None\<rparr>"
    by (simp add: close_frame_def frame_new_def)
  have l: "link_level (sf_body (example_detach 3))" by (simp add: example_detach_def session_frame_new_def)
  have st: "c_local_state (e_connection (example_engine CCloseSent q r)) = CCloseSent" for q r
    by (simp add: example_engine_def connection_new_def)
  show ?thesis
    using frame_in_flight_fails_close [OF st l l cl,
        of "[Inr (wire_frame (example_detach 3)), Inr (close_frame None)]" "[]"]
    by (auto simp: example_engine_def)
qed

text \<open>
  What the engine writes after its close frame although nothing may follow it: a second request
  to close writes a second close frame, and a heartbeat after a close with an error writes an empty
  frame.
\<close>

lemma writes_after_close:
  assumes "rx_alive (e_transport e)" and "e_outgoing e = []"
  shows "(c_local_state (e_connection e) \<in> {CCloseSent, CDiscarding, CEnd} \<longrightarrow>
      sent (e_transport (fst (on_control_close e None))) = sent (e_transport e) @ [close_frame None])
    \<and> (c_local_state (e_connection e) = CDiscarding \<longrightarrow>
      sent (e_transport (fst (on_heartbeat e))) = sent (e_transport e) @ [frame_empty])"
proof (intro conjI impI)
  show "sent (e_transport (fst (on_control_close e None))) = sent (e_transport e) @ [close_frame None]"
    if "c_local_state (e_connection e) \<in> {CCloseSent, CDiscarding, CEnd}"
    using that assms
    by (auto simp: on_control_close_def close_and_drain_def engine_send_close_def send_close_def
        chan_send_def close_frame_def)
  show "sent (e_transport (fst (on_heartbeat e))) = sent (e_transport e) @ [frame_empty]"
    if "c_local_state (e_connection e) = CDiscarding"
    using that assms by (simp add: on_heartbeat_def chan_send_def)
qed

lemma writes_after_close_witness:
  "sent (e_transport (fst (on_control_close (example_engine CCloseSent [] []) None))) = [close_frame None]
   \<and> sent (e_transport (fst (on_heartbeat (example_engine CDiscarding [] [])))) = [frame_empty]"
  using writes_after_close [of "example_engine CCloseSent [] []"]
    writes_after_close [of "example_engine CDiscarding [] []"]
  by (simp add: example_engine_def connection_new_def)

section \<open>When every control sender is gone\<close>

lemma finish_closing_reading:
  assumes "c_local_state (e_connection e) \<in> {CCloseSent, CEnd}"
  shows "finish_closing e \<noteq> None"
  using assms
proof (induction "length (e_incoming e)" arbitrary: e)
  case 0
  then show ?case by (subst finish_closing.simps) (auto simp: Let_def)
next
  case (Suc n)
  then obtain x rest where x: "e_incoming e = x # rest" by (cases "e_incoming e") auto
  have keeps: "c_local_state (e_connection (fst (on_incoming e0 fr))) \<in> {CCloseSent, CEnd}"
    if "c_local_state (e_connection e0) = CCloseSent" for e0 fr
    using that
    by (cases "f_body fr")
       (simp_all add: on_incoming_def on_incoming_body_def case_prod_beta engine_on_incoming_open_def
          on_incoming_open_def forward_to_session_def conn_on_incoming_begin_def
          on_incoming_begin_inner_def conn_on_incoming_end_def engine_on_incoming_close_def
          on_incoming_close_def Let_def split: sum.split option.split)
  show ?case
  proof (cases "c_local_state (e_connection e) = CEnd")
    case True
    then show ?thesis by (subst finish_closing.simps) (simp add: Let_def)
  next
    case False
    with Suc.prems have st: "c_local_state (e_connection e) = CCloseSent" by simp
    show ?thesis
      using x Suc.hyps st keeps [of "e\<lparr>e_incoming := rest\<rparr>"]
      by (subst finish_closing.simps)
         (auto simp: Let_def on_incoming_incoming split: sum.split)
  qed
qed

lemma on_control_close_broken:
  assumes "\<not> rx_alive (e_transport e)"
  shows "\<not> rx_alive (e_transport (fst (on_control_close e None)))"
    and "c_local_state (e_connection (fst (on_control_close e None))) = c_local_state (e_connection e)"
proof -
  have "\<not> rx_alive (e_transport (fst (drain_outgoing q e0)))
      \<and> c_local_state (e_connection (fst (drain_outgoing q e0))) = c_local_state (e_connection e0)"
    if "\<not> rx_alive (e_transport e0)" for q e0
    using that by (induction q arbitrary: e0)
      (auto simp: on_outgoing_session_frames_def chan_send_def split: option.split)
  note d = this [of "e\<lparr>e_outgoing_closed := True\<rparr>" "e_outgoing e", simplified, OF assms]
  show "\<not> rx_alive (e_transport (fst (on_control_close e None)))"
    "c_local_state (e_connection (fst (on_control_close e None))) = c_local_state (e_connection e)"
    using d by (auto simp: on_control_close_def close_and_drain_def case_prod_beta engine_send_close_def
        send_close_def chan_send_def split: sum.split)
qed

lemma finish_closing_hangs:
  assumes "finish_closing e = Some e'"
  shows "c_local_state (e_connection e) \<in> {COpened, CCloseReceived} \<longrightarrow> rx_alive (e_transport e)"
proof (rule finish_closing.raw_induct [OF _ assms])
  fix f :: "engine \<Rightarrow> engine option" and e e' :: engine
  assume IH: "\<And>e e'. f e = Some e' \<Longrightarrow>
    c_local_state (e_connection e) \<in> {COpened, CCloseReceived} \<longrightarrow> rx_alive (e_transport e)"
  assume r: "(let st = c_local_state (e_connection e) in
      if st \<in> {COpened, CCloseReceived, COpenSent, COpenPipe} then f (fst (on_control_close e None))
      else if st \<in> {CDiscarding, CCloseSent, COpenClosePipe, CClosePipe} then
        (case e_incoming e of
           Inr fr # rest \<Rightarrow> f (fst (on_incoming (e\<lparr>e_incoming := rest\<rparr>) fr))
         | Inl _ # rest \<Rightarrow> f (e\<lparr>e_incoming := rest\<rparr>)
         | [] \<Rightarrow> Some e)
      else Some e) = Some e'"
  show "c_local_state (e_connection e) \<in> {COpened, CCloseReceived} \<longrightarrow> rx_alive (e_transport e)"
  proof (intro impI)
    assume st: "c_local_state (e_connection e) \<in> {COpened, CCloseReceived}"
    with r have "f (fst (on_control_close e None)) = Some e'" by (auto simp: Let_def)
    note IH [OF this]
    then show "rx_alive (e_transport e)"
      using on_control_close_broken [of e] st by (cases "rx_alive (e_transport e)") simp_all
  qed
qed



section \<open>Opening\<close>

text \<open>
  C35: Opening with a peer that answers with an open frame: one open frame is written, the
  connection is open, the channel limit is the smaller of the two, the largest frame written is
  the peer's limit and the largest frame read is the local one (neither below 512), and
  heartbeats are sent exactly when the peer announced a non-zero idle timeout.
\<close>

theorem engine_open_negotiates:
  assumes "c_local_state (e_connection e) = CHeaderExchange" and "rx_alive (e_transport e)"
    and "e_incoming e = Inr fr # rest" and "f_body fr = FOpen opn"
  shows "\<exists>e'. engine_open e = Inr e' \<and> c_local_state (e_connection e') = COpened
    \<and> sent (e_transport e') = sent (e_transport e) @ [frame_new 0 (FOpen (c_local_open (e_connection e)))]
    \<and> e_incoming e' = rest \<and> c_remote_open (e_connection e') = Some opn
    \<and> c_agreed_channel_max (e_connection e') =
        min (op_channel_max (c_local_open (e_connection e))) (op_channel_max opn)
    \<and> e_encoder_max e' + 4 = max 512 (unat (op_max_frame_size opn))
    \<and> e_decoder_max e' = max 512 (unat (op_max_frame_size (c_local_open (e_connection e))))
    \<and> (e_heartbeat e' = None \<longleftrightarrow> op_idle_time_out opn \<in> {None, Some 0})"
  using assms
  by (simp add: engine_open_def open_inner_def send_open_def chan_send_def Let_def on_incoming_open_def
        set_encoder_max_frame_size_def set_decoder_max_frame_size_def MIN_MAX_FRAME_SIZE_def
        split: option.split)

theorem engine_open_negotiates_witness:
  "\<exists>e'. engine_open (example_engine CHeaderExchange [Inr (frame_new 0 (FOpen example_open))] []) = Inr e'
      \<and> e_encoder_max e' + 4 = 1024 \<and> e_heartbeat e' \<noteq> None"
proof -
  have b: "f_body (frame_new 0 (FOpen example_open)) = FOpen example_open" by (simp add: frame_new_def)
  from engine_open_negotiates
    [of "example_engine CHeaderExchange [Inr (frame_new 0 (FOpen example_open))] []", OF _ _ _ b]
  show ?thesis by (auto simp: example_engine_def connection_new_def example_open_def)
qed

lemma wait_for_remote_close_empties:
  "c_local_state (e_connection e) = CClosePipe \<Longrightarrow> e_incoming e = replicate n (Inr frame_empty) \<Longrightarrow>
   snd (wait_for_remote_close False e) = Inl (CieTransportError TeIo)"
proof (induction n arbitrary: e)
  case 0
  then show ?case by (simp add: wait_for_remote_close_nil)
next
  case (Suc n)
  let ?e1 = "e\<lparr>e_incoming := replicate n (Inr frame_empty)\<rparr>"
  have "on_incoming ?e1 frame_empty = (?e1, Inr Continue)"
    using Suc.prems(1)
    by (simp add: on_incoming_def frame_empty_def on_incoming_body_def running_of_def)
  moreover have "\<not> is_close (f_body frame_empty)" by (simp add: frame_empty_def)
  ultimately show ?case
    using wait_for_remote_close_other [of e frame_empty "replicate n (Inr frame_empty)" False] Suc
    by simp
qed

text \<open>
  When the peer answers the open frame with a close, opening reports a transport error and not
  the peer's close or its error: having read the close, the engine sends its own and then waits for
  a second one until the stream ends.
\<close>

lemma engine_open_loses_remote_close:
  assumes "c_local_state (e_connection e) = CHeaderExchange" and "rx_alive (e_transport e)"
    and "e_incoming e = Inr fr # replicate n (Inr frame_empty)" and "f_body fr = FClose cl"
  shows "engine_open e = Inl (OeTransportError TeIo)"
proof -
  let ?e1 = "fst (open_inner (e\<lparr>e_heartbeat := None\<rparr>))"
  have o: "c_local_state (e_connection ?e1) = COpenSent" "rx_alive (e_transport ?e1)"
    "e_incoming ?e1 = replicate n (Inr frame_empty)"
    "\<exists>err. snd (open_inner (e\<lparr>e_heartbeat := None\<rparr>)) = Inl err"
    using assms by (simp_all add: open_inner_def send_open_def chan_send_def Let_def)
  define e2 where "e2 = fst (engine_send_close ?e1 None)"
  have e2: "engine_send_close ?e1 None = (e2, Inr ())" "c_local_state (e_connection e2) = CClosePipe"
    "e_incoming e2 = replicate n (Inr frame_empty)"
    unfolding e2_def using o
    by (simp_all add: engine_send_close_def send_close_def chan_send_def)
  have "snd (close_connection ?e1 None) = Inl (CieTransportError TeIo)"
    using wait_for_remote_close_empties [OF e2(2,3)]
    by (simp add: close_connection_def Let_def o(1) e2(1) wait_and_finish_def case_prod_beta)
  with o(4) show ?thesis by (auto simp: engine_open_def case_prod_beta)
qed

lemma engine_open_loses_remote_close_witness:
  "engine_open (example_engine CHeaderExchange [Inr (close_frame (Some example_error)), Inr frame_empty] [])
     = Inl (OeTransportError TeIo)"
proof -
  have b: "f_body (close_frame (Some example_error)) = FClose \<lparr>cl_error = Some example_error\<rparr>"
    by (simp add: close_frame_def frame_new_def)
  show ?thesis
    by (rule engine_open_loses_remote_close [where n = 1, OF _ _ _ b])
       (simp_all add: example_engine_def connection_new_def)
qed

end
