(* ===== verification/Codec.thy ===== *)
theory Codec
  imports Amqp_Types
begin

text \<open>
  The AMQP type system on the wire: format codes (serde_amqp/src/format_code.rs), the serializer
  (ser.rs) and the deserializer (de.rs) as they act on the untyped \<open>Value\<close>. The serializer's
  flags that outlive one value (\<open>non_native_type\<close>, \<open>seq_type\<close>) and the deserializer's
  \<open>elem_format_code\<close> are explicit state. Strings are UTF-8 byte strings; \<open>unreachable!()\<close> and
  errors are values. Capacity hints are left out: they do not change what is written.
\<close>

section \<open>Format codes\<close>

datatype encoding_code = CDescribedType | CNull | CBoolean | CBooleanTrue | CBooleanFalse | CUbyte
  | CUshort | CUint | CSmallUint | CUint0 | CUlong | CSmallUlong | CUlong0 | CByte | CShort | CInt
  | CSmallInt | CLong | CSmallLong | CFloat | CDouble | CDecimal32 | CDecimal64 | CDecimal128 | CChar
  | CTimestamp | CUuid | CVbin8 | CVbin32 | CStr8 | CStr32 | CSym8 | CSym32 | CList0 | CList8 | CList32
  | CMap8 | CMap32 | CArray8 | CArray32

fun code_byte :: "encoding_code \<Rightarrow> u8" where
  "code_byte CDescribedType = 0x00" | "code_byte CNull = 0x40" | "code_byte CBoolean = 0x56"
| "code_byte CBooleanTrue = 0x41" | "code_byte CBooleanFalse = 0x42" | "code_byte CUbyte = 0x50"
| "code_byte CUshort = 0x60" | "code_byte CUint = 0x70" | "code_byte CSmallUint = 0x52"
| "code_byte CUint0 = 0x43" | "code_byte CUlong = 0x80" | "code_byte CSmallUlong = 0x53"
| "code_byte CUlong0 = 0x44" | "code_byte CByte = 0x51" | "code_byte CShort = 0x61"
| "code_byte CInt = 0x71" | "code_byte CSmallInt = 0x54" | "code_byte CLong = 0x81"
| "code_byte CSmallLong = 0x55" | "code_byte CFloat = 0x72" | "code_byte CDouble = 0x82"
| "code_byte CDecimal32 = 0x74" | "code_byte CDecimal64 = 0x84" | "code_byte CDecimal128 = 0x94"
| "code_byte CChar = 0x73" | "code_byte CTimestamp = 0x83" | "code_byte CUuid = 0x98"
| "code_byte CVbin8 = 0xa0" | "code_byte CVbin32 = 0xb0" | "code_byte CStr8 = 0xa1"
| "code_byte CStr32 = 0xb1" | "code_byte CSym8 = 0xa3" | "code_byte CSym32 = 0xb3"
| "code_byte CList0 = 0x45" | "code_byte CList8 = 0xc0" | "code_byte CList32 = 0xd0"
| "code_byte CMap8 = 0xc1" | "code_byte CMap32 = 0xd1" | "code_byte CArray8 = 0xe0"
| "code_byte CArray32 = 0xf0"

definition code_table :: "encoding_code list" where
  "code_table = [CDescribedType, CNull, CBoolean, CBooleanTrue, CBooleanFalse, CUbyte, CUshort, CUint,
     CSmallUint, CUint0, CUlong, CSmallUlong, CUlong0, CByte, CShort, CInt, CSmallInt, CLong, CSmallLong,
     CFloat, CDouble, CDecimal32, CDecimal64, CDecimal128, CChar, CTimestamp, CUuid, CVbin8, CVbin32,
     CStr8, CStr32, CSym8, CSym32, CList0, CList8, CList32, CMap8, CMap32, CArray8, CArray32]"

definition try_code :: "u8 \<Rightarrow> encoding_code option" where
  "try_code b = find (\<lambda>c. code_byte c = b) code_table"

lemma try_code_byte [simp]: "try_code (code_byte c) = Some c"
  by (cases c) (simp_all add: try_code_def code_table_def)

declare code_byte.simps [simp del]

section \<open>Strings\<close>

definition string_bytes :: "string \<Rightarrow> bytes" where
  "string_bytes s = map (\<lambda>c. word_of_nat (of_char c)) s"

definition bytes_string :: "bytes \<Rightarrow> string" where
  "bytes_string bs = map (\<lambda>b. char_of (unat b)) bs"

lemma length_string_bytes [simp]: "length (string_bytes s) = length s"
  by (simp add: string_bytes_def)

lemma bytes_string_bytes [simp]: "bytes_string (string_bytes s) = s"
proof -
  have "of_char c < (256 :: nat)" for c by simp
  then have "char_of (unat (word_of_nat (of_char c) :: u8)) = c" for c
    by (simp add: unsigned_of_nat take_bit_nat_eq_self)
  then show ?thesis by (simp add: bytes_string_def string_bytes_def o_def map_idI)
qed

definition cont_byte :: "u8 \<Rightarrow> bool" where
  "cont_byte b = (0x80 \<le> b \<and> b \<le> 0xBF)"

text \<open>\<open>String::from_utf8\<close>: the well-formed byte sequences of the Unicode standard.\<close>

fun utf8_valid :: "bytes \<Rightarrow> bool" where
  "utf8_valid [] = True"
| "utf8_valid (b0 # bs) =
     (if b0 \<le> 0x7F then utf8_valid bs
      else case bs of
        [] \<Rightarrow> False
      | b1 # bs1 \<Rightarrow>
          if 0xC2 \<le> b0 \<and> b0 \<le> 0xDF then cont_byte b1 \<and> utf8_valid bs1
          else (case bs1 of
             [] \<Rightarrow> False
           | b2 # bs2 \<Rightarrow>
               if 0xE0 \<le> b0 \<and> b0 \<le> 0xEF then
                 cont_byte b1 \<and> cont_byte b2 \<and> (b0 = 0xE0 \<longrightarrow> 0xA0 \<le> b1) \<and> (b0 = 0xED \<longrightarrow> b1 \<le> 0x9F)
                 \<and> utf8_valid bs2
               else (case bs2 of
                  [] \<Rightarrow> False
                | b3 # bs3 \<Rightarrow>
                    0xF0 \<le> b0 \<and> b0 \<le> 0xF4 \<and> cont_byte b1 \<and> cont_byte b2 \<and> cont_byte b3
                    \<and> (b0 = 0xF0 \<longrightarrow> 0x90 \<le> b1) \<and> (b0 = 0xF4 \<longrightarrow> b1 \<le> 0x8F) \<and> utf8_valid bs3)))"

text \<open>\<open>v.chars().count()\<close> of a string: the bytes that start a character.\<close>

definition chars_count :: "bytes \<Rightarrow> nat" where
  "chars_count bs = length (filter (\<lambda>b. \<not> cont_byte b) bs)"

definition is_char :: "u32 \<Rightarrow> bool" where
  "is_char n = (n < 0xD800 \<or> 0xE000 \<le> n \<and> n \<le> 0x10FFFF)"

section \<open>Serializer\<close>

datatype is_array_element = NoElement | FirstElement | OtherElement

datatype non_native_type = NnDec32 | NnDec64 | NnDec128 | NnSymbol | NnSymbolRef | NnTimestamp
  | NnUuid | NnLazyValue

datatype sequence_type = SeqList | SeqArray | SeqTransparentVec

datatype ser_error = TooLong | SerUnreachable

record serializer =
  se_non_native :: "non_native_type option"
  se_seq :: "sequence_type option"

definition serializer_new :: serializer where
  "serializer_new = \<lparr>se_non_native = None, se_seq = None\<rparr>"

definition U8_MAX_MINUS_1 :: nat where "U8_MAX_MINUS_1 = 254"

definition U32_MAX_MINUS_4 :: nat where "U32_MAX_MINUS_4 = 4294967291"

text \<open>The code is written unless the value is an array element after the first.\<close>

fun with_code :: "is_array_element \<Rightarrow> encoding_code \<Rightarrow> bytes \<Rightarrow> bytes" where
  "with_code OtherElement c body = body"
| "with_code _ c body = code_byte c # body"

fun serialize_bool :: "is_array_element \<Rightarrow> bool \<Rightarrow> bytes" where
  "serialize_bool NoElement v = [code_byte (if v then CBooleanTrue else CBooleanFalse)]"
| "serialize_bool m v = with_code m CBoolean [if v then 1 else 0]"

fun serialize_u32 :: "is_array_element \<Rightarrow> u32 \<Rightarrow> bytes" where
  "serialize_u32 NoElement v =
     (if v = 0 then [code_byte CUint0]
      else if v \<le> 255 then [code_byte CSmallUint, ucast v]
      else code_byte CUint # be_bytes 4 (unat v))"
| "serialize_u32 m v = with_code m CUint (be_bytes 4 (unat v))"

fun serialize_u64 :: "is_array_element \<Rightarrow> u64 \<Rightarrow> bytes" where
  "serialize_u64 NoElement v =
     (if v = 0 then [code_byte CUlong0]
      else if v \<le> 255 then [code_byte CSmallUlong, ucast v]
      else code_byte CUlong # be_bytes 8 (unat v))"
| "serialize_u64 m v = with_code m CUlong (be_bytes 8 (unat v))"

definition small_signed :: "'a::len word \<Rightarrow> bool" where
  "small_signed v = (- 128 \<le> sint v \<and> sint v \<le> 127)"

fun serialize_i32 :: "is_array_element \<Rightarrow> u32 \<Rightarrow> bytes" where
  "serialize_i32 NoElement v =
     (if small_signed v then [code_byte CSmallInt, ucast v] else code_byte CInt # be_bytes 4 (unat v))"
| "serialize_i32 m v = with_code m CInt (be_bytes 4 (unat v))"

definition serialize_i64 ::
    "is_array_element \<Rightarrow> serializer \<Rightarrow> u64 \<Rightarrow> ser_error + serializer \<times> bytes" where
  "serialize_i64 m se v =
     (case se_non_native se of
        None \<Rightarrow> Inr (se, if m = NoElement
                         then (if small_signed v then [code_byte CSmallLong, ucast v]
                               else code_byte CLong # be_bytes 8 (unat v))
                         else with_code m CLong (be_bytes 8 (unat v)))
      | Some NnTimestamp \<Rightarrow> Inr (se, with_code m CTimestamp (be_bytes 8 (unat v)))
      | _ \<Rightarrow> Inl SerUnreachable)"

text \<open>A variable-width value outside of an array: one size byte up to 254, four above.\<close>

definition write_variable :: "encoding_code \<Rightarrow> encoding_code \<Rightarrow> bytes \<Rightarrow> ser_error + bytes" where
  "write_variable c8 c32 v =
     (if length v \<le> U8_MAX_MINUS_1 then Inr (code_byte c8 # be_bytes 1 (length v) @ v)
      else if length v \<le> U32_MAX_MINUS_4 then Inr (code_byte c32 # be_bytes 4 (length v) @ v)
      else Inl TooLong)"

definition serialize_str ::
    "is_array_element \<Rightarrow> serializer \<Rightarrow> bytes \<Rightarrow> ser_error + serializer \<times> bytes" where
  "serialize_str m se v =
     (if se_non_native se \<in> {Some NnSymbol, Some NnSymbolRef} then
        (if m = NoElement then
           (case write_variable CSym8 CSym32 v of
              Inl e \<Rightarrow> Inl e | Inr bs \<Rightarrow> Inr (se\<lparr>se_non_native := None\<rparr>, bs))
         else Inr (se, with_code m CSym32 (be_bytes 4 (length v) @ v)))
      else if se_non_native se = None then
        (if m = NoElement then
           (case write_variable CStr8 CStr32 v of Inl e \<Rightarrow> Inl e | Inr bs \<Rightarrow> Inr (se, bs))
         else Inr (se, with_code m CStr32 (be_bytes 4 (chars_count v) @ v)))
      else Inl SerUnreachable)"

definition serialize_bytes ::
    "is_array_element \<Rightarrow> serializer \<Rightarrow> bytes \<Rightarrow> ser_error + serializer \<times> bytes" where
  "serialize_bytes m se v =
     (case se_non_native se of
        None \<Rightarrow>
          (if m = NoElement then
             (case write_variable CVbin8 CVbin32 v of Inl e \<Rightarrow> Inl e | Inr bs \<Rightarrow> Inr (se, bs))
           else Inr (se, with_code m CVbin32 (be_bytes 4 (length v) @ v)))
      | Some NnDec32 \<Rightarrow> Inr (se\<lparr>se_non_native := None\<rparr>, with_code m CDecimal32 v)
      | Some NnDec64 \<Rightarrow> Inr (se\<lparr>se_non_native := None\<rparr>, with_code m CDecimal64 v)
      | Some NnDec128 \<Rightarrow> Inr (se\<lparr>se_non_native := None\<rparr>, with_code m CDecimal128 v)
      | Some NnUuid \<Rightarrow> Inr (se\<lparr>se_non_native := None\<rparr>, with_code m CUuid v)
      | Some NnLazyValue \<Rightarrow> Inr (se, v)
      | _ \<Rightarrow> Inl SerUnreachable)"

text \<open>The header of a compound value: size and count behind an 8-bit or a 32-bit code.\<close>

definition write_compound ::
    "encoding_code \<Rightarrow> encoding_code \<Rightarrow> is_array_element \<Rightarrow> nat \<Rightarrow> bytes \<Rightarrow> ser_error + bytes" where
  "write_compound c8 c32 m num buf =
     (let len = length buf in
      if len \<le> U8_MAX_MINUS_1 then
        Inr (with_code m c8 (be_bytes 1 (len + 1) @ be_bytes 1 num @ buf))
      else if len \<le> U32_MAX_MINUS_4 then
        Inr (with_code m c32 (be_bytes 4 (len + 4) @ be_bytes 4 num @ buf))
      else Inl TooLong)"

definition write_list :: "is_array_element \<Rightarrow> nat \<Rightarrow> bytes \<Rightarrow> ser_error + bytes" where
  "write_list m num buf = (if buf = [] then Inr [code_byte CList0] else write_compound CList8 CList32 m num buf)"

definition write_map :: "is_array_element \<Rightarrow> nat \<Rightarrow> bytes \<Rightarrow> ser_error + bytes" where
  "write_map = write_compound CMap8 CMap32"

definition write_array :: "is_array_element \<Rightarrow> nat \<Rightarrow> bytes \<Rightarrow> ser_error + bytes" where
  "write_array = write_compound CArray8 CArray32"

fun serialize_descriptor ::
    "is_array_element \<Rightarrow> serializer \<Rightarrow> descriptor \<Rightarrow> ser_error + serializer \<times> bytes" where
  "serialize_descriptor m se (DName name) =
     (case serialize_str m (se\<lparr>se_non_native := Some NnSymbol\<rparr>) (string_bytes name) of
        Inl e \<Rightarrow> Inl e
      | Inr (se1, bs) \<Rightarrow> Inr (se1, code_byte CDescribedType # bs))"
| "serialize_descriptor m se (DCode code) = Inr (se, code_byte CDescribedType # serialize_u64 m code)"

text \<open>
  \<open>Value::serialize\<close>, the elements of a sequence (\<open>SeqSerializer\<close>, \<open>n\<close> counting the elements
  before) and the entries of a map (\<open>MapSerializer::serialize_entry\<close>).
\<close>

function serialize_value ::
    "is_array_element \<Rightarrow> serializer \<Rightarrow> amqp_value \<Rightarrow> ser_error + serializer \<times> bytes"
  and serialize_elements :: "sequence_type option \<Rightarrow> nat \<Rightarrow> amqp_value list \<Rightarrow> ser_error + bytes"
  and serialize_entries :: "(amqp_value \<times> amqp_value) list \<Rightarrow> ser_error + bytes" where
  "serialize_value m se (VDescribed d v) =
     (case serialize_descriptor m se d of
        Inl e \<Rightarrow> Inl e
      | Inr (se1, bs1) \<Rightarrow>
          (case serialize_value m se1 v of
             Inl e \<Rightarrow> Inl e
           | Inr (se2, bs2) \<Rightarrow> Inr (se2, bs1 @ bs2)))"
| "serialize_value m se VNull = Inr (se, [code_byte CNull])"
| "serialize_value m se (VBool b) = Inr (se, serialize_bool m b)"
| "serialize_value m se (VUbyte v) = Inr (se, with_code m CUbyte [v])"
| "serialize_value m se (VUshort v) = Inr (se, with_code m CUshort (be_bytes 2 (unat v)))"
| "serialize_value m se (VUint v) = Inr (se, serialize_u32 m v)"
| "serialize_value m se (VUlong v) = Inr (se, serialize_u64 m v)"
| "serialize_value m se (VByte v) = Inr (se, with_code m CByte [v])"
| "serialize_value m se (VShort v) = Inr (se, with_code m CShort (be_bytes 2 (unat v)))"
| "serialize_value m se (VInt v) = Inr (se, serialize_i32 m v)"
| "serialize_value m se (VLong v) = serialize_i64 m se v"
| "serialize_value m se (VFloat v) = Inr (se, with_code m CFloat (be_bytes 4 (unat v)))"
| "serialize_value m se (VDouble v) = Inr (se, with_code m CDouble (be_bytes 8 (unat v)))"
| "serialize_value m se (VDecimal32 v) = serialize_bytes m (se\<lparr>se_non_native := Some NnDec32\<rparr>) v"
| "serialize_value m se (VDecimal64 v) = serialize_bytes m (se\<lparr>se_non_native := Some NnDec64\<rparr>) v"
| "serialize_value m se (VDecimal128 v) = serialize_bytes m (se\<lparr>se_non_native := Some NnDec128\<rparr>) v"
| "serialize_value m se (VChar v) = Inr (se, with_code m CChar (be_bytes 4 (unat v)))"
| "serialize_value m se (VTimestamp v) = serialize_i64 m (se\<lparr>se_non_native := Some NnTimestamp\<rparr>) v"
| "serialize_value m se (VUuid v) = serialize_bytes m (se\<lparr>se_non_native := Some NnUuid\<rparr>) v"
| "serialize_value m se (VBinary v) = serialize_bytes m se v"
| "serialize_value m se (VString v) = serialize_str m se (string_bytes v)"
| "serialize_value m se (VSymbol v) =
     serialize_str m (se\<lparr>se_non_native := Some NnSymbol\<rparr>) (string_bytes v)"
| "serialize_value m se (VList vs) =
     (case serialize_elements (se_seq se) 0 vs of
        Inl e \<Rightarrow> Inl e
      | Inr buf \<Rightarrow>
          (case (case se_seq se of
                   Some SeqArray \<Rightarrow> write_array m (length vs) buf
                 | Some SeqTransparentVec \<Rightarrow> Inr buf
                 | _ \<Rightarrow> write_list m (length vs) buf) of
             Inl e \<Rightarrow> Inl e | Inr bs \<Rightarrow> Inr (se, bs)))"
| "serialize_value m se (VMap kvs) =
     (case serialize_entries kvs of
        Inl e \<Rightarrow> Inl e
      | Inr buf \<Rightarrow>
          (case write_map m (2 * length kvs) buf of Inl e \<Rightarrow> Inl e | Inr bs \<Rightarrow> Inr (se, bs)))"
| "serialize_value m se (VArray vs) =
     (case serialize_elements (Some SeqArray) 0 vs of
        Inl e \<Rightarrow> Inl e
      | Inr buf \<Rightarrow>
          (case write_array m (length vs) buf of
             Inl e \<Rightarrow> Inl e | Inr bs \<Rightarrow> Inr (se\<lparr>se_seq := Some SeqArray\<rparr>, bs)))"
| "serialize_elements sq n [] = Inr []"
| "serialize_elements sq n (v # vs) =
     (case serialize_value (if sq = Some SeqArray then (if n = 0 then FirstElement else OtherElement)
                            else NoElement) serializer_new v of
        Inl e \<Rightarrow> Inl e
      | Inr (_, bs) \<Rightarrow>
          (case serialize_elements sq (Suc n) vs of Inl e \<Rightarrow> Inl e | Inr bs' \<Rightarrow> Inr (bs @ bs')))"
| "serialize_entries [] = Inr []"
| "serialize_entries ((k, v) # kvs) =
     (case serialize_value NoElement serializer_new k of
        Inl e \<Rightarrow> Inl e
      | Inr (se, bs1) \<Rightarrow>
          (case serialize_value NoElement se v of
             Inl e \<Rightarrow> Inl e
           | Inr (_, bs2) \<Rightarrow>
               (case serialize_entries kvs of Inl e \<Rightarrow> Inl e | Inr bs3 \<Rightarrow> Inr (bs1 @ bs2 @ bs3))))"
  by pat_completeness auto
termination
  by (relation "measure (\<lambda>x. case x of
        Inl (m, se, v) \<Rightarrow> size v
      | Inr (Inl (sq, n, vs)) \<Rightarrow> size_list size vs
      | Inr (Inr kvs) \<Rightarrow> size_list (size_prod size size) kvs)") auto

definition to_vec :: "amqp_value \<Rightarrow> ser_error + bytes" where
  "to_vec v = (case serialize_value NoElement serializer_new v of Inl e \<Rightarrow> Inl e | Inr (_, bs) \<Rightarrow> Inr bs)"

section \<open>Deserializer\<close>

datatype de_error = UnexpectedEof | InvalidFormatCode | InvalidValue | InvalidUtf8Encoding
  | InvalidLength | DeCustom | OutOfFuel

definition read_byte :: "bytes \<Rightarrow> de_error + u8 \<times> bytes" where
  "read_byte bs = (case bs of [] \<Rightarrow> Inl UnexpectedEof | b # rest \<Rightarrow> Inr (b, rest))"

definition read_bytes :: "nat \<Rightarrow> bytes \<Rightarrow> de_error + bytes \<times> bytes" where
  "read_bytes n bs = (if n \<le> length bs then Inr (take n bs, drop n bs) else Inl UnexpectedEof)"

text \<open>
  \<open>get_elem_code_or_read_format_code\<close>: inside an array the code is the element code. An unknown
  code is \<open>err\<close>: \<open>InvalidFormatCode\<close> where it is read as a code, a custom error where it selects a
  variant of \<open>Value\<close> or \<open>Descriptor\<close>.
\<close>

definition elem_code_or_read ::
    "de_error \<Rightarrow> encoding_code option \<Rightarrow> bytes \<Rightarrow> de_error + encoding_code \<times> bytes" where
  "elem_code_or_read err ec bs =
     (case ec of
        Some c \<Rightarrow> Inr (c, bs)
      | None \<Rightarrow> (case bs of
                    [] \<Rightarrow> Inl UnexpectedEof
                  | b # rest \<Rightarrow> (case try_code b of None \<Rightarrow> Inl err | Some c \<Rightarrow> Inr (c, rest))))"

definition read_be :: "nat \<Rightarrow> bytes \<Rightarrow> de_error + nat \<times> bytes" where
  "read_be n bs = (case read_bytes n bs of Inl e \<Rightarrow> Inl e | Inr (b, rest) \<Rightarrow> Inr (be_nat b, rest))"

text \<open>A sized byte string: the size takes \<open>w\<close> bytes.\<close>

definition read_sized :: "nat \<Rightarrow> bytes \<Rightarrow> de_error + bytes \<times> bytes" where
  "read_sized w bs = (case read_be w bs of Inl e \<Rightarrow> Inl e | Inr (n, rest) \<Rightarrow> read_bytes n rest)"

definition read_utf8 :: "nat \<Rightarrow> bytes \<Rightarrow> de_error + string \<times> bytes" where
  "read_utf8 w bs =
     (case read_sized w bs of
        Inl e \<Rightarrow> Inl e
      | Inr (b, rest) \<Rightarrow> if utf8_valid b then Inr (bytes_string b, rest) else Inl InvalidUtf8Encoding)"

definition map_value :: "('a \<Rightarrow> amqp_value) \<Rightarrow> de_error + 'a \<times> bytes \<Rightarrow> de_error + amqp_value \<times> bytes" where
  "map_value f r = (case r of Inl e \<Rightarrow> Inl e | Inr (x, rest) \<Rightarrow> Inr (f x, rest))"

text \<open>
  The parse functions of the scalar types behind a known code (\<open>parse_bool\<close>, \<open>parse_i8\<close>, ...):
  \<open>None\<close> for the codes of compound and described values.
\<close>

fun parse_scalar :: "encoding_code \<Rightarrow> bytes \<Rightarrow> (de_error + amqp_value \<times> bytes) option" where
  "parse_scalar CNull bs = Some (Inr (VNull, bs))"
| "parse_scalar CBooleanTrue bs = Some (Inr (VBool True, bs))"
| "parse_scalar CBooleanFalse bs = Some (Inr (VBool False, bs))"
| "parse_scalar CBoolean bs =
     Some (case read_byte bs of
             Inl e \<Rightarrow> Inl e
           | Inr (b, rest) \<Rightarrow> if b = 0 then Inr (VBool False, rest) else if b = 1 then Inr (VBool True, rest)
                             else Inl InvalidValue)"
| "parse_scalar CUbyte bs = Some (map_value VUbyte (read_byte bs))"
| "parse_scalar CUshort bs = Some (map_value (\<lambda>n. VUshort (word_of_nat n)) (read_be 2 bs))"
| "parse_scalar CUint bs = Some (map_value (\<lambda>n. VUint (word_of_nat n)) (read_be 4 bs))"
| "parse_scalar CSmallUint bs = Some (map_value (\<lambda>b. VUint (ucast b)) (read_byte bs))"
| "parse_scalar CUint0 bs = Some (Inr (VUint 0, bs))"
| "parse_scalar CUlong bs = Some (map_value (\<lambda>n. VUlong (word_of_nat n)) (read_be 8 bs))"
| "parse_scalar CSmallUlong bs = Some (map_value (\<lambda>b. VUlong (ucast b)) (read_byte bs))"
| "parse_scalar CUlong0 bs = Some (Inr (VUlong 0, bs))"
| "parse_scalar CByte bs = Some (map_value VByte (read_byte bs))"
| "parse_scalar CShort bs = Some (map_value (\<lambda>n. VShort (word_of_nat n)) (read_be 2 bs))"
| "parse_scalar CInt bs = Some (map_value (\<lambda>n. VInt (word_of_nat n)) (read_be 4 bs))"
| "parse_scalar CSmallInt bs = Some (map_value (\<lambda>b. VInt (scast b)) (read_byte bs))"
| "parse_scalar CLong bs = Some (map_value (\<lambda>n. VLong (word_of_nat n)) (read_be 8 bs))"
| "parse_scalar CSmallLong bs = Some (map_value (\<lambda>b. VLong (scast b)) (read_byte bs))"
| "parse_scalar CFloat bs = Some (map_value (\<lambda>n. VFloat (word_of_nat n)) (read_be 4 bs))"
| "parse_scalar CDouble bs = Some (map_value (\<lambda>n. VDouble (word_of_nat n)) (read_be 8 bs))"
| "parse_scalar CDecimal32 bs = Some (map_value VDecimal32 (read_bytes 4 bs))"
| "parse_scalar CDecimal64 bs = Some (map_value VDecimal64 (read_bytes 8 bs))"
| "parse_scalar CDecimal128 bs = Some (map_value VDecimal128 (read_bytes 16 bs))"
| "parse_scalar CChar bs =
     Some (case read_be 4 bs of
             Inl e \<Rightarrow> Inl e
           | Inr (n, rest) \<Rightarrow> if is_char (word_of_nat n) then Inr (VChar (word_of_nat n), rest)
                             else Inl InvalidValue)"
| "parse_scalar CTimestamp bs = Some (map_value (\<lambda>n. VTimestamp (word_of_nat n)) (read_be 8 bs))"
| "parse_scalar CUuid bs = Some (map_value VUuid (read_bytes 16 bs))"
| "parse_scalar CVbin8 bs = Some (map_value VBinary (read_sized 1 bs))"
| "parse_scalar CVbin32 bs = Some (map_value VBinary (read_sized 4 bs))"
| "parse_scalar CStr8 bs = Some (map_value VString (read_utf8 1 bs))"
| "parse_scalar CStr32 bs = Some (map_value VString (read_utf8 4 bs))"
| "parse_scalar CSym8 bs = Some (map_value VSymbol (read_utf8 1 bs))"
| "parse_scalar CSym32 bs = Some (map_value VSymbol (read_utf8 4 bs))"
| "parse_scalar _ bs = None"

text \<open>\<open>Descriptor::deserialize\<close>: the byte 0x00 from the reader, then a symbol or a ulong.\<close>

definition deserialize_descriptor ::
    "encoding_code option \<Rightarrow> bytes \<Rightarrow> de_error + descriptor \<times> bytes" where
  "deserialize_descriptor ec bs =
     (case bs of
        [] \<Rightarrow> Inl DeCustom
      | b # rest \<Rightarrow>
          if try_code b \<noteq> Some CDescribedType then Inl InvalidFormatCode
          else (case elem_code_or_read DeCustom ec rest of
                  Inl e \<Rightarrow> Inl e
                | Inr (c, rest1) \<Rightarrow>
                    if c \<notin> {CSym8, CSym32, CUlong, CSmallUlong, CUlong0} then Inl DeCustom
                    else (case parse_scalar c rest1 of
                            Some (Inr (VSymbol name, rest2)) \<Rightarrow> Inr (DName name, rest2)
                          | Some (Inr (VUlong code, rest2)) \<Rightarrow> Inr (DCode code, rest2)
                          | Some (Inl e) \<Rightarrow> Inl e
                          | _ \<Rightarrow> Inl DeCustom)))"

definition MAX_ARRAY_COUNT :: nat where "MAX_ARRAY_COUNT = 65536"

text \<open>\<open>usize\<close> subtraction of a release build on a 64-bit target.\<close>

definition usize_sub :: "nat \<Rightarrow> nat \<Rightarrow> nat" where
  "usize_sub a b = (if b \<le> a then a - b else a + 2 ^ 64 - b)"

text \<open>
  A deserializer of one value maps the element code and the input to the value, the element code
  afterwards and the rest of the input. \<open>de_list\<close>, \<open>de_array\<close> and \<open>de_entries\<close> are the loops over
  \<open>ListAccess\<close>, \<open>ArrayAccess\<close> (which checks the size against what was consumed) and \<open>MapAccess\<close>.
\<close>

type_synonym 'a deserializer =
  "encoding_code option \<Rightarrow> bytes \<Rightarrow> de_error + 'a \<times> encoding_code option \<times> bytes"

fun de_list :: "'a deserializer \<Rightarrow> nat \<Rightarrow> 'a list deserializer" where
  "de_list d 0 ec bs = Inr ([], ec, bs)"
| "de_list d (Suc n) ec bs =
     (case d ec bs of
        Inl e \<Rightarrow> Inl e
      | Inr (v, ec1, bs1) \<Rightarrow>
          (case de_list d n ec1 bs1 of
             Inl e \<Rightarrow> Inl e
           | Inr (vs, ec2, bs2) \<Rightarrow> Inr (v # vs, ec2, bs2)))"

fun de_array :: "'a deserializer \<Rightarrow> nat \<Rightarrow> nat \<Rightarrow> nat \<Rightarrow> 'a list deserializer" where
  "de_array d start limit 0 ec bs = Inr ([], None, bs)"
| "de_array d start limit (Suc n) ec bs =
     (case d ec bs of
        Inl e \<Rightarrow> Inl e
      | Inr (v, ec1, bs1) \<Rightarrow>
          if limit < start - length bs1 then Inl InvalidValue
          else (case de_array d start limit n ec1 bs1 of
                  Inl e \<Rightarrow> Inl e
                | Inr (vs, ec2, bs2) \<Rightarrow> Inr (v # vs, ec2, bs2)))"

text \<open>\<open>IndexMap::insert\<close>: a key that is present keeps its place and gets the new value.\<close>

fun index_map_insert :: "('k \<times> 'v) list \<Rightarrow> 'k \<Rightarrow> 'v \<Rightarrow> ('k \<times> 'v) list" where
  "index_map_insert [] k v = [(k, v)]"
| "index_map_insert ((k', v') # m) k v = (if k' = k then (k', v) # m else (k', v') # index_map_insert m k v)"

fun de_entries ::
    "'k deserializer \<Rightarrow> 'v deserializer \<Rightarrow> nat \<Rightarrow> nat \<Rightarrow> ('k \<times> 'v) list \<Rightarrow>
     ('k \<times> 'v) list deserializer" where
  "de_entries dk dv 0 count m ec bs = (if count = 0 then Inr (m, ec, bs) else Inl OutOfFuel)"
| "de_entries dk dv (Suc f) count m ec bs =
     (if count = 0 then Inr (m, ec, bs)
      else case dk ec bs of
        Inl e \<Rightarrow> Inl e
      | Inr (k, ec1, bs1) \<Rightarrow>
          (case dv ec1 bs1 of
             Inl e \<Rightarrow> Inl e
           | Inr (v, ec2, bs2) \<Rightarrow>
               de_entries dk dv f (usize_sub count 2) (index_map_insert m k v) ec2 bs2))"

text \<open>Size and count of a compound value.\<close>

definition read_header :: "nat \<Rightarrow> bytes \<Rightarrow> de_error + nat \<times> nat \<times> bytes" where
  "read_header w bs =
     (case read_be w bs of
        Inl e \<Rightarrow> Inl e
      | Inr (len, rest) \<Rightarrow>
          (case read_be w rest of Inl e \<Rightarrow> Inl e | Inr (count, rest1) \<Rightarrow> Inr (len, count, rest1)))"

definition deserialize_list ::
    "'a deserializer \<Rightarrow> nat \<Rightarrow> bytes \<Rightarrow> de_error + 'a list \<times> encoding_code option \<times> bytes" where
  "deserialize_list d w bs =
     (case read_header w bs of
        Inl e \<Rightarrow> Inl e
      | Inr (len, count, rest) \<Rightarrow>
          if w = 4 \<and> MAX_ARRAY_COUNT < count then Inl InvalidValue
          else de_list d count None rest)"

definition deserialize_array ::
    "'a deserializer \<Rightarrow> nat \<Rightarrow> bytes \<Rightarrow> de_error + 'a list \<times> encoding_code option \<times> bytes" where
  "deserialize_array d w bs =
     (case read_header w bs of
        Inl e \<Rightarrow> Inl e
      | Inr (len, count, rest) \<Rightarrow>
          if MAX_ARRAY_COUNT < count \<or> len < count then Inl InvalidValue
          else if count = 0 then Inr ([], None, rest)
          else (case elem_code_or_read InvalidFormatCode None rest of
                  Inl e \<Rightarrow> Inl e
                | Inr (c, rest1) \<Rightarrow> de_array d (length rest1) (usize_sub len (w + 1)) count (Some c) rest1))"

definition deserialize_map ::
    "'k deserializer \<Rightarrow> 'v deserializer \<Rightarrow> nat \<Rightarrow> ('k \<times> 'v) list deserializer" where
  "deserialize_map dk dv w ec bs =
     (case read_header w bs of
        Inl e \<Rightarrow> Inl e
      | Inr (len, count, rest) \<Rightarrow>
          if w = 4 \<and> MAX_ARRAY_COUNT < count then Inl InvalidValue
          else de_entries dk dv (Suc (length rest)) count [] ec rest)"

definition map_compound ::
    "('a \<Rightarrow> amqp_value) \<Rightarrow> de_error + 'a \<times> encoding_code option \<times> bytes \<Rightarrow>
     de_error + amqp_value \<times> encoding_code option \<times> bytes" where
  "map_compound f r = (case r of Inl e \<Rightarrow> Inl e | Inr (x, ec, bs) \<Rightarrow> Inr (f x, ec, bs))"

text \<open>The fuel bounds the nesting depth: \<open>from_slice\<close> gives one level more than there are bytes.\<close>

fun deserialize_value :: "nat \<Rightarrow> amqp_value deserializer" where
  "deserialize_value 0 ec bs = Inl OutOfFuel"
| "deserialize_value (Suc k) ec bs =
     (case elem_code_or_read DeCustom ec bs of
        Inl e \<Rightarrow> Inl e
      | Inr (c, rest) \<Rightarrow>
          (case parse_scalar c rest of
             Some (Inl e) \<Rightarrow> Inl e
           | Some (Inr (v, rest1)) \<Rightarrow> Inr (v, ec, rest1)
           | None \<Rightarrow>
               (if c = CList0 then Inr (VList [], ec, rest)
                else if c = CList8 then map_compound VList (deserialize_list (deserialize_value k) 1 rest)
                else if c = CList32 then map_compound VList (deserialize_list (deserialize_value k) 4 rest)
                else if c = CArray8 then map_compound VArray (deserialize_array (deserialize_value k) 1 rest)
                else if c = CArray32 then map_compound VArray (deserialize_array (deserialize_value k) 4 rest)
                else if c = CMap8 then map_compound VMap (deserialize_map (deserialize_value k) (deserialize_value k) 1 ec rest)
                else if c = CMap32 then map_compound VMap (deserialize_map (deserialize_value k) (deserialize_value k) 4 ec rest)
                else (case deserialize_descriptor ec bs of
                        Inl e \<Rightarrow> Inl e
                      | Inr (d, rest1) \<Rightarrow>
                          (case rest1 of
                             [] \<Rightarrow> Inl DeCustom
                           | b # _ \<Rightarrow> if try_code b = None then Inl InvalidFormatCode
                                      else map_compound (VDescribed d) (deserialize_value k ec rest1))))))"

definition from_slice :: "bytes \<Rightarrow> de_error + amqp_value \<times> bytes" where
  "from_slice bs =
     (case deserialize_value (Suc (length bs)) None bs of
        Inl e \<Rightarrow> Inl e
      | Inr (v, _, rest) \<Rightarrow> Inr (v, rest))"

end
