(* ===== verification/Codec_Roundtrip.thy ===== *)
theory Codec_Roundtrip
  imports Codec
begin

text \<open>
  What the serializer writes, the deserializer reads back: for every value that satisfies
  \<open>encodable\<close>, at any nesting depth and with any bytes following. The section at the end holds the
  values outside of \<open>encodable\<close> for which it fails.
\<close>

section \<open>Reading what was written\<close>

named_theorems wire

declare be_bytes.simps [simp del]

lemma read_byte_Cons [wire]: "read_byte (b # bs) = Inr (b, bs)"
  by (simp add: read_byte_def)

lemma read_bytes_append [wire]: "length b = n \<Longrightarrow> read_bytes n (b @ rest) = Inr (b, rest)"
  by (simp add: read_bytes_def)

lemma read_be_be_bytes [wire]: "n < 256 ^ w \<Longrightarrow> read_be w (be_bytes w n @ rest) = Inr (n, rest)"
  by (simp add: read_be_def read_bytes_append)

lemma read_sized_append [wire]:
  "length v < 256 ^ w \<Longrightarrow> read_sized w (be_bytes w (length v) @ v @ rest) = Inr (v, rest)"
  by (simp add: read_sized_def wire)

lemma read_utf8_append [wire]:
  "length s < 256 ^ w \<Longrightarrow> utf8_valid (string_bytes s) \<Longrightarrow>
   read_utf8 w (be_bytes w (length s) @ string_bytes s @ rest) = Inr (s, rest)"
  using read_sized_append [of "string_bytes s" w rest] by (simp add: read_utf8_def)

lemma read_header_append [wire]:
  "len < 256 ^ w \<Longrightarrow> n < 256 ^ w \<Longrightarrow>
   read_header w (be_bytes w len @ be_bytes w n @ rest) = Inr (len, n, rest)"
  by (simp add: read_header_def wire)

lemma scast_ucast_small:
  assumes "small_signed (v :: 'a::len word)" and "8 \<le> LENGTH('a)"
  shows "scast (ucast v :: u8) = v"
proof -
  have s: "signed_take_bit 7 (sint v) = sint v"
    using assms(1) by (simp add: small_signed_def signed_take_bit_int_eq_self_iff)
  have "sint (ucast v :: u8) = signed_take_bit 7 (uint v)"
    by (simp add: sint_uint unsigned_ucast_eq signed_take_bit_take_bit)
  also have "\<dots> = signed_take_bit 7 (sint v)"
    using assms(2) by (simp add: sint_uint signed_take_bit_signed_take_bit)
  finally have "sint (ucast v :: u8) = sint v" using s by simp
  then have "word_of_int (sint (ucast v :: u8)) = (word_of_int (sint v) :: 'a word)" by simp
  then show ?thesis by simp
qed

lemma ucast_ucast_small:
  assumes "unat (v :: 'a::len word) < 256"
  shows "ucast (ucast v :: u8) = v"
proof -
  have "unat (ucast v :: u8) = unat v"
    using assms by (simp add: unsigned_ucast_eq take_bit_nat_eq_self)
  then have "unat (ucast (ucast v :: u8) :: 'a word) = unat v"
    by (simp add: unsigned_ucast_eq [where 'b = 8] take_bit_nat_eq_self unat_lt_exp)
  then show ?thesis by (simp only: word_unat_eq_iff)
qed

lemma small_u32: "(v :: u32) \<le> 255 \<Longrightarrow> ucast (ucast v :: u8) = v"
  by (rule ucast_ucast_small) (simp add: word_le_nat_alt)

lemma small_u64: "(v :: u64) \<le> 255 \<Longrightarrow> ucast (ucast v :: u8) = v"
  by (rule ucast_ucast_small) (simp add: word_le_nat_alt)

lemma small_i32: "small_signed (v :: u32) \<Longrightarrow> scast (ucast v :: u8) = v"
  by (rule scast_ucast_small) simp_all

lemma small_i64: "small_signed (v :: u64) \<Longrightarrow> scast (ucast v :: u8) = v"
  by (rule scast_ucast_small) simp_all

section \<open>Values that can be encoded\<close>

fun array_code :: "amqp_value \<Rightarrow> encoding_code option" where
  "array_code (VBool _) = Some CBoolean" | "array_code (VUbyte _) = Some CUbyte"
| "array_code (VUshort _) = Some CUshort" | "array_code (VUint _) = Some CUint"
| "array_code (VUlong _) = Some CUlong" | "array_code (VByte _) = Some CByte"
| "array_code (VShort _) = Some CShort" | "array_code (VInt _) = Some CInt"
| "array_code (VLong _) = Some CLong" | "array_code (VFloat _) = Some CFloat"
| "array_code (VDouble _) = Some CDouble" | "array_code (VDecimal32 _) = Some CDecimal32"
| "array_code (VDecimal64 _) = Some CDecimal64" | "array_code (VDecimal128 _) = Some CDecimal128"
| "array_code (VChar _) = Some CChar" | "array_code (VTimestamp _) = Some CTimestamp"
| "array_code (VUuid _) = Some CUuid" | "array_code (VBinary _) = Some CVbin32"
| "array_code (VString _) = Some CStr32" | "array_code (VSymbol _) = Some CSym32"
| "array_code _ = None"

fun ascii_string :: "amqp_value \<Rightarrow> bool" where
  "ascii_string (VString s) = list_all (\<lambda>b. b \<le> 0x7F) (string_bytes s)"
| "ascii_string _ = True"

fun key_ok :: "amqp_value \<Rightarrow> bool" where
  "key_ok (VTimestamp _) = False"
| "key_ok (VArray _) = False"
| "key_ok (VDescribed _ v) = key_ok v"
| "key_ok _ = True"

definition text_ok :: "string \<Rightarrow> bool" where
  "text_ok s = (utf8_valid (string_bytes s) \<and> length s \<le> U32_MAX_MINUS_4)"

fun descriptor_ok :: "descriptor \<Rightarrow> bool" where
  "descriptor_ok (DName s) = text_ok s"
| "descriptor_ok (DCode _) = True"

fun encodable :: "amqp_value \<Rightarrow> bool" where
  "encodable (VDescribed d v) = (descriptor_ok d \<and> encodable v)"
| "encodable (VDecimal32 b) = (length b = 4)"
| "encodable (VDecimal64 b) = (length b = 8)"
| "encodable (VDecimal128 b) = (length b = 16)"
| "encodable (VUuid b) = (length b = 16)"
| "encodable (VChar c) = is_char c"
| "encodable (VBinary b) = (length b \<le> U32_MAX_MINUS_4)"
| "encodable (VString s) = text_ok s"
| "encodable (VSymbol s) = text_ok s"
| "encodable (VList vs) = (length vs \<le> MAX_ARRAY_COUNT \<and> list_all encodable vs)"
| "encodable (VMap kvs) = (2 * length kvs \<le> MAX_ARRAY_COUNT \<and> distinct (map fst kvs)
     \<and> list_all (\<lambda>kv. encodable (fst kv) \<and> encodable (snd kv) \<and> key_ok (fst kv)) kvs)"
| "encodable (VArray vs) = (length vs \<le> MAX_ARRAY_COUNT
     \<and> list_all (\<lambda>v. encodable v \<and> ascii_string v \<and> array_code v = array_code (hd vs) \<and> array_code v \<noteq> None) vs)"
| "encodable _ = True"

lemma pow_256: "(256 :: nat) ^ 2 = 65536" "(256 :: nat) ^ 4 = 4294967296"
  "(256 :: nat) ^ 8 = 18446744073709551616"
  by simp_all

lemma unat_bounds [simp]: "unat (a :: u16) < 65536" "unat (b :: u32) < 4294967296"
  "unat (c :: u64) < 18446744073709551616"
  using unat_lt_exp [of a] unat_lt_exp [of b] unat_lt_exp [of c] by simp_all

lemma read_be_words [wire]:
  "read_be 2 (be_bytes 2 (unat (a :: u16)) @ rest) = Inr (unat a, rest)"
  "read_be 4 (be_bytes 4 (unat (b :: u32)) @ rest) = Inr (unat b, rest)"
  "read_be 8 (be_bytes 8 (unat (c :: u64)) @ rest) = Inr (unat c, rest)"
  by (rule read_be_be_bytes, simp)+

lemma ascii_chars_count: "list_all (\<lambda>b. b \<le> 0x7F) bs \<Longrightarrow> chars_count bs = length bs"
proof -
  assume "list_all (\<lambda>b. b \<le> 0x7F) bs"
  then have "filter (\<lambda>b. \<not> cont_byte b) bs = bs"
    by (intro filter_True) (auto simp: list_all_iff cont_byte_def word_le_nat_alt)
  then show ?thesis by (simp add: chars_count_def)
qed

lemma elem_code_or_read_simps [simp]:
  "elem_code_or_read err None (code_byte c # rest) = Inr (c, rest)"
  "elem_code_or_read err (Some c) bs = Inr (c, bs)"
  by (simp_all add: elem_code_or_read_def)

lemmas serialize_defs = serializer_new_def serialize_i64_def serialize_str_def serialize_bytes_def
  write_variable_def U8_MAX_MINUS_1_def U32_MAX_MINUS_4_def

lemma code_byte_inject [simp]: "code_byte a = code_byte b \<longleftrightarrow> a = b"
  by (metis option.inject try_code_byte)

lemma deserialize_scalar:
  "parse_scalar c rest = Some (Inr (v, rest1)) \<Longrightarrow>
   deserialize_value (Suc k) None (code_byte c # rest) = Inr (v, None, rest1)"
  "parse_scalar c rest = Some (Inr (v, rest1)) \<Longrightarrow>
   deserialize_value (Suc k) (Some c) rest = Inr (v, Some c, rest1)"
  by simp_all

text \<open>Outside of an array a scalar is written as a code and what its parser reads back.\<close>

lemma scalar_parse:
  assumes "encodable v" and "serialize_value NoElement serializer_new v = Inr (se, bs)"
    and "array_code v \<noteq> None \<or> v = VNull"
  shows "\<exists>c b. bs = code_byte c # b \<and> parse_scalar c (b @ rest) = Some (Inr (v, rest))"
proof (cases v)
  case (VUint x)
  then show ?thesis using assms by (auto simp: map_value_def wire small_u32 split: if_splits)
next
  case (VUlong x)
  then show ?thesis using assms by (auto simp: map_value_def wire small_u64 split: if_splits)
next
  case (VInt x)
  then show ?thesis using assms by (auto simp: map_value_def wire small_i32 split: if_splits)
next
  case (VLong x)
  then show ?thesis using assms
    by (auto simp: serialize_defs map_value_def wire small_i64 split: if_splits)
next
  case (VBinary x)
  then show ?thesis using assms
    by (auto simp: serialize_defs map_value_def wire split: if_splits)
next
  case (VString x)
  then show ?thesis using assms
    by (auto simp: serialize_defs map_value_def wire text_ok_def split: if_splits)
next
  case (VSymbol x)
  then show ?thesis using assms
    by (auto simp: serialize_defs map_value_def wire text_ok_def split: if_splits)
next
  case (VBool x)
  then show ?thesis using assms by (cases x) auto
qed (use assms in \<open>auto simp: serialize_defs map_value_def wire\<close>)

text \<open>In an array the code is written once, and the rest is the same for every element.\<close>

definition element_body :: "amqp_value \<Rightarrow> bytes" where
  "element_body v = (case serialize_value OtherElement serializer_new v of Inr (_, bs) \<Rightarrow> bs | Inl _ \<Rightarrow> [])"

lemma element_parse:
  assumes "encodable v" and "array_code v = Some c" and "ascii_string v"
  shows "parse_scalar c (element_body v @ rest) = Some (Inr (v, rest))"
proof (cases v)
  case (VString s)
  then show ?thesis using assms
    by (auto simp: element_body_def serialize_defs map_value_def wire text_ok_def ascii_chars_count)
next
  case (VSymbol s)
  then show ?thesis using assms
    by (auto simp: element_body_def serialize_defs map_value_def wire text_ok_def)
qed (use assms in \<open>auto simp: element_body_def serialize_defs map_value_def wire\<close>)

lemma be_bytes_not_Nil [simp]: "be_bytes w n = [] \<longleftrightarrow> w = 0"
  by (metis length_0_conv length_be_bytes)

lemma element_serialize:
  assumes "array_code v = Some c"
  shows "\<exists>se. serialize_value FirstElement serializer_new v = Inr (se, code_byte c # element_body v)"
    and "\<exists>se. serialize_value OtherElement serializer_new v = Inr (se, element_body v)"
    and "encodable v \<Longrightarrow> element_body v \<noteq> []"
  using assms by (cases v; force simp: element_body_def serialize_defs)+

section \<open>What is written starts with a code\<close>

lemma write_compound_head:
  "write_compound c8 c32 NoElement n buf = Inr bs \<Longrightarrow> \<exists>c b. bs = code_byte c # b \<and> length buf \<le> length b"
  by (auto simp: write_compound_def Let_def split: if_splits)

lemma serialize_head:
  assumes "serialize_value NoElement serializer_new v = Inr (se, bs)"
  shows "\<exists>c b. bs = code_byte c # b"
proof (cases v)
  case (VDescribed d x)
  then show ?thesis using assms by (cases d) (auto split: sum.splits prod.splits)
next
  case (VList vs)
  then show ?thesis using assms
    by (auto simp: serializer_new_def write_list_def split: sum.splits if_splits dest!: write_compound_head)
next
  case (VMap kvs)
  then show ?thesis using assms by (auto simp: write_map_def split: sum.splits dest!: write_compound_head)
next
  case (VArray vs)
  then show ?thesis using assms by (auto simp: write_array_def split: sum.splits dest!: write_compound_head)
next
  case (VBool b)
  then show ?thesis using assms by (cases b) auto
qed (use assms in \<open>auto simp: serialize_defs split: if_splits\<close>)

lemma serialize_elements_list:
  "serialize_elements None n vs = Inr buf \<Longrightarrow> length vs \<le> length buf"
proof (induction vs arbitrary: n buf)
  case (Cons v vs)
  then show ?case by (fastforce split: sum.splits prod.splits dest: serialize_head)
qed simp

lemma serialize_entries_length:
  assumes "serialize_entries kvs = Inr buf"
    and "list_all (\<lambda>kv. \<forall>se bs. serialize_value NoElement serializer_new (fst kv) = Inr (se, bs) \<longrightarrow> se = serializer_new) kvs"
  shows "2 * length kvs \<le> length buf"
  using assms
proof (induction kvs arbitrary: buf)
  case (Cons kv kvs)
  obtain k v where kv: "kv = (k, v)" by (cases kv)
  from Cons.prems obtain bs1 se2 bs2 bs3 where s:
    "serialize_value NoElement serializer_new k = Inr (serializer_new, bs1)"
    "serialize_value NoElement serializer_new v = Inr (se2, bs2)"
    "serialize_entries kvs = Inr bs3" "buf = bs1 @ bs2 @ bs3"
    by (auto simp: kv split: sum.splits prod.splits)
  from Cons.IH [OF s(3)] Cons.prems(2) serialize_head [OF s(1)] serialize_head [OF s(2)] s(4)
  show ?case by auto
qed simp

lemma serialize_keeps_serializer:
  assumes "key_ok v" and "serialize_value NoElement serializer_new v = Inr (se, bs)"
  shows "se = serializer_new"
  using assms
proof (induction v arbitrary: se bs rule: key_ok.induct)
  case (3 d v)
  then show ?case
    by (cases d) (auto simp: serialize_defs split: sum.splits prod.splits if_splits)
qed (auto simp: serialize_defs split: sum.splits if_splits)

section \<open>Compound values\<close>

lemma de_list_roundtrip:
  assumes "\<And>v se bs rest. v \<in> set vs \<Longrightarrow> serialize_value NoElement serializer_new v = Inr (se, bs) \<Longrightarrow>
      length bs \<le> length buf \<Longrightarrow> d None (bs @ rest) = Inr (v, None, rest)"
    and "serialize_elements None n vs = Inr buf"
  shows "de_list d (length vs) None (buf @ rest) = Inr (vs, None, rest)"
  using assms
proof (induction vs arbitrary: n buf)
  case (Cons v vs)
  from Cons.prems(2) obtain se bs bs' where s:
    "serialize_value NoElement serializer_new v = Inr (se, bs)"
    "serialize_elements None (Suc n) vs = Inr bs'" "buf = bs @ bs'"
    by (auto split: sum.splits prod.splits)
  have "d None (bs @ bs' @ rest) = Inr (v, None, bs' @ rest)"
    using Cons.prems(1) [of v se bs "bs' @ rest"] s by simp
  moreover have "de_list d (length vs) None (bs' @ rest) = Inr (vs, None, rest)"
    using Cons.IH [OF _ s(2)] Cons.prems(1) s(3) by simp
  ultimately show ?case by (simp add: s(3))
qed simp

lemma index_map_insert_new: "k \<notin> fst ` set m \<Longrightarrow> index_map_insert m k v = m @ [(k, v)]"
  by (induction m k v rule: index_map_insert.induct) auto

text \<open>Entries written one after the other, key and value each read back by its deserializer.\<close>

definition entry_reads ::
    "'k deserializer \<Rightarrow> 'v deserializer \<Rightarrow> 'k \<times> 'v \<Rightarrow> bytes \<times> bytes \<Rightarrow> bool" where
  "entry_reads dk dv kv bs \<longleftrightarrow>
     (\<forall>rest. dk None (fst bs @ rest) = Inr (fst kv, None, rest)) \<and>
     (\<forall>rest. dv None (snd bs @ rest) = Inr (snd kv, None, rest))"

lemma de_entries_reads:
  assumes "list_all2 (entry_reads dk dv) kvs bss" and "distinct (map fst (m @ kvs))" and "length kvs \<le> f"
  shows "de_entries dk dv f (2 * length kvs) m None (concat (map (\<lambda>b. fst b @ snd b) bss) @ rest) =
    Inr (m @ kvs, None, rest)"
  using assms
proof (induction kvs bss arbitrary: m f rule: list_all2_induct)
  case Nil
  then show ?case by (cases f) simp_all
next
  case (Cons kv kvs b bss)
  from Cons.prems(2) obtain f' where f: "f = Suc f'" "length kvs \<le> f'" by (cases f) auto
  have "index_map_insert m (fst kv) (snd kv) = m @ [kv]"
    using index_map_insert_new [of "fst kv" m "snd kv"] Cons.prems(1) by auto
  moreover have "distinct (map fst ((m @ [kv]) @ kvs))" using Cons.prems(1) by simp
  ultimately show ?case
    using Cons.IH [of "m @ [kv]" f'] Cons.hyps(1) f(2) by (simp add: f(1) entry_reads_def usize_sub_def)
qed

lemma serialize_entries_chunks:
  assumes "serialize_entries kvs = Inr buf" and "list_all (\<lambda>kv. key_ok (fst kv)) kvs"
  shows "\<exists>bss. buf = concat (map (\<lambda>b. fst b @ snd b) bss) \<and>
    list_all2 (\<lambda>kv b. (\<exists>se. serialize_value NoElement serializer_new (fst kv) = Inr (se, fst b)) \<and>
      (\<exists>se. serialize_value NoElement serializer_new (snd kv) = Inr (se, snd b)) \<and>
      length (fst b) + length (snd b) \<le> length buf) kvs bss"
  using assms
proof (induction kvs arbitrary: buf)
  case (Cons kv kvs)
  obtain k v where kv: "kv = (k, v)" by (cases kv)
  have "key_ok k" using Cons.prems(2) by (simp add: kv)
  from Cons.prems(1) serialize_keeps_serializer [OF this] obtain bs1 se2 bs2 bs3 where s:
    "serialize_value NoElement serializer_new k = Inr (serializer_new, bs1)"
    "serialize_value NoElement serializer_new v = Inr (se2, bs2)"
    "serialize_entries kvs = Inr bs3" "buf = bs1 @ bs2 @ bs3"
    by (auto simp: kv split: sum.splits prod.splits)
  from Cons.IH [OF s(3)] Cons.prems(2) obtain bss where bss: "bs3 = concat (map (\<lambda>b. fst b @ snd b) bss)"
    "list_all2 (\<lambda>kv b. (\<exists>se. serialize_value NoElement serializer_new (fst kv) = Inr (se, fst b)) \<and>
      (\<exists>se. serialize_value NoElement serializer_new (snd kv) = Inr (se, snd b)) \<and>
      length (fst b) + length (snd b) \<le> length bs3) kvs bss"
    by auto
  show ?case
    by (intro exI [of _ "(bs1, bs2) # bss"]) (use s bss in \<open>auto simp: kv elim!: list_all2_mono\<close>)
qed simp

lemma serialize_elements_array_other:
  "list_all (\<lambda>v. array_code v = Some c) vs \<Longrightarrow>
   serialize_elements (Some SeqArray) (Suc n) vs = Inr (concat (map element_body vs))"
proof (induction vs arbitrary: n)
  case (Cons v vs)
  then obtain se where "serialize_value OtherElement serializer_new v = Inr (se, element_body v)"
    using element_serialize(2) [of v c] by auto
  with Cons show ?case by simp
qed simp

lemma serialize_elements_array:
  assumes "list_all (\<lambda>v. array_code v = Some c) (v # vs)"
  shows "serialize_elements (Some SeqArray) 0 (v # vs) = Inr (code_byte c # concat (map element_body (v # vs)))"
proof -
  from assms obtain se where "serialize_value FirstElement serializer_new v = Inr (se, code_byte c # element_body v)"
    using element_serialize(1) [of v c] by auto
  with assms serialize_elements_array_other [of c vs 0] show ?thesis by simp
qed

lemma de_array_roundtrip:
  assumes "\<And>x rest. x \<in> set xs \<Longrightarrow> d (Some c) (e x @ rest) = Inr (x, Some c, rest)"
    and "start \<le> limit + length rest"
  shows "de_array d start limit (length xs) (Some c) (concat (map e xs) @ rest) = Inr (xs, None, rest)"
  using assms(1)
proof (induction xs)
  case (Cons x xs)
  have "d (Some c) (e x @ concat (map e xs) @ rest) = Inr (x, Some c, concat (map e xs) @ rest)"
    using Cons.prems [of x] by simp
  moreover have "start - (length (concat (map e xs)) + length rest) \<le> limit"
    using assms(2) by simp
  ultimately show ?case using Cons by simp
qed simp

lemma concat_length_ge: "list_all (\<lambda>x. f x \<noteq> []) xs \<Longrightarrow> length xs \<le> length (concat (map f xs))"
proof (induction xs)
  case (Cons x xs)
  then show ?case by (cases "f x") auto
qed simp

section \<open>Round trip\<close>

lemma write_compound_cases:
  assumes "write_compound c8 c32 NoElement n buf = Inr bs"
  obtains "bs = code_byte c8 # be_bytes 1 (length buf + 1) @ be_bytes 1 n @ buf" "length buf \<le> 254"
  | "bs = code_byte c32 # be_bytes 4 (length buf + 4) @ be_bytes 4 n @ buf" "254 < length buf"
      "length buf \<le> 4294967291"
  using assms
  by (auto simp: write_compound_def Let_def U8_MAX_MINUS_1_def U32_MAX_MINUS_4_def split: if_splits)

lemma descriptor_roundtrip:
  assumes "descriptor_ok d" and "serialize_descriptor NoElement serializer_new d = Inr (se, bs)"
  shows "deserialize_descriptor None (bs @ rest) = Inr (d, rest)" and "se = serializer_new"
    and "\<exists>b. bs = code_byte CDescribedType # b"
proof (atomize (full), cases d)
  case (DName name)
  then show "deserialize_descriptor None (bs @ rest) = Inr (d, rest) \<and> se = serializer_new
      \<and> (\<exists>b. bs = code_byte CDescribedType # b)"
    using assms
    by (auto simp: deserialize_descriptor_def serialize_defs map_value_def wire text_ok_def
        split: if_splits)
next
  case (DCode code)
  then show "deserialize_descriptor None (bs @ rest) = Inr (d, rest) \<and> se = serializer_new
      \<and> (\<exists>b. bs = code_byte CDescribedType # b)"
    using assms
    by (auto simp: deserialize_descriptor_def map_value_def wire small_u64 split: if_splits)
qed

definition decodes :: "nat \<Rightarrow> bool" where
  "decodes k \<longleftrightarrow> (\<forall>v se bs rest. encodable v \<longrightarrow> serialize_value NoElement serializer_new v = Inr (se, bs) \<longrightarrow>
     length bs \<le> k \<longrightarrow> deserialize_value k None (bs @ rest) = Inr (v, None, rest))"

lemma decodesD:
  "decodes k \<Longrightarrow> encodable v \<Longrightarrow> serialize_value NoElement serializer_new v = Inr (se, bs) \<Longrightarrow>
   length bs \<le> k \<Longrightarrow> deserialize_value k None (bs @ rest) = Inr (v, None, rest)"
  by (auto simp: decodes_def)

lemma described_roundtrip:
  assumes "decodes k" and "encodable (VDescribed d v)"
    and "serialize_value NoElement serializer_new (VDescribed d v) = Inr (se, bs)" and "length bs \<le> Suc k"
  shows "deserialize_value (Suc k) None (bs @ rest) = Inr (VDescribed d v, None, rest)"
proof -
  have ok: "descriptor_ok d" "encodable v" using assms(2) by simp_all
  from assms(3) obtain se1 bs1 bs2 where s: "serialize_descriptor NoElement serializer_new d = Inr (se1, bs1)"
    "serialize_value NoElement se1 v = Inr (se, bs2)" "bs = bs1 @ bs2"
    by (auto split: sum.splits prod.splits)
  note d = descriptor_roundtrip [OF ok(1) s(1)]
  note v = s(2) [unfolded d(2)]
  from d(3) obtain b where b: "bs1 = code_byte CDescribedType # b" ..
  from serialize_head [OF v] obtain c b2 where b2: "bs2 = code_byte c # b2" by blast
  have "deserialize_value k None (bs2 @ rest) = Inr (v, None, rest)"
    using decodesD [OF assms(1) ok(2) v] assms(4) s(3) b by simp
  with d(1) [of "bs2 @ rest"] show ?thesis
    by (simp add: s(3) b b2 map_compound_def)
qed

lemma list_roundtrip:
  assumes "decodes k" and "encodable (VList vs)"
    and "serialize_value NoElement serializer_new (VList vs) = Inr (se, bs)" and "length bs \<le> Suc k"
  shows "deserialize_value (Suc k) None (bs @ rest) = Inr (VList vs, None, rest)"
proof (cases "vs = []")
  case True
  with assms(3) have "bs = [code_byte CList0]" by (simp add: serializer_new_def write_list_def)
  then show ?thesis using True by simp
next
  case False
  from assms(3) obtain buf where buf: "serialize_elements None 0 vs = Inr buf"
    "write_list NoElement (length vs) buf = Inr bs"
    by (auto simp: serializer_new_def split: sum.splits)
  have len: "length vs \<le> length buf" using buf(1) by (rule serialize_elements_list)
  with False have "buf \<noteq> []" by auto
  with buf(2) have w: "write_compound CList8 CList32 NoElement (length vs) buf = Inr bs"
    by (simp add: write_list_def)
  have mx: "length vs \<le> MAX_ARRAY_COUNT" "list_all encodable vs" using assms(2) by simp_all
  have "length buf \<le> k" using write_compound_head [OF w] assms(4) by auto
  then have d: "de_list (deserialize_value k) (length vs) None (buf @ rest) = Inr (vs, None, rest)"
    using mx(2) by (intro de_list_roundtrip [OF _ buf(1)] decodesD [OF assms(1)]) (auto simp: list_all_iff)
  from w show ?thesis
    using len d mx(1)
    by (cases rule: write_compound_cases)
       (simp_all add: deserialize_list_def wire map_compound_def MAX_ARRAY_COUNT_def)
qed

text \<open>A written map and a written array, read by any deserializers of their parts.\<close>

lemma map_reads:
  assumes "encodable (VMap (map g m))" and "serialize_value NoElement serializer_new (VMap (map g m)) = Inr (se, bs)"
    and "\<And>kv se1 kb se2 vb. kv \<in> set m \<Longrightarrow> serialize_value NoElement serializer_new (fst (g kv)) = Inr (se1, kb) \<Longrightarrow>
        serialize_value NoElement serializer_new (snd (g kv)) = Inr (se2, vb) \<Longrightarrow>
        length kb < length bs \<Longrightarrow> length vb < length bs \<Longrightarrow> entry_reads dk dv kv (kb, vb)"
    and "\<And>kv. fst (g kv) = h (fst kv)"
  obtains c w b where "bs = code_byte c # b" and "c = CMap8 \<and> w = 1 \<or> c = CMap32 \<and> w = 4"
    and "\<And>rest. deserialize_map dk dv w None (b @ rest) = Inr (m, None, rest)"
proof -
  from assms(2) obtain buf where buf: "serialize_entries (map g m) = Inr buf"
    "write_compound CMap8 CMap32 NoElement (2 * length m) buf = Inr bs"
    by (auto simp: write_map_def split: sum.splits)
  have ok: "2 * length m \<le> MAX_ARRAY_COUNT" "distinct (map fst (map g m))"
    "list_all (\<lambda>kv. key_ok (fst kv)) (map g m)"
    using assms(1) by (auto simp: list_all_iff)
  have "map fst (map g m) = map h (map fst m)" using assms(4) by simp
  with ok(2) have distinct: "distinct (map fst ([] @ m))" by (metis append_Nil distinct_map)
  have len: "2 * length m \<le> length buf"
    using serialize_entries_length [OF buf(1)] ok(3) serialize_keeps_serializer
    by (fastforce simp: list_all_iff)
  have short: "length buf < length bs" using write_compound_head [OF buf(2)] by auto
  from serialize_entries_chunks [OF buf(1) ok(3)] obtain bss where bss:
    "buf = concat (map (\<lambda>b. fst b @ snd b) bss)"
    "list_all2 (\<lambda>kv b. (\<exists>se. serialize_value NoElement serializer_new (fst (g kv)) = Inr (se, fst b)) \<and>
      (\<exists>se. serialize_value NoElement serializer_new (snd (g kv)) = Inr (se, snd b)) \<and>
      length (fst b) + length (snd b) \<le> length buf) m bss"
    by (auto simp: list.rel_map)
  have "list_all2 (entry_reads dk dv) m bss"
    using bss(2)
  proof (rule list.rel_mono_strong)
    fix kv b
    assume "kv \<in> set m" and "(\<exists>se. serialize_value NoElement serializer_new (fst (g kv)) = Inr (se, fst b)) \<and>
      (\<exists>se. serialize_value NoElement serializer_new (snd (g kv)) = Inr (se, snd b)) \<and>
      length (fst b) + length (snd b) \<le> length buf"
    then show "entry_reads dk dv kv b"
      using assms(3) [of kv _ "fst b" _ "snd b"] short by auto
  qed
  then have "de_entries dk dv (Suc (length (buf @ rest))) (2 * length m) [] None (buf @ rest) = Inr ([] @ m, None, rest)"
    for rest
    unfolding bss(1) by (rule de_entries_reads [OF _ distinct]) (use len bss(1) in auto)
  with buf(2) show thesis
    using len ok(1) that
    by (cases rule: write_compound_cases)
       (simp_all add: deserialize_map_def wire MAX_ARRAY_COUNT_def del: de_entries.simps)
qed

lemma array_reads:
  assumes "encodable (VArray (map h xs))" and "serialize_value NoElement serializer_new (VArray (map h xs)) = Inr (se, bs)"
    and "\<And>x c rest. x \<in> set xs \<Longrightarrow> array_code (h x) = Some c \<Longrightarrow> encodable (h x) \<Longrightarrow> ascii_string (h x) \<Longrightarrow>
        2 < length bs \<Longrightarrow> d (Some c) (element_body (h x) @ rest) = Inr (x, Some c, rest)"
  obtains c w b where "bs = code_byte c # b" and "c = CArray8 \<and> w = 1 \<or> c = CArray32 \<and> w = 4"
    and "\<And>rest. deserialize_array d w (b @ rest) = Inr (xs, None, rest)"
proof (cases xs)
  case Nil
  then have bs: "bs = code_byte CArray8 # be_bytes 1 1 @ be_bytes 1 0"
    using assms(2) by (simp add: write_array_def write_compound_def U8_MAX_MINUS_1_def)
  have "deserialize_array d 1 ((be_bytes 1 1 @ be_bytes 1 0) @ rest) = Inr (xs, None, rest)" for rest
    using read_header_append [of 1 1 0 rest] by (simp add: Nil deserialize_array_def)
  with bs that show thesis by blast
next
  case (Cons x xs')
  obtain c where c: "array_code (h x) = Some c" using assms(1) Cons by auto
  have ok: "length xs \<le> MAX_ARRAY_COUNT" "list_all (\<lambda>v. array_code v = Some c) (map h xs)"
    "\<And>y. y \<in> set xs \<Longrightarrow> encodable (h y) \<and> ascii_string (h y) \<and> array_code (h y) = Some c"
    using assms(1) Cons c by (auto simp: list_all_iff)
  define body where "body = concat (map (\<lambda>x. element_body (h x)) xs)"
  have w: "write_compound CArray8 CArray32 NoElement (length xs) (code_byte c # body) = Inr bs"
    using assms(2) serialize_elements_array [OF ok(2) [unfolded Cons list.map]]
    by (simp add: Cons body_def write_array_def o_def split: sum.splits)
  have len: "length xs \<le> length body"
    unfolding body_def
    by (rule concat_length_ge) (use ok(3) element_serialize(3) in \<open>auto simp: list_all_iff\<close>)
  have "length (code_byte c # body) < length bs" using write_compound_head [OF w] by auto
  with len Cons have "2 < length bs" by simp
  then have d: "de_array d (length (body @ rest)) (length body) (length xs) (Some c) (body @ rest) = Inr (xs, None, rest)"
    for rest
    unfolding body_def using ok(3) assms(3) by (intro de_array_roundtrip) auto
  have "xs \<noteq> []" by (simp add: Cons)
  from w show thesis
    using len d ok(1) \<open>xs \<noteq> []\<close> that
    by (cases rule: write_compound_cases)
       (simp_all add: deserialize_array_def wire MAX_ARRAY_COUNT_def usize_sub_def)
qed

lemma map_roundtrip:
  assumes "decodes k" and "encodable (VMap kvs)"
    and "serialize_value NoElement serializer_new (VMap kvs) = Inr (se, bs)" and "length bs \<le> Suc k"
  shows "deserialize_value (Suc k) None (bs @ rest) = Inr (VMap kvs, None, rest)"
proof (rule map_reads [where g = id and m = kvs and h = id and bs = bs and dk = "deserialize_value k"
      and dv = "deserialize_value k"])
  show "entry_reads (deserialize_value k) (deserialize_value k) kv (kb, vb)"
    if "kv \<in> set kvs" "serialize_value NoElement serializer_new (fst (id kv)) = Inr (se1, kb)"
      "serialize_value NoElement serializer_new (snd (id kv)) = Inr (se2, vb)"
      "length kb < length bs" "length vb < length bs" for kv se1 kb se2 vb
    using that assms(2,4) decodesD [OF assms(1)] by (auto simp: entry_reads_def list_all_iff)
qed (use assms(2,3) in \<open>auto simp: map_compound_def\<close>)

lemma array_roundtrip:
  assumes "encodable (VArray vs)"
    and "serialize_value NoElement serializer_new (VArray vs) = Inr (se, bs)" and "length bs \<le> Suc k"
  shows "deserialize_value (Suc k) None (bs @ rest) = Inr (VArray vs, None, rest)"
proof (rule array_reads [where h = id and xs = vs and bs = bs and d = "deserialize_value k"])
  show "deserialize_value k (Some c) (element_body (id x) @ rest) = Inr (x, Some c, rest)"
    if "array_code (id x) = Some c" "encodable (id x)" "ascii_string (id x)" "2 < length bs" for x c rest
    using that assms(3) element_parse [of x c rest] by (cases k) (auto simp: deserialize_scalar(2))
qed (use assms(1,2) in \<open>auto simp: map_compound_def\<close>)

lemma decodes: "decodes k"
proof (induction k)
  case 0
  then show ?case using serialize_head by (fastforce simp: decodes_def)
next
  case (Suc k)
  have "deserialize_value (Suc k) None (bs @ rest) = Inr (v, None, rest)"
    if "encodable v" "serialize_value NoElement serializer_new v = Inr (se, bs)" "length bs \<le> Suc k"
    for v se bs rest
  proof (cases v)
    case (VDescribed d x)
    then show ?thesis using described_roundtrip [OF Suc.IH] that by simp
  next
    case (VList vs)
    then show ?thesis using list_roundtrip [OF Suc.IH] that by simp
  next
    case (VMap kvs)
    then show ?thesis using map_roundtrip [OF Suc.IH] that by simp
  next
    case (VArray vs)
    then show ?thesis using array_roundtrip that by simp
  qed (use scalar_parse [OF that(1,2), of rest] in \<open>auto simp: deserialize_scalar(1)\<close>)
  then show ?case by (auto simp: decodes_def)
qed

section \<open>Encodable values are written\<close>

lemma serialize_elements_reachable:
  "list_all (\<lambda>v. serialize_value NoElement serializer_new v \<noteq> Inl SerUnreachable) vs \<Longrightarrow>
   serialize_elements None n vs \<noteq> Inl SerUnreachable"
proof (induction vs arbitrary: n)
  case (Cons v vs)
  then show ?case using Cons.IH [of "Suc n"] by (auto split: sum.splits prod.splits)
qed simp

lemma serialize_entries_reachable:
  "list_all (\<lambda>kv. key_ok (fst kv) \<and> serialize_value NoElement serializer_new (fst kv) \<noteq> Inl SerUnreachable
      \<and> serialize_value NoElement serializer_new (snd kv) \<noteq> Inl SerUnreachable) kvs \<Longrightarrow>
   serialize_entries kvs \<noteq> Inl SerUnreachable"
proof (induction kvs)
  case (Cons kv kvs)
  then show ?case
    by (cases kv) (auto split: sum.splits prod.splits dest: serialize_keeps_serializer)
qed simp

lemma write_compound_reachable: "write_compound c8 c32 m n buf \<noteq> Inl SerUnreachable"
  by (simp add: write_compound_def Let_def)

lemma encodable_reachable:
  "encodable v \<Longrightarrow> serialize_value NoElement serializer_new v \<noteq> Inl SerUnreachable"
proof (induction v rule: encodable.induct)
  case (1 d v)
  have "serialize_descriptor NoElement serializer_new d \<noteq> Inl SerUnreachable"
    by (cases d) (simp_all add: serialize_defs)
  moreover have "se = serializer_new" if "serialize_descriptor NoElement serializer_new d = Inr (se, bs)" for se bs
    using descriptor_roundtrip(2) [OF _ that] 1(2) by simp
  ultimately show ?case using 1 by (auto split: sum.splits prod.splits)
next
  case (10 vs)
  then have "serialize_elements None 0 vs \<noteq> Inl SerUnreachable"
    by (intro serialize_elements_reachable) (auto simp: list_all_iff)
  then show ?case
    using write_compound_reachable by (auto simp: serializer_new_def write_list_def split: sum.splits)
next
  case (11 kvs)
  then have "serialize_entries kvs \<noteq> Inl SerUnreachable"
    by (intro serialize_entries_reachable) (fastforce simp: list_all_iff)
  then show ?case using write_compound_reachable by (auto simp: write_map_def split: sum.splits)
next
  case (12 vs)
  have "\<exists>buf. serialize_elements (Some SeqArray) 0 vs = Inr buf"
  proof (cases vs)
    case (Cons v vs')
    obtain c where "array_code v = Some c" using 12(2) Cons by auto
    then show ?thesis using 12(2) serialize_elements_array [of c v vs'] Cons by (auto simp: list_all_iff)
  qed simp
  then show ?case using write_compound_reachable by (auto simp: write_array_def split: sum.splits)
qed (auto simp: serialize_defs)

lemma from_slice_reads:
  assumes "encodable v" and "serialize_value NoElement serializer_new v = Inr (se, bs)"
  shows "from_slice (bs @ rest) = Inr (v, rest)"
  using decodesD [OF decodes assms, of "Suc (length (bs @ rest))" rest] by (simp add: from_slice_def)

text \<open>
  C27: Encoding and decoding of AMQP values are inverse: an encodable value is written unless it is
  too long for its 32-bit size, and what is written is read back as the same value, whatever bytes
  follow, which are left unread.
\<close>

theorem value_codec_roundtrip:
  assumes "encodable v"
  shows "to_vec v = Inl TooLong \<or>
    (\<exists>bs. to_vec v = Inr bs \<and> (\<forall>rest. from_slice (bs @ rest) = Inr (v, rest)))"
proof (cases "serialize_value NoElement serializer_new v")
  case (Inl e)
  then show ?thesis using encodable_reachable [OF assms] by (cases e) (simp_all add: to_vec_def)
next
  case (Inr r)
  then obtain se bs where r: "serialize_value NoElement serializer_new v = Inr (se, bs)" by (cases r) auto
  then have "to_vec v = Inr bs" by (simp add: to_vec_def)
  then show ?thesis using from_slice_reads [OF assms r] by blast
qed

definition example_value :: amqp_value where
  "example_value = VDescribed (DCode 0x77) (VMap
     [(VSymbol ''k'', VList [VNull, VInt (- 1), VUint 300, VString ''ab'']),
      (VUlong 7, VArray [VBinary [1, 2], VBinary []])])"

theorem value_codec_roundtrip_witness:
  "encodable example_value \<and> to_vec example_value \<noteq> Inl TooLong \<and>
   (\<exists>bs. to_vec example_value = Inr bs \<and> from_slice (bs @ [9]) = Inr (example_value, [9]))"
proof -
  have e: "encodable example_value"
    by (simp add: example_value_def text_ok_def string_bytes_def U32_MAX_MINUS_4_def MAX_ARRAY_COUNT_def)
  have "to_vec example_value \<noteq> Inl TooLong"
    by (simp add: example_value_def to_vec_def serialize_defs write_map_def write_list_def write_array_def
        write_compound_def Let_def string_bytes_def small_signed_def)
  with e value_codec_roundtrip [OF e] show ?thesis by blast
qed

section \<open>Values that do not survive\<close>

text \<open>
  The decoder refuses every list of more than 65536 elements at its header, whatever its
  elements are; the encoder has no such limit, so such a list is written and not read back.
\<close>

lemma long_list_not_decodable:
  assumes "MAX_ARRAY_COUNT < length vs" and "to_vec (VList vs) = Inr bs"
  shows "from_slice (bs @ rest) = Inl InvalidValue"
proof -
  from assms(2) obtain buf where buf: "serialize_elements None 0 vs = Inr buf"
    "write_list NoElement (length vs) buf = Inr bs"
    by (auto simp: to_vec_def serializer_new_def split: sum.splits)
  have len: "length vs \<le> length buf" using buf(1) by (rule serialize_elements_list)
  with assms(1) have "buf \<noteq> []" by (auto simp: MAX_ARRAY_COUNT_def)
  with buf(2) have "write_compound CList8 CList32 NoElement (length vs) buf = Inr bs"
    by (simp add: write_list_def)
  then have "deserialize_value (Suc k) None (bs @ rest) = Inl InvalidValue" for k
    using len assms(1)
    by (cases rule: write_compound_cases)
       (simp_all add: deserialize_list_def wire map_compound_def MAX_ARRAY_COUNT_def)
  then show ?thesis by (simp add: from_slice_def del: deserialize_value.simps)
qed

lemma serialize_nulls: "serialize_elements None n (replicate m VNull) = Inr (replicate m (code_byte CNull))"
  by (induction m arbitrary: n) simp_all

lemma long_list_not_decodable_witness:
  "\<exists>bs. to_vec (VList (replicate 65537 VNull)) = Inr bs \<and> from_slice bs = Inl InvalidValue"
proof -
  obtain bs where bs: "to_vec (VList (replicate 65537 VNull)) = Inr bs"
    by (simp add: to_vec_def serializer_new_def serialize_nulls write_list_def write_compound_def
        U8_MAX_MINUS_1_def U32_MAX_MINUS_4_def)
  then have "from_slice (bs @ []) = Inl InvalidValue"
    by (rule long_list_not_decodable [rotated]) (simp add: MAX_ARRAY_COUNT_def)
  with bs show ?thesis by auto
qed

text \<open>
  Serializing a map panics when a timestamp is the key of a string: the flag that marks the
  timestamp outlives the key.
\<close>

lemma timestamp_key_panics:
  "to_vec (VMap ((VTimestamp t, VString s) # kvs)) = Inl SerUnreachable"
  by (simp add: to_vec_def serialize_i64_def serialize_str_def serializer_new_def)

text \<open>
  An array holding one string with a non-ASCII character is not read back: the size written for
  an element counts characters, not bytes.
\<close>

lemma string_array_not_decodable:
  assumes "chars_count (string_bytes s) \<noteq> length s" and "length s \<le> U32_MAX_MINUS_4"
    and "to_vec (VArray [VString s]) = Inr bs"
  shows "from_slice bs \<noteq> Inr (VArray [VString s], rest)"
proof
  assume r: "from_slice bs = Inr (VArray [VString s], rest)"
  define body where "body = be_bytes 4 (chars_count (string_bytes s)) @ string_bytes s"
  have "chars_count (string_bytes s) \<le> length s"
    unfolding chars_count_def using length_filter_le [of _ "string_bytes s"] by simp
  then have cc: "chars_count (string_bytes s) < 256 ^ 4" using assms(2) by (simp add: U32_MAX_MINUS_4_def)
  have w: "write_compound CArray8 CArray32 NoElement 1 (code_byte CStr32 # body) = Inr bs"
    using assms(3) by (auto simp: to_vec_def serialize_str_def serializer_new_def write_array_def body_def
        split: sum.splits)
  have p: "parse_scalar CStr32 body = Some (Inr (VString s', r')) \<Longrightarrow> length s' = chars_count (string_bytes s)"
    for s' r'
    using cc by (auto simp: body_def map_value_def read_utf8_def read_sized_def wire read_bytes_def
        bytes_string_def split: if_splits)
  from write_compound_head [OF w] obtain k where n: "length bs = Suc k" by auto
  with r obtain ec where k: "deserialize_value (Suc (Suc k)) None bs = Inr (VArray [VString s], ec, rest)"
    by (auto simp: from_slice_def n split: sum.splits prod.splits simp del: deserialize_value.simps)
  have "\<exists>ec r'. deserialize_value (Suc k) (Some CStr32) body = Inr (VString s, ec, r')"
    using w k
    by (cases rule: write_compound_cases)
       (auto simp: deserialize_value.simps(2) [of "Suc k"] deserialize_array_def wire map_compound_def
          MAX_ARRAY_COUNT_def split: sum.splits prod.splits if_splits simp del: deserialize_value.simps)
  then have "\<exists>r'. parse_scalar CStr32 body = Some (Inr (VString s, r'))"
    by (auto split: sum.splits prod.splits option.splits)
  with p assms(1) show False by metis
qed

lemma string_array_not_decodable_witness:
  "\<exists>bs. to_vec (VArray [VString [CHR 0xC3, CHR 0xA9]]) = Inr bs
    \<and> from_slice bs \<noteq> Inr (VArray [VString [CHR 0xC3, CHR 0xA9]], [])"
proof -
  obtain bs where bs: "to_vec (VArray [VString [CHR 0xC3, CHR 0xA9]]) = Inr bs"
    by (simp add: to_vec_def serialize_str_def serializer_new_def write_array_def write_compound_def
        U8_MAX_MINUS_1_def)
  then have "from_slice bs \<noteq> Inr (VArray [VString [CHR 0xC3, CHR 0xA9]], [])"
    by (rule string_array_not_decodable [rotated 2])
       (simp_all add: chars_count_def string_bytes_def cont_byte_def U32_MAX_MINUS_4_def)
  with bs show ?thesis by blast
qed

end
