(* ===== verification/Codec_Size.thy ===== *)
theory Codec_Size
  imports Codec_Roundtrip
begin

text \<open>
  The serializer that only counts (serde_amqp/src/size_ser.rs) as it acts on \<open>Value\<close>, and that it
  agrees with the serializer that writes. The flags are those of the writing serializer and the
  array position; the flags after a value are not returned, since no caller reads them: every
  element, key, value and described value gets a new \<open>SizeSerializer\<close>.
\<close>

record size_serializer =
  sz_non_native :: "non_native_type option"
  sz_seq :: "sequence_type option"
  sz_elem :: is_array_element

definition size_serializer_new :: size_serializer where
  "size_serializer_new = \<lparr>sz_non_native = None, sz_seq = None, sz_elem = NoElement\<rparr>"

text \<open>A fixed-width value of \<open>n\<close> bytes behind its format code.\<close>

fun fixed_size :: "is_array_element \<Rightarrow> nat \<Rightarrow> nat" where
  "fixed_size OtherElement n = n"
| "fixed_size _ n = Suc n"

fun size_bool :: "is_array_element \<Rightarrow> nat" where
  "size_bool NoElement = 1"
| "size_bool m = fixed_size m 1"

fun size_u32 :: "is_array_element \<Rightarrow> u32 \<Rightarrow> nat" where
  "size_u32 NoElement v = (if v = 0 then 1 else if v \<le> 255 then 2 else 5)"
| "size_u32 m v = fixed_size m 4"

fun size_u64 :: "is_array_element \<Rightarrow> u64 \<Rightarrow> nat" where
  "size_u64 NoElement v = (if v = 0 then 1 else if v \<le> 255 then 2 else 9)"
| "size_u64 m v = fixed_size m 8"

fun size_i32 :: "is_array_element \<Rightarrow> u32 \<Rightarrow> nat" where
  "size_i32 NoElement v = (if small_signed v then 2 else 5)"
| "size_i32 m v = fixed_size m 4"

definition size_i64 :: "size_serializer \<Rightarrow> u64 \<Rightarrow> ser_error + nat" where
  "size_i64 se v =
     (case sz_non_native se of
        None \<Rightarrow> Inr (if sz_elem se = NoElement then (if small_signed v then 2 else 9)
                     else fixed_size (sz_elem se) 8)
      | Some NnTimestamp \<Rightarrow> Inr (fixed_size (sz_elem se) 8)
      | _ \<Rightarrow> Inl SerUnreachable)"

definition size_variable :: "nat \<Rightarrow> ser_error + nat" where
  "size_variable l =
     (if l \<le> U8_MAX_MINUS_1 then Inr (2 + l) else if l \<le> U32_MAX_MINUS_4 then Inr (5 + l) else Inl TooLong)"

definition size_str :: "size_serializer \<Rightarrow> bytes \<Rightarrow> ser_error + nat" where
  "size_str se v =
     (if sz_non_native se \<in> {Some NnSymbol, Some NnSymbolRef, None}
      then (if sz_elem se = NoElement then size_variable (length v)
            else Inr (fixed_size (sz_elem se) (4 + length v)))
      else Inl SerUnreachable)"

definition size_bytes :: "size_serializer \<Rightarrow> bytes \<Rightarrow> ser_error + nat" where
  "size_bytes se v =
     (case sz_non_native se of
        None \<Rightarrow> if sz_elem se = NoElement then size_variable (length v)
                else Inr (fixed_size (sz_elem se) (4 + length v))
      | Some NnLazyValue \<Rightarrow> Inr (length v)
      | Some n \<Rightarrow> if n \<in> {NnTimestamp, NnSymbol, NnSymbolRef} then Inl SerUnreachable
                  else Inr (fixed_size (sz_elem se) (length v)))"

definition map_size :: "is_array_element \<Rightarrow> nat \<Rightarrow> ser_error + nat" where
  "map_size m len =
     (if len \<le> U8_MAX_MINUS_1 then Inr (fixed_size m (2 + len))
      else if len \<le> U32_MAX_MINUS_4 then Inr (fixed_size m (4 + 4 + len))
      else Inl TooLong)"

definition array_size :: "is_array_element \<Rightarrow> nat \<Rightarrow> ser_error + nat" where
  "array_size = map_size"

definition list_size :: "is_array_element \<Rightarrow> nat \<Rightarrow> ser_error + nat" where
  "list_size m len = (if len = 0 then Inr 1 else map_size m len)"

definition transparent_vec_size :: "is_array_element \<Rightarrow> nat \<Rightarrow> ser_error + nat" where
  "transparent_vec_size m len = Inr len"

fun size_descriptor :: "size_serializer \<Rightarrow> descriptor \<Rightarrow> ser_error + nat" where
  "size_descriptor se (DName name) =
     (case size_str (se\<lparr>sz_non_native := Some NnSymbol\<rparr>) (string_bytes name) of
        Inl e \<Rightarrow> Inl e | Inr n \<Rightarrow> Inr (n + 1))"
| "size_descriptor se (DCode code) = Inr (size_u64 (sz_elem se) code + 1)"

function size_value :: "size_serializer \<Rightarrow> amqp_value \<Rightarrow> ser_error + nat"
  and size_elements :: "sequence_type option \<Rightarrow> nat \<Rightarrow> amqp_value list \<Rightarrow> ser_error + nat"
  and size_entries :: "(amqp_value \<times> amqp_value) list \<Rightarrow> ser_error + nat" where
  "size_value se (VDescribed d v) =
     (case size_descriptor se d of
        Inl e \<Rightarrow> Inl e
      | Inr n1 \<Rightarrow> (case size_value size_serializer_new v of Inl e \<Rightarrow> Inl e | Inr n2 \<Rightarrow> Inr (n1 + n2)))"
| "size_value se VNull = Inr 1"
| "size_value se (VBool b) = Inr (size_bool (sz_elem se))"
| "size_value se (VUbyte v) = Inr (fixed_size (sz_elem se) 1)"
| "size_value se (VUshort v) = Inr (fixed_size (sz_elem se) 2)"
| "size_value se (VUint v) = Inr (size_u32 (sz_elem se) v)"
| "size_value se (VUlong v) = Inr (size_u64 (sz_elem se) v)"
| "size_value se (VByte v) = Inr (fixed_size (sz_elem se) 1)"
| "size_value se (VShort v) = Inr (fixed_size (sz_elem se) 2)"
| "size_value se (VInt v) = Inr (size_i32 (sz_elem se) v)"
| "size_value se (VLong v) = size_i64 se v"
| "size_value se (VFloat v) = Inr (fixed_size (sz_elem se) 4)"
| "size_value se (VDouble v) = Inr (fixed_size (sz_elem se) 8)"
| "size_value se (VDecimal32 v) = size_bytes (se\<lparr>sz_non_native := Some NnDec32\<rparr>) v"
| "size_value se (VDecimal64 v) = size_bytes (se\<lparr>sz_non_native := Some NnDec64\<rparr>) v"
| "size_value se (VDecimal128 v) = size_bytes (se\<lparr>sz_non_native := Some NnDec128\<rparr>) v"
| "size_value se (VChar v) = Inr (fixed_size (sz_elem se) 4)"
| "size_value se (VTimestamp v) = size_i64 (se\<lparr>sz_non_native := Some NnTimestamp\<rparr>) v"
| "size_value se (VUuid v) = size_bytes (se\<lparr>sz_non_native := Some NnUuid\<rparr>) v"
| "size_value se (VBinary v) = size_bytes se v"
| "size_value se (VString v) = size_str se (string_bytes v)"
| "size_value se (VSymbol v) = size_str (se\<lparr>sz_non_native := Some NnSymbol\<rparr>) (string_bytes v)"
| "size_value se (VList vs) =
     (case size_elements (sz_seq se) 0 vs of
        Inl e \<Rightarrow> Inl e
      | Inr len \<Rightarrow> (case sz_seq se of
                      Some SeqArray \<Rightarrow> array_size (sz_elem se) len
                    | Some SeqTransparentVec \<Rightarrow> transparent_vec_size (sz_elem se) len
                    | _ \<Rightarrow> list_size (sz_elem se) len))"
| "size_value se (VMap kvs) =
     (case size_entries kvs of Inl e \<Rightarrow> Inl e | Inr len \<Rightarrow> map_size (sz_elem se) len)"
| "size_value se (VArray vs) =
     (case size_elements (Some SeqArray) 0 vs of
        Inl e \<Rightarrow> Inl e | Inr len \<Rightarrow> array_size (sz_elem se) len)"
| "size_elements sq idx [] = Inr 0"
| "size_elements sq idx (v # vs) =
     (case size_value (if sq = Some SeqArray
                       then size_serializer_new\<lparr>sz_elem := if idx = 0 then FirstElement else OtherElement\<rparr>
                       else size_serializer_new) v of
        Inl e \<Rightarrow> Inl e
      | Inr n \<Rightarrow> (case size_elements sq (Suc idx) vs of Inl e \<Rightarrow> Inl e | Inr n' \<Rightarrow> Inr (n + n')))"
| "size_entries [] = Inr 0"
| "size_entries ((k, v) # kvs) =
     (case size_value size_serializer_new k of
        Inl e \<Rightarrow> Inl e
      | Inr n1 \<Rightarrow>
          (case size_value size_serializer_new v of
             Inl e \<Rightarrow> Inl e
           | Inr n2 \<Rightarrow> (case size_entries kvs of Inl e \<Rightarrow> Inl e | Inr n3 \<Rightarrow> Inr (n1 + n2 + n3))))"
  by pat_completeness auto
termination
  by (relation "measure (\<lambda>x. case x of
        Inl (se, v) \<Rightarrow> size v
      | Inr (Inl (sq, n, vs)) \<Rightarrow> size_list size vs
      | Inr (Inr kvs) \<Rightarrow> size_list (size_prod size size) kvs)") auto

definition serialized_size :: "amqp_value \<Rightarrow> ser_error + nat" where
  "serialized_size v = size_value size_serializer_new v"

section \<open>Agreement with the serializer\<close>

text \<open>
  The values on which the flags that outlive a value play no role: no map key leaves one set, and
  no described value stands directly in an array.
\<close>

fun described :: "amqp_value \<Rightarrow> bool" where
  "described (VDescribed _ _) = True"
| "described _ = False"

fun flag_free :: "amqp_value \<Rightarrow> bool" where
  "flag_free (VDescribed d v) = flag_free v"
| "flag_free (VList vs) = list_all flag_free vs"
| "flag_free (VMap kvs) = list_all (\<lambda>kv. flag_free (fst kv) \<and> flag_free (snd kv) \<and> key_ok (fst kv)) kvs"
| "flag_free (VArray vs) = list_all (\<lambda>v. flag_free v \<and> \<not> described v) vs"
| "flag_free _ = True"

text \<open>The length of what a serializer wrote, or its error.\<close>

definition written :: "ser_error + 's \<times> bytes \<Rightarrow> ser_error + nat" where
  "written r = (case r of Inl e \<Rightarrow> Inl e | Inr (_, bs) \<Rightarrow> Inr (length bs))"

definition written_bytes :: "ser_error + bytes \<Rightarrow> ser_error + nat" where
  "written_bytes r = (case r of Inl e \<Rightarrow> Inl e | Inr bs \<Rightarrow> Inr (length bs))"

lemma written_simps [simp]:
  "written (Inl e) = Inl e" "written (Inr (se, bs)) = Inr (length bs)"
  "written_bytes (Inl e) = Inl e" "written_bytes (Inr bs) = Inr (length bs)"
  by (simp_all add: written_def written_bytes_def)

lemma length_with_code [simp]: "length (with_code m c body) = fixed_size m (length body)"
  by (cases m) simp_all

abbreviation fresh_size :: "is_array_element \<Rightarrow> size_serializer" where
  "fresh_size m \<equiv> size_serializer_new\<lparr>sz_elem := m\<rparr>"

lemma write_compound_size: "written_bytes (write_compound c8 c32 m num buf) = map_size m (length buf)"
  by (simp add: write_compound_def map_size_def Let_def)

lemma write_compounds_size [simp]:
  "written_bytes (write_list m num buf) = list_size m (length buf)"
  "written_bytes (write_map m num buf) = map_size m (length buf)"
  "written_bytes (write_array m num buf) = array_size m (length buf)"
  by (simp_all add: write_list_def write_map_def write_array_def list_size_def array_size_def
      write_compound_size)

lemma write_variable_size [simp]: "written_bytes (write_variable c8 c32 v) = size_variable (length v)"
  by (simp add: write_variable_def size_variable_def)

lemmas size_defs = size_serializer_new_def size_str_def size_bytes_def size_i64_def
  serializer_new_def serialize_str_def serialize_bytes_def serialize_i64_def

lemma written_compound:
  "written (case r of Inl e \<Rightarrow> Inl e
            | Inr buf \<Rightarrow> (case f buf of Inl e \<Rightarrow> Inl e | Inr bs \<Rightarrow> Inr (se, bs))) =
   (case r of Inl e \<Rightarrow> Inl e | Inr buf \<Rightarrow> written_bytes (f buf))"
  by (simp add: written_bytes_def split: sum.splits)

lemma case_written_bytes:
  "(case written_bytes r of Inl e \<Rightarrow> Inl e | Inr n \<Rightarrow> f n) =
   (case r of Inl e \<Rightarrow> Inl e | Inr buf \<Rightarrow> f (length buf))"
  by (cases r) simp_all

fun compound :: "amqp_value \<Rightarrow> bool" where
  "compound (VDescribed _ _) = True"
| "compound (VList _) = True"
| "compound (VMap _) = True"
| "compound (VArray _) = True"
| "compound _ = False"

lemma size_scalar:
  assumes "\<not> compound v"
  shows "size_value (fresh_size m) v = written (serialize_value m serializer_new v)"
  using assms by (cases v; cases m) (simp_all add: size_defs write_variable_def size_variable_def)

lemma size_descriptor_agrees:
  "size_descriptor size_serializer_new d = written (serialize_descriptor NoElement serializer_new d)"
  by (cases d) (simp_all add: size_defs write_variable_def size_variable_def)

lemma descriptor_keeps_serializer:
  "serialize_descriptor NoElement serializer_new d = Inr (se, bs) \<Longrightarrow> se = serializer_new"
  by (cases d) (auto simp: size_defs split: sum.splits)

lemma size_agrees:
  "flag_free v \<Longrightarrow> m \<noteq> NoElement \<longrightarrow> \<not> described v \<Longrightarrow> se = serializer_new \<Longrightarrow>
     size_value (fresh_size m) v = written (serialize_value m se v)"
  "list_all (\<lambda>v. flag_free v \<and> (sq = Some SeqArray \<longrightarrow> \<not> described v)) vs \<Longrightarrow>
     size_elements sq n vs = written_bytes (serialize_elements sq n vs)"
  "list_all (\<lambda>kv. flag_free (fst kv) \<and> flag_free (snd kv) \<and> key_ok (fst kv)) kvs \<Longrightarrow>
     size_entries kvs = written_bytes (serialize_entries kvs)"
proof (induction m se v and sq n vs and kvs rule: serialize_value_serialize_elements_serialize_entries.induct)
  case (1 m se d v)
  then have m: "m = NoElement" by simp
  show ?case
  proof (cases "serialize_descriptor m se d")
    case (Inl e)
    then show ?thesis using size_descriptor_agrees [of d] 1(4) by (simp add: m size_serializer_new_def)
  next
    case (Inr r)
    obtain se1 bs1 where r: "r = (se1, bs1)" by (cases r)
    have "se1 = serializer_new" using descriptor_keeps_serializer [of d se1 bs1] Inr 1(4) by (simp add: m r)
    then have "size_value size_serializer_new v = written (serialize_value m se1 v)"
      using 1(1) [OF Inr r [symmetric]] 1(2) by (simp add: m size_serializer_new_def)
    then show ?thesis
      using size_descriptor_agrees [of d] 1(4) Inr
      by (simp add: m r size_serializer_new_def split: sum.splits prod.splits)
  qed
next
  case (23 m se vs)
  then have "size_elements None 0 vs = written_bytes (serialize_elements None 0 vs)"
    by (simp add: serializer_new_def)
  then show ?case
    using 23(4) by (simp add: size_serializer_new_def serializer_new_def written_compound case_written_bytes
          cong: sum.case_cong)
next
  case (24 m se kvs)
  then have "size_entries kvs = written_bytes (serialize_entries kvs)" by simp
  then show ?case
    by (simp add: size_serializer_new_def serializer_new_def written_compound case_written_bytes
          cong: sum.case_cong)
next
  case (25 m se vs)
  then have "size_elements (Some SeqArray) 0 vs = written_bytes (serialize_elements (Some SeqArray) 0 vs)"
    by simp
  then show ?case
    by (simp add: size_serializer_new_def serializer_new_def written_compound case_written_bytes
          cong: sum.case_cong)
next
  case (27 sq n v vs)
  define m where
    "m = (if sq = Some SeqArray then (if n = 0 then FirstElement else OtherElement) else NoElement)"
  have v: "size_value (fresh_size m) v = written (serialize_value m serializer_new v)"
    using 27(1) 27(3) by (simp add: m_def)
  have fresh: "(if sq = Some SeqArray
      then size_serializer_new\<lparr>sz_elem := if n = 0 then FirstElement else OtherElement\<rparr>
      else size_serializer_new) = fresh_size m"
    by (simp add: size_serializer_new_def m_def)
  show ?case
  proof (cases "serialize_value m serializer_new v")
    case (Inl e)
    then show ?thesis using v by (simp only: size_elements.simps serialize_elements.simps fresh flip: m_def) simp
  next
    case (Inr r)
    obtain se bs where r: "r = (se, bs)" by (cases r)
    have "size_elements sq (Suc n) vs = written_bytes (serialize_elements sq (Suc n) vs)"
      using 27(2) [OF Inr [unfolded m_def] r [symmetric]] 27(3) by simp
    then show ?thesis
      using v Inr
      by (simp only: size_elements.simps serialize_elements.simps fresh flip: m_def)
        (simp add: r case_written_bytes split: sum.splits)
  qed
next
  case (29 k v kvs)
  have k: "size_value size_serializer_new k = written (serialize_value NoElement serializer_new k)"
    using 29(1) 29(4) by (simp add: size_serializer_new_def)
  show ?case
  proof (cases "serialize_value NoElement serializer_new k")
    case (Inl e) then show ?thesis using k by simp
  next
    case (Inr r)
    obtain se bs1 where r: "r = (se, bs1)" by (cases r)
    have "se = serializer_new" using serialize_keeps_serializer [of k se bs1] Inr 29(4) by (simp add: r)
    then have "size_value size_serializer_new v = written (serialize_value NoElement se v)"
      using 29(2) [OF Inr r [symmetric]] 29(4) by (simp add: size_serializer_new_def)
    then show ?thesis
      using k Inr 29(3) [OF Inr r [symmetric]] 29(4) by (simp add: r split: sum.splits prod.splits)
  qed
qed (simp_all only: size_scalar compound.simps not_False_eq_True size_elements.simps
      serialize_elements.simps size_entries.simps serialize_entries.simps written_simps list.size)



end
