(* ===== verification/Performatives.thy ===== *)
theory Performatives
  imports Codec_Size
begin

text \<open>
  The composite types: what the derive macro (serde_amqp_derive/src/ser.rs, util.rs) and the struct
  serializers of ser.rs and size_ser.rs do with a struct that is encoded as a described list, and
  the fields every performative, delivery state, terminus and error hands to them. A field is
  \<open>FNone\<close> when the macro buffers it (an absent option or a default value); a buffered field is
  written as null only when a later field is written.
\<close>

section \<open>Described lists\<close>

datatype cfield =
    FNone
  | FValue amqp_value
  | FComposite u64 "cfield list"
  | FTagMap "(delivery_tag \<times> cfield) list"

function serialize_field :: "cfield \<Rightarrow> ser_error + bytes"
  and serialize_fields :: "nat \<Rightarrow> cfield list \<Rightarrow> ser_error + nat \<times> bytes"
  and serialize_tag_map :: "(delivery_tag \<times> cfield) list \<Rightarrow> ser_error + bytes" where
  "serialize_field FNone = Inr [code_byte CNull]"
| "serialize_field (FValue v) = to_vec v"
| "serialize_field (FComposite code fs) =
     (case serialize_fields 0 fs of
        Inl e \<Rightarrow> Inl e
      | Inr (count, buf) \<Rightarrow>
          (case write_list NoElement count buf of
             Inl e \<Rightarrow> Inl e
           | Inr bs \<Rightarrow> Inr (code_byte CDescribedType # serialize_u64 NoElement code @ bs)))"
| "serialize_field (FTagMap kvs) =
     (case serialize_tag_map kvs of
        Inl e \<Rightarrow> Inl e
      | Inr buf \<Rightarrow> write_map NoElement (2 * length kvs) buf)"
| "serialize_fields nulls [] = Inr (0, [])"
| "serialize_fields nulls (f # fs) =
     (if f = FNone then serialize_fields (Suc nulls) fs
      else case serialize_field f of
        Inl e \<Rightarrow> Inl e
      | Inr bs \<Rightarrow>
          (case serialize_fields 0 fs of
             Inl e \<Rightarrow> Inl e
           | Inr (count, buf) \<Rightarrow>
               Inr (nulls + 1 + count, replicate nulls (code_byte CNull) @ bs @ buf)))"
| "serialize_tag_map [] = Inr []"
| "serialize_tag_map ((tag, f) # kvs) =
     (case serialize_bytes NoElement serializer_new tag of
        Inl e \<Rightarrow> Inl e
      | Inr (_, bs1) \<Rightarrow>
          (case serialize_field f of
             Inl e \<Rightarrow> Inl e
           | Inr bs2 \<Rightarrow>
               (case serialize_tag_map kvs of Inl e \<Rightarrow> Inl e | Inr bs3 \<Rightarrow> Inr (bs1 @ bs2 @ bs3))))"
  by pat_completeness auto
termination
  by (relation "measure (\<lambda>x. case x of
        Inl f \<Rightarrow> size f
      | Inr (Inl (n, fs)) \<Rightarrow> size_list size fs
      | Inr (Inr kvs) \<Rightarrow> size_list (size_prod (\<lambda>_. 0) size) kvs)") auto

function field_size :: "cfield \<Rightarrow> ser_error + nat"
  and fields_size :: "nat \<Rightarrow> cfield list \<Rightarrow> ser_error + nat"
  and tag_map_size :: "(delivery_tag \<times> cfield) list \<Rightarrow> ser_error + nat" where
  "field_size FNone = Inr 1"
| "field_size (FValue v) = serialized_size v"
| "field_size (FComposite code fs) =
     (case fields_size 0 fs of
        Inl e \<Rightarrow> Inl e
      | Inr n \<Rightarrow> list_size NoElement (size_u64 NoElement code + 1 + n))"
| "field_size (FTagMap kvs) =
     (case tag_map_size kvs of Inl e \<Rightarrow> Inl e | Inr n \<Rightarrow> map_size NoElement n)"
| "fields_size nulls [] = Inr 0"
| "fields_size nulls (f # fs) =
     (if f = FNone then fields_size (Suc nulls) fs
      else case field_size f of
        Inl e \<Rightarrow> Inl e
      | Inr n \<Rightarrow> (case fields_size 0 fs of Inl e \<Rightarrow> Inl e | Inr n' \<Rightarrow> Inr (nulls + n + n')))"
| "tag_map_size [] = Inr 0"
| "tag_map_size ((tag, f) # kvs) =
     (case size_bytes size_serializer_new tag of
        Inl e \<Rightarrow> Inl e
      | Inr n1 \<Rightarrow>
          (case field_size f of
             Inl e \<Rightarrow> Inl e
           | Inr n2 \<Rightarrow> (case tag_map_size kvs of Inl e \<Rightarrow> Inl e | Inr n3 \<Rightarrow> Inr (n1 + n2 + n3))))"
  by pat_completeness auto
termination
  by (relation "measure (\<lambda>x. case x of
        Inl f \<Rightarrow> size f
      | Inr (Inl (n, fs)) \<Rightarrow> size_list size fs
      | Inr (Inr kvs) \<Rightarrow> size_list (size_prod (\<lambda>_. 0) size) kvs)") auto

section \<open>Fields of the types\<close>

text \<open>An option, and a field with the attribute \<open>default\<close>.\<close>

definition opt :: "('a \<Rightarrow> cfield) \<Rightarrow> 'a option \<Rightarrow> cfield" where
  "opt f x = (case x of None \<Rightarrow> FNone | Some y \<Rightarrow> f y)"

definition dflt :: "'a \<Rightarrow> ('a \<Rightarrow> cfield) \<Rightarrow> 'a \<Rightarrow> cfield" where
  "dflt d f x = (if x = d then FNone else f x)"

abbreviation f_bool :: "bool \<Rightarrow> cfield" where "f_bool b \<equiv> FValue (VBool b)"
abbreviation f_ushort :: "u16 \<Rightarrow> cfield" where "f_ushort n \<equiv> FValue (VUshort n)"
abbreviation f_uint :: "u32 \<Rightarrow> cfield" where "f_uint n \<equiv> FValue (VUint n)"
abbreviation f_ulong :: "u64 \<Rightarrow> cfield" where "f_ulong n \<equiv> FValue (VUlong n)"
abbreviation f_string :: "string \<Rightarrow> cfield" where "f_string s \<equiv> FValue (VString s)"
abbreviation f_symbol :: "symbol \<Rightarrow> cfield" where "f_symbol s \<equiv> FValue (VSymbol s)"
abbreviation f_binary :: "bytes \<Rightarrow> cfield" where "f_binary b \<equiv> FValue (VBinary b)"
abbreviation f_symbols :: "symbol list \<Rightarrow> cfield" where "f_symbols ss \<equiv> FValue (VArray (map VSymbol ss))"
abbreviation f_fields :: "fields \<Rightarrow> cfield" where
  "f_fields m \<equiv> FValue (VMap (map (\<lambda>(k, v). (VSymbol k, v)) m))"

fun role_bool :: "role \<Rightarrow> bool" where
  "role_bool Sender = False"
| "role_bool Receiver = True"

fun rcv_settle_mode_u8 :: "receiver_settle_mode \<Rightarrow> u8" where
  "rcv_settle_mode_u8 First = 0"
| "rcv_settle_mode_u8 Second = 1"

fun snd_settle_mode_u8 :: "sender_settle_mode \<Rightarrow> u8" where
  "snd_settle_mode_u8 Unsettled = 0"
| "snd_settle_mode_u8 Settled = 1"
| "snd_settle_mode_u8 Mixed = 2"

fun amqp_error_symbol :: "amqp_error_cond \<Rightarrow> symbol" where
  "amqp_error_symbol InternalError = ''amqp:internal-error''"
| "amqp_error_symbol NotFound = ''amqp:not-found''"
| "amqp_error_symbol UnauthorizedAccess = ''amqp:unauthorized-access''"
| "amqp_error_symbol DecodeError = ''amqp:decode-error''"
| "amqp_error_symbol ResourceLimitExceeded = ''amqp:resource-limit-exceeded''"
| "amqp_error_symbol NotAllowed = ''amqp:not-allowed''"
| "amqp_error_symbol InvalidField = ''amqp:invalid-field''"
| "amqp_error_symbol NotImplemented = ''amqp:not-implemented''"
| "amqp_error_symbol ResourceLocked = ''amqp:resource-locked''"
| "amqp_error_symbol PreconditionFailed = ''amqp:precondition-failed''"
| "amqp_error_symbol ResourceDeleted = ''amqp:resource-deleted''"
| "amqp_error_symbol AmqpIllegalState = ''amqp:illegal-state''"
| "amqp_error_symbol FrameSizeTooSmall = ''amqp:frame-size-too-small''"

fun connection_error_symbol :: "connection_error_cond \<Rightarrow> symbol" where
  "connection_error_symbol ConnectionForced = ''amqp:connection:forced''"
| "connection_error_symbol FramingError = ''amqp:connection:framing-error''"
| "connection_error_symbol ConnectionRedirect = ''amqp:connection:redirect''"

fun session_error_symbol :: "session_error_cond \<Rightarrow> symbol" where
  "session_error_symbol WindowViolation = ''amqp:session:window-violation''"
| "session_error_symbol ErrantLink = ''amqp:session:errant-link''"
| "session_error_symbol SeHandleInUse = ''amqp:session:handle-in-use''"
| "session_error_symbol SeUnattachedHandle = ''amqp:session:unattached-handle''"

fun link_error_symbol :: "link_error_cond \<Rightarrow> symbol" where
  "link_error_symbol DetachForced = ''amqp:link:detach-forced''"
| "link_error_symbol TransferLimitExceeded = ''amqp:link:transfer-limit-exceeded''"
| "link_error_symbol MessageSizeExceeded = ''amqp:link:message-size-exceeded''"
| "link_error_symbol LinkRedirect = ''amqp:link:redirect''"
| "link_error_symbol Stolen = ''amqp:link:stolen''"

fun transaction_error_symbol :: "transaction_error \<Rightarrow> symbol" where
  "transaction_error_symbol UnknownId = ''amqp:transaction:unknown-id''"
| "transaction_error_symbol TxnRollback = ''amqp:transaction:rollback''"
| "transaction_error_symbol TxnTimeout = ''amqp:transaction:timeout''"

fun error_condition_symbol :: "error_condition \<Rightarrow> symbol" where
  "error_condition_symbol (AmqpError e) = amqp_error_symbol e"
| "error_condition_symbol (ConnectionError e) = connection_error_symbol e"
| "error_condition_symbol (SessionError e) = session_error_symbol e"
| "error_condition_symbol (LinkError e) = link_error_symbol e"
| "error_condition_symbol (CustomError s) = s"
| "error_condition_symbol (TransactionError e) = transaction_error_symbol e"

definition error_composite :: "amqp_error \<Rightarrow> cfield" where
  "error_composite e = FComposite 0x1d
     [f_symbol (error_condition_symbol (err_condition e)), opt f_string (err_description e),
      opt f_fields (err_info e)]"

definition modified_composite :: "modified \<Rightarrow> cfield" where
  "modified_composite m = FComposite 0x27
     [opt f_bool (delivery_failed m), opt f_bool (undeliverable_here m), opt f_fields (message_annotations m)]"

definition rejected_composite :: "amqp_error option \<Rightarrow> cfield" where
  "rejected_composite e = FComposite 0x25 [opt error_composite e]"

fun outcome_composite :: "outcome \<Rightarrow> cfield" where
  "outcome_composite OAccepted = FComposite 0x24 []"
| "outcome_composite (ORejected e) = rejected_composite e"
| "outcome_composite OReleased = FComposite 0x26 []"
| "outcome_composite (OModified m) = modified_composite m"
| "outcome_composite (ODeclared txn) = FComposite 0x33 [f_binary txn]"

fun delivery_state_composite :: "delivery_state \<Rightarrow> cfield" where
  "delivery_state_composite (Received n off) = FComposite 0x23 [f_uint n, f_ulong off]"
| "delivery_state_composite Accepted = FComposite 0x24 []"
| "delivery_state_composite (Rejected e) = rejected_composite e"
| "delivery_state_composite Released = FComposite 0x26 []"
| "delivery_state_composite (Modified m) = modified_composite m"
| "delivery_state_composite (Declared txn) = FComposite 0x33 [f_binary txn]"
| "delivery_state_composite (TransactionalState txn out) =
     FComposite 0x34 [f_binary txn, opt outcome_composite out]"

fun durability_index :: "terminus_durability \<Rightarrow> u32" where
  "durability_index DurNone = 0"
| "durability_index DurConfiguration = 1"
| "durability_index DurUnsettledState = 2"

fun expiry_policy_symbol :: "terminus_expiry_policy \<Rightarrow> symbol" where
  "expiry_policy_symbol LinkDetach = ''link-detach''"
| "expiry_policy_symbol SessionEnd = ''session-end''"
| "expiry_policy_symbol ConnectionClose = ''connection-close''"
| "expiry_policy_symbol Never = ''never''"

fun distribution_mode_symbol :: "distribution_mode \<Rightarrow> symbol" where
  "distribution_mode_symbol Move = ''move''"
| "distribution_mode_symbol Copy = ''copy''"

definition source_composite :: "source \<Rightarrow> cfield" where
  "source_composite s = FComposite 0x28
     [opt f_string (src_address s), dflt DurNone (\<lambda>d. f_uint (durability_index d)) (src_durable s),
      dflt SessionEnd (\<lambda>p. f_symbol (expiry_policy_symbol p)) (src_expiry_policy s),
      dflt 0 f_uint (src_timeout s), dflt False f_bool (src_dynamic s),
      opt f_fields (src_dynamic_node_properties s),
      opt (\<lambda>m. f_symbol (distribution_mode_symbol m)) (src_distribution_mode s),
      opt f_fields (src_filter s), opt outcome_composite (src_default_outcome s),
      opt f_symbols (src_outcomes s), opt f_symbols (src_capabilities s)]"

definition target_composite :: "target \<Rightarrow> cfield" where
  "target_composite t = FComposite 0x29
     [opt f_string (tgt_address t), dflt DurNone (\<lambda>d. f_uint (durability_index d)) (tgt_durable t),
      dflt SessionEnd (\<lambda>p. f_symbol (expiry_policy_symbol p)) (tgt_expiry_policy t),
      dflt 0 f_uint (tgt_timeout t), dflt False f_bool (tgt_dynamic t),
      opt f_fields (tgt_dynamic_node_properties t), opt f_symbols (tgt_capabilities t)]"

fun txn_capability_symbol :: "txn_capability \<Rightarrow> symbol" where
  "txn_capability_symbol LocalTransactions = ''amqp:local-transactions''"
| "txn_capability_symbol DistributedTransactions = ''amqp:distributed-transactions''"
| "txn_capability_symbol PromotableTransactions = ''amqp:promotable-transactions''"
| "txn_capability_symbol MultiTxnsPerSsn = ''amqp:multi-txns-per-ssn''"
| "txn_capability_symbol MultiSsnsPerTxn = ''amqp:multi-ssns-per-txn''"

fun target_archetype_composite :: "target_archetype \<Rightarrow> cfield" where
  "target_archetype_composite (ATarget t) = target_composite t"
| "target_archetype_composite (ACoordinator caps) = FComposite 0x30 [opt (\<lambda>cs. f_symbols (map txn_capability_symbol cs)) caps]"

section \<open>Performatives\<close>

definition open_composite :: "open_perf \<Rightarrow> cfield" where
  "open_composite p = FComposite 0x10
     [f_string (op_container_id p), opt f_string (op_hostname p),
      dflt 0xFFFFFFFF f_uint (op_max_frame_size p), dflt 0xFFFF f_ushort (op_channel_max p),
      opt f_uint (op_idle_time_out p), opt f_symbols (op_outgoing_locales p),
      opt f_symbols (op_incoming_locales p), opt f_symbols (op_offered_capabilities p),
      opt f_symbols (op_desired_capabilities p), opt f_fields (op_properties p)]"

definition begin_composite :: "begin_perf \<Rightarrow> cfield" where
  "begin_composite p = FComposite 0x11
     [opt f_ushort (be_remote_channel p), f_uint (be_next_outgoing_id p), f_uint (be_incoming_window p),
      f_uint (be_outgoing_window p), dflt 0xFFFFFFFF f_uint (be_handle_max p),
      opt f_symbols (be_offered_capabilities p), opt f_symbols (be_desired_capabilities p),
      opt f_fields (be_properties p)]"

definition attach_composite :: "attach \<Rightarrow> cfield" where
  "attach_composite p = FComposite 0x12
     [f_string (at_name p), f_uint (at_handle p), f_bool (role_bool (at_role p)),
      dflt Mixed (\<lambda>m. FValue (VUbyte (snd_settle_mode_u8 m))) (at_snd_settle_mode p),
      dflt First (\<lambda>m. FValue (VUbyte (rcv_settle_mode_u8 m))) (at_rcv_settle_mode p),
      opt source_composite (at_source p), opt target_archetype_composite (at_target p),
      opt (\<lambda>m. FTagMap (map (\<lambda>(tag, st). (tag, opt delivery_state_composite st)) m)) (at_unsettled p),
      dflt False f_bool (at_incomplete_unsettled p), opt f_uint (at_initial_delivery_count p),
      opt f_ulong (at_max_message_size p), opt f_symbols (at_offered_capabilities p),
      opt f_symbols (at_desired_capabilities p), opt f_fields (at_properties p)]"

definition flow_composite :: "flow \<Rightarrow> cfield" where
  "flow_composite p = FComposite 0x13
     [opt f_uint (fl_next_incoming_id p), f_uint (fl_incoming_window p), f_uint (fl_next_outgoing_id p),
      f_uint (fl_outgoing_window p), opt f_uint (fl_handle p), opt f_uint (fl_delivery_count p),
      opt f_uint (fl_link_credit p), opt f_uint (fl_available p), dflt False f_bool (fl_drain p),
      dflt False f_bool (fl_echo p), opt f_fields (fl_properties p)]"

definition transfer_composite :: "transfer \<Rightarrow> cfield" where
  "transfer_composite p = FComposite 0x14
     [f_uint (tr_handle p), opt f_uint (tr_delivery_id p), opt f_binary (tr_delivery_tag p),
      opt f_uint (tr_message_format p), opt f_bool (tr_settled p), dflt False f_bool (tr_more p),
      opt (\<lambda>m. FValue (VUbyte (rcv_settle_mode_u8 m))) (tr_rcv_settle_mode p),
      opt delivery_state_composite (tr_state p), dflt False f_bool (tr_resume p),
      dflt False f_bool (tr_aborted p), dflt False f_bool (tr_batchable p)]"

definition disposition_composite :: "disposition \<Rightarrow> cfield" where
  "disposition_composite p = FComposite 0x15
     [f_bool (role_bool (di_role p)), f_uint (di_first p), opt f_uint (di_last p),
      dflt False f_bool (di_settled p), opt delivery_state_composite (di_state p),
      dflt False f_bool (di_batchable p)]"

definition detach_composite :: "detach \<Rightarrow> cfield" where
  "detach_composite p = FComposite 0x16
     [f_uint (de_handle p), dflt False f_bool (de_closed p), opt error_composite (de_error p)]"

definition end_composite :: "end_perf \<Rightarrow> cfield" where
  "end_composite p = FComposite 0x17 [opt error_composite (en_error p)]"

definition close_composite :: "close_perf \<Rightarrow> cfield" where
  "close_composite p = FComposite 0x18 [opt error_composite (cl_error p)]"

end
