(* ===== verification/Composite_Codec.thy ===== *)
theory Composite_Codec
  imports Performatives
begin

text \<open>
  Composite types on the wire: a composite is written exactly as the described list that holds its
  fields up to the last one that is present, so the codec of values reads it back; and the size
  computed for it is at least the size written.
\<close>

section \<open>The described list behind a composite\<close>

function wire_value :: "cfield \<Rightarrow> amqp_value"
  and wire_fields :: "nat \<Rightarrow> cfield list \<Rightarrow> amqp_value list" where
  "wire_value FNone = VNull"
| "wire_value (FValue v) = v"
| "wire_value (FComposite code fs) = VDescribed (DCode code) (VList (wire_fields 0 fs))"
| "wire_value (FTagMap kvs) = VMap (map (\<lambda>kv. (VBinary (fst kv), wire_value (snd kv))) kvs)"
| "wire_fields nulls [] = []"
| "wire_fields nulls (f # fs) =
     (if f = FNone then wire_fields (Suc nulls) fs
      else replicate nulls VNull @ wire_value f # wire_fields 0 fs)"
  by pat_completeness auto
termination
  by (relation "measure (\<lambda>x. case x of Inl f \<Rightarrow> size f | Inr (n, fs) \<Rightarrow> size_list size fs)")
    (auto simp: size_list_estimation' less_Suc_eq_le)

lemma serialize_elements_shift:
  "serialize_elements None n vs = serialize_elements None m vs"
proof (induction vs arbitrary: n m)
  case (Cons v vs)
  from Cons.IH [of "Suc n" "Suc m"] show ?case by (simp cong: sum.case_cong prod.case_cong)
qed simp

lemma serialize_elements_append:
  "serialize_elements None n (vs @ ws) =
     (case serialize_elements None n vs of
        Inl e \<Rightarrow> Inl e
      | Inr bs \<Rightarrow> (case serialize_elements None 0 ws of Inl e \<Rightarrow> Inl e | Inr bs' \<Rightarrow> Inr (bs @ bs')))"
proof (induction vs arbitrary: n)
  case Nil
  then show ?case using serialize_elements_shift [of n ws 0] by (simp split: sum.splits)
next
  case (Cons v vs)
  then show ?case by (simp split: sum.splits prod.splits)
qed

lemma to_vec_Cons:
  "serialize_elements None n (v # vs) =
     (case to_vec v of
        Inl e \<Rightarrow> Inl e
      | Inr bs \<Rightarrow> (case serialize_elements None 0 vs of Inl e \<Rightarrow> Inl e | Inr bs' \<Rightarrow> Inr (bs @ bs')))"
  using serialize_elements_shift [of "Suc n" vs 0]
  by (simp add: to_vec_def split: sum.splits prod.splits)

lemma to_vec_described_list:
  "to_vec (VDescribed (DCode code) (VList vs)) =
     (case serialize_elements None 0 vs of
        Inl e \<Rightarrow> Inl e
      | Inr buf \<Rightarrow> (case write_list NoElement (length vs) buf of
                      Inl e \<Rightarrow> Inl e
                    | Inr bs \<Rightarrow> Inr (code_byte CDescribedType # serialize_u64 NoElement code @ bs)))"
  by (simp add: to_vec_def serializer_new_def split: sum.splits)

lemma serialize_binary_entry:
  "serialize_entries ((VBinary k, v) # kvs) =
     (case serialize_bytes NoElement serializer_new k of
        Inl e \<Rightarrow> Inl e
      | Inr (_, bs1) \<Rightarrow>
          (case to_vec v of
             Inl e \<Rightarrow> Inl e
           | Inr bs2 \<Rightarrow> (case serialize_entries kvs of Inl e \<Rightarrow> Inl e | Inr bs3 \<Rightarrow> Inr (bs1 @ bs2 @ bs3))))"
proof (cases "serialize_bytes NoElement serializer_new k")
  case (Inr r)
  then obtain se bs where r: "serialize_value NoElement serializer_new (VBinary k) = Inr (se, bs)"
    by (cases r) simp
  have "se = serializer_new" using serialize_keeps_serializer [OF _ r] by simp
  then show ?thesis using r by (simp add: to_vec_def split: sum.splits prod.splits)
qed simp

lemma serialize_as_value:
  "serialize_field f = to_vec (wire_value f)"
  "serialize_fields nulls fs =
     (case serialize_elements None 0 (wire_fields nulls fs) of
        Inl e \<Rightarrow> Inl e
      | Inr buf \<Rightarrow> Inr (length (wire_fields nulls fs), buf))"
  "serialize_tag_map kvs = serialize_entries (map (\<lambda>kv. (VBinary (fst kv), wire_value (snd kv))) kvs)"
proof (induction f and nulls fs and kvs rule: serialize_field_serialize_fields_serialize_tag_map.induct)
  case 1
  then show ?case by (simp add: to_vec_def)
next
  case (3 code fs)
  show ?case
    by (simp add: 3 to_vec_described_list del: serialize_fields.simps serialize_elements.simps split: sum.splits)
next
  case (4 kvs)
  then show ?case by (simp add: to_vec_def split: sum.splits)
next
  case (6 nulls f fs)
  then show ?case
    by (auto simp: serialize_elements_append serialize_nulls to_vec_Cons
        simp del: serialize_elements.simps split: sum.splits)
next
  case (8 tag f kvs)
  then show ?case
    by (simp add: serialize_binary_entry del: serialize_entries.simps split: sum.splits prod.splits)
qed simp_all

section \<open>The computed size\<close>

fun field_ok :: "cfield \<Rightarrow> bool" where
  "field_ok FNone = True"
| "field_ok (FValue v) = flag_free v"
| "field_ok (FComposite code fs) = list_all field_ok fs"
| "field_ok (FTagMap kvs) = list_all (\<lambda>kv. field_ok (snd kv)) kvs"

fun composites :: "cfield \<Rightarrow> nat" where
  "composites (FComposite code fs) = Suc (sum_list (map composites fs))"
| "composites (FTagMap kvs) = Suc (sum_list (map (\<lambda>kv. composites (snd kv)) kvs))"
| "composites _ = 0"

lemma size_u64_length: "size_u64 m code = length (serialize_u64 m code)"
  using size_scalar [of "VUlong code" m] by (simp add: size_serializer_new_def)

lemma size_u64_bound: "size_u64 NoElement code \<le> 9"
  by simp

lemma serialize_field_not_Nil: "serialize_field f = Inr bs \<Longrightarrow> bs \<noteq> []"
  using serialize_head [of "wire_value f"]
  by (auto simp: serialize_as_value(1) to_vec_def split: sum.splits)

lemma described_list_size:
  assumes "list_size NoElement (d + n) = Inr N" and "0 < d" and "d \<le> 10" and "buf = [] \<longrightarrow> n = 0"
    and "length buf \<le> n"
    and "n \<le> length buf + 6 * k"
  shows "\<exists>bs. write_list NoElement count buf = Inr bs \<and> d + length bs \<le> N \<and> N \<le> d + length bs + 6 * Suc k"
  using assms
  by (auto simp: list_size_def map_size_def write_list_def write_compound_def Let_def
      U8_MAX_MINUS_1_def U32_MAX_MINUS_4_def split: if_splits)

lemma tag_map_header_size:
  assumes "map_size NoElement n = Inr N" and "length buf \<le> n" and "n \<le> length buf + 6 * k"
  shows "\<exists>bs. write_map NoElement count buf = Inr bs \<and> length bs \<le> N \<and> N \<le> length bs + 6 * Suc k"
  using assms
  by (auto simp: map_size_def write_map_def write_compound_def Let_def
      U8_MAX_MINUS_1_def U32_MAX_MINUS_4_def split: if_splits)

lemma size_bounds:
  "field_ok f \<Longrightarrow> field_size f = Inr n \<Longrightarrow>
     \<exists>bs. serialize_field f = Inr bs \<and> length bs \<le> n \<and> n \<le> length bs + 6 * composites f"
  "list_all field_ok fs \<Longrightarrow> fields_size nulls fs = Inr n \<Longrightarrow>
     \<exists>count buf. serialize_fields nulls fs = Inr (count, buf) \<and> (buf = [] \<longrightarrow> n = 0) \<and>
       length buf \<le> n \<and> n \<le> length buf + 6 * sum_list (map composites fs)"
  "list_all (\<lambda>kv. field_ok (snd kv)) kvs \<Longrightarrow> tag_map_size kvs = Inr n \<Longrightarrow>
     \<exists>buf. serialize_tag_map kvs = Inr buf \<and> length buf \<le> n \<and>
       n \<le> length buf + 6 * sum_list (map (\<lambda>kv. composites (snd kv)) kvs)"
proof (induction f and nulls fs and kvs arbitrary: n and n and n
    rule: serialize_field_serialize_fields_serialize_tag_map.induct)
  case (2 v)
  then show ?case
    using size_agrees(1) [of v NoElement serializer_new]
    by (auto simp: serialized_size_def to_vec_def size_serializer_new_def written_def split: sum.splits prod.splits)
next
  case (3 code fs)
  let ?d = "size_u64 NoElement code + 1"
  from 3 obtain k where k: "fields_size 0 fs = Inr k" "list_size NoElement (?d + k) = Inr n"
    by (auto split: sum.splits)
  with 3 obtain count buf where buf: "serialize_fields 0 fs = Inr (count, buf)"
      "buf = [] \<longrightarrow> k = 0" "length buf \<le> k"
      "k \<le> length buf + 6 * sum_list (map composites fs)"
    by (metis field_ok.simps(3))
  then show ?case
    using described_list_size [OF k(2) _ _ buf(2-4), of count] size_u64_bound [of code]
    by (auto simp: size_u64_length)
next
  case (4 kvs)
  from 4 obtain k where k: "tag_map_size kvs = Inr k" "map_size NoElement k = Inr n"
    by (auto split: sum.splits)
  with 4 obtain buf where buf: "serialize_tag_map kvs = Inr buf" "length buf \<le> k"
      "k \<le> length buf + 6 * sum_list (map (\<lambda>kv. composites (snd kv)) kvs)"
    by (metis field_ok.simps(4))
  then show ?case using tag_map_header_size [OF k(2) buf(2,3)] by auto
next
  case (6 nulls f fs)
  show ?case
  proof (cases "f = FNone")
    case True
    then show ?thesis using 6 by simp
  next
    case False
    with 6 obtain k1 k2 where k: "field_size f = Inr k1" "fields_size 0 fs = Inr k2" "n = nulls + k1 + k2"
      by (auto split: sum.splits)
    obtain bs where bs: "serialize_field f = Inr bs" "length bs \<le> k1" "k1 \<le> length bs + 6 * composites f"
      using 6(2) [OF False _ k(1)] 6(4) by auto
    obtain count buf where "serialize_fields 0 fs = Inr (count, buf)" "length buf \<le> k2"
        "k2 \<le> length buf + 6 * sum_list (map composites fs)"
      using 6(3) [OF False bs(1) _ k(2)] 6(4) by auto
    then show ?thesis using False bs k(3) serialize_field_not_Nil [OF bs(1)] by simp
  qed
next
  case (8 tag f kvs)
  from 8 obtain k1 k2 k3 where k: "size_bytes size_serializer_new tag = Inr k1" "field_size f = Inr k2"
      "tag_map_size kvs = Inr k3" "n = k1 + k2 + k3"
    by (auto split: sum.splits)
  have "size_bytes size_serializer_new tag = written (serialize_bytes NoElement serializer_new tag)"
    using size_scalar [of "VBinary tag" NoElement] by (simp add: size_serializer_new_def)
  with k(1) obtain se bs1 where b1: "serialize_bytes NoElement serializer_new tag = Inr (se, bs1)"
      "length bs1 = k1"
    by (auto simp: written_def split: sum.splits)
  obtain bs2 where b2: "serialize_field f = Inr bs2" "length bs2 \<le> k2" "k2 \<le> length bs2 + 6 * composites f"
    using 8(1) [OF b1(1) refl _ k(2)] 8(3) by auto
  obtain bs3 where "serialize_tag_map kvs = Inr bs3" "length bs3 \<le> k3"
      "k3 \<le> length bs3 + 6 * sum_list (map (\<lambda>kv. composites (snd kv)) kvs)"
    using 8(2) [OF b1(1) refl b2(1) _ k(3)] 8(3) by auto
  then show ?case using b1 b2 k(4) by simp
qed simp_all

section \<open>Dropping and shrinking fields\<close>

text \<open>A field that is absent, or is not larger than the field it replaces.\<close>

definition fewer :: "cfield \<Rightarrow> cfield \<Rightarrow> bool" where
  "fewer f' f \<longleftrightarrow> f' = FNone \<or> f \<noteq> FNone \<and>
     (\<forall>n. field_size f = Inr n \<longrightarrow> (\<exists>n'. field_size f' = Inr n' \<and> n' \<le> n))"

lemma fewerI [intro]: "fewer FNone f" "fewer f f"
  by (auto simp: fewer_def)

lemma fewer_value:
  "field_size (FValue v') = Inr n' \<Longrightarrow> field_size (FValue v) = Inr n \<Longrightarrow> n' \<le> n \<Longrightarrow>
   fewer (FValue v') (FValue v)"
  by (simp add: fewer_def)

lemma field_size_pos:
  assumes "field_ok f" and "field_size f = Inr n"
  shows "0 < n"
proof -
  obtain bs where "serialize_field f = Inr bs" "length bs \<le> n" using size_bounds(1) [OF assms] by blast
  with serialize_field_not_Nil [of f bs] show ?thesis by (cases bs) auto
qed

lemma fields_size_mono:
  assumes "list_all2 fewer fs' fs" and "list_all field_ok fs" and "k \<le> k'" and "fields_size k fs = Inr n"
  shows "\<exists>n'. fields_size k' fs' = Inr n' \<and> n' + k \<le> n + k'"
  using assms
proof (induction fs' fs arbitrary: k k' n rule: list_all2_induct)
  case (Cons f' fs' f fs)
  show ?case
  proof (cases "f = FNone")
    case True
    then have "f' = FNone" using Cons.hyps(1) by (simp add: fewer_def)
    then show ?thesis using True Cons.IH [of "Suc k" "Suc k'" n] Cons.prems by simp
  next
    case False
    with Cons.prems obtain s n0 where s: "field_size f = Inr s" "fields_size 0 fs = Inr n0" "n = k + s + n0"
      by (auto split: sum.splits)
    show ?thesis
    proof (cases "f' = FNone")
      case True
      obtain m where "fields_size (Suc k') fs' = Inr m" "m \<le> n0 + Suc k'"
        using Cons.IH [of 0 "Suc k'" n0] Cons.prems(1) s(2) by auto
      then show ?thesis using True s field_size_pos [OF _ s(1)] Cons.prems(1) by simp
    next
      case False
      with Cons.hyps(1) s(1) obtain s' where "field_size f' = Inr s'" "s' \<le> s"
        by (auto simp: fewer_def)
      moreover obtain m where "fields_size 0 fs' = Inr m" "m \<le> n0"
        using Cons.IH [of 0 0 n0] Cons.prems(1) s(2) by auto
      ultimately show ?thesis using False s(3) Cons.prems(2) by simp
    qed
  qed
qed simp

lemma list_size_mono:
  assumes "list_size m b = Inr n" and "a \<le> b"
  shows "\<exists>n'. list_size m a = Inr n' \<and> n' \<le> n"
  using assms by (cases m) (auto simp: list_size_def map_size_def split: if_splits)

lemma composite_size_mono:
  assumes "list_all2 fewer fs' fs" and "list_all field_ok fs" and "field_size (FComposite code fs) = Inr n"
  shows "\<exists>n'. field_size (FComposite code fs') = Inr n' \<and> n' \<le> n"
proof -
  from assms(3) obtain k where k: "fields_size 0 fs = Inr k"
      "list_size NoElement (size_u64 NoElement code + 1 + k) = Inr n"
    by (auto split: sum.splits)
  obtain k' where "fields_size 0 fs' = Inr k'" "k' \<le> k"
    using fields_size_mono [OF assms(1,2) _ k(1), of 0] by auto
  then show ?thesis
    using list_size_mono [OF k(2), of "size_u64 NoElement code + 1 + k'"] by auto
qed

section \<open>Properties\<close>

text \<open>
  The size computed for a composite is never below the number of bytes written for it, so a
  frame planned with it cannot overflow; it is at most six bytes too large for every composite and
  every map inside. The witness is the delivery state accepted, written in four bytes and computed
  as six.
\<close>

lemma composite_size_covers:
  assumes "field_ok f" and "field_size f = Inr n"
  shows "\<exists>bs. serialize_field f = Inr bs \<and> length bs \<le> n \<and> n \<le> length bs + 6 * composites f"
  using size_bounds(1) [OF assms] by blast

lemma composite_size_covers_witness:
  "field_size (delivery_state_composite Accepted) = Inr 6 \<and>
   (\<exists>bs. serialize_field (delivery_state_composite Accepted) = Inr bs \<and> length bs = 4 \<and> length bs \<le> 6)"
proof -
  have n: "field_size (delivery_state_composite Accepted) = Inr 6"
    by (simp add: list_size_def map_size_def U8_MAX_MINUS_1_def)
  have "field_ok (delivery_state_composite Accepted)" by simp
  from composite_size_covers [OF this n] n show ?thesis by (auto simp: write_list_def)
qed

text \<open>
  A composite (a performative, a delivery state, an error, a terminus) is written as the
  described list of its fields up to the last one that is present, with null for the absent ones
  between; the value decoder reads exactly that list back and leaves what follows.
\<close>

lemma composite_wire_roundtrip:
  assumes "encodable (wire_value f)"
  shows "serialize_field f = Inl TooLong \<or>
    (\<exists>bs. serialize_field f = Inr bs \<and> (\<forall>rest. from_slice (bs @ rest) = Inr (wire_value f, rest)))"
proof (cases "serialize_value NoElement serializer_new (wire_value f)")
  case (Inl e)
  then show ?thesis
    using encodable_reachable [OF assms] by (cases e) (simp_all add: serialize_as_value(1) to_vec_def)
next
  case (Inr r)
  then obtain se bs where r: "serialize_value NoElement serializer_new (wire_value f) = Inr (se, bs)"
    by (cases r) auto
  have "from_slice (bs @ rest) = Inr (wire_value f, rest)" for rest
    using decodesD [OF decodes assms r, of "Suc (length (bs @ rest))" rest]
    by (simp add: from_slice_def del: deserialize_value.simps)
  then show ?thesis using r by (simp add: serialize_as_value(1) to_vec_def)
qed

definition example_detach :: detach where
  "example_detach = \<lparr>de_handle = 3, de_closed = False,
     de_error = Some \<lparr>err_condition = LinkError Stolen, err_description = None, err_info = None\<rparr>\<rparr>"

lemma composite_wire_roundtrip_witness:
  "wire_value (detach_composite example_detach) =
     VDescribed (DCode 0x16) (VList [VUint 3, VNull,
       VDescribed (DCode 0x1d) (VList [VSymbol ''amqp:link:stolen''])]) \<and>
   (\<exists>bs. serialize_field (detach_composite example_detach) = Inr bs \<and>
     from_slice (bs @ [9]) = Inr (wire_value (detach_composite example_detach), [9]))"
proof -
  have w: "wire_value (detach_composite example_detach) =
      VDescribed (DCode 0x16) (VList [VUint 3, VNull,
        VDescribed (DCode 0x1d) (VList [VSymbol ''amqp:link:stolen''])])"
    by (simp add: detach_composite_def example_detach_def error_composite_def opt_def dflt_def)
  then have e: "encodable (wire_value (detach_composite example_detach))"
    by (simp add: text_ok_def string_bytes_def U32_MAX_MINUS_4_def MAX_ARRAY_COUNT_def)
  have "serialize_field (detach_composite example_detach) \<noteq> Inl TooLong"
    by (simp add: serialize_as_value(1) w to_vec_def serialize_defs write_list_def write_compound_def Let_def)
  with composite_wire_roundtrip [OF e] w show ?thesis by blast
qed

end
