(* ===== verification/Frame_Codec.thy ===== *)
theory Frame_Codec
  imports Composite_Codec Connection
begin

text \<open>
  The frame encoder (fe2o3-amqp/src/frames/amqp.rs) and the sink of the transport
  (transport/mod.rs): a frame becomes the byte strings handed one by one to the length-delimited
  codec, which is not part of the repository and adds a four-byte length to each. Loops that need
  not end are \<open>partial_function\<close>s with result \<open>None\<close> when they do not return;
  \<open>Bytes::split_to\<close> out of range panics.
\<close>

datatype encode_error = EncSer ser_error | EncPanic

definition FRAME_TYPE_AMQP :: u8 where "FRAME_TYPE_AMQP = 0"

definition write_header :: "u16 \<Rightarrow> bytes" where
  "write_header channel = [2, FRAME_TYPE_AMQP] @ be_bytes 2 (unat channel)"

definition split_to :: "nat \<Rightarrow> bytes \<Rightarrow> (bytes \<times> bytes) option" where
  "split_to n bs = (if n \<le> length bs then Some (take n bs, drop n bs) else None)"

section \<open>Encoder\<close>

text \<open>The frames between the first and the last one of an oversized transfer.\<close>

partial_function (option) encode_middle ::
    "nat \<Rightarrow> nat \<Rightarrow> u16 \<Rightarrow> bytes \<Rightarrow> nat \<Rightarrow> payload \<Rightarrow> bytes \<Rightarrow> (encode_error + payload \<times> bytes) option" where
  "encode_middle max_body split_index channel buf remaining payload dst =
     (if max_body < remaining then
        (case split_to split_index payload of
           None \<Rightarrow> Some (Inl EncPanic)
         | Some (partial, rest) \<Rightarrow>
             encode_middle max_body split_index channel buf (length buf + length rest) rest
               (dst @ write_header channel @ buf @ partial))
      else Some (Inr (payload, dst)))"

definition encode_transfer ::
    "nat \<Rightarrow> u16 \<Rightarrow> transfer \<Rightarrow> payload \<Rightarrow> (encode_error + bytes) option" where
  "encode_transfer max_body channel t payload =
     (case serialize_field (transfer_composite t) of
        Inl e \<Rightarrow> Some (Inl (EncSer e))
      | Inr buf \<Rightarrow>
          if length buf + length payload \<le> max_body then Some (Inr (write_header channel @ buf @ payload))
          else
            (let first = t\<lparr>tr_more := True\<rparr> in
             case serialize_field (transfer_composite first) of
               Inl e \<Rightarrow> Some (Inl (EncSer e))
             | Inr buf1 \<Rightarrow>
                 (case split_to (usize_sub max_body (length buf1)) payload of
                    None \<Rightarrow> Some (Inl EncPanic)
                  | Some (partial, rest) \<Rightarrow>
                      (let cont = clear_continuation_fields first in
                       case serialize_field (transfer_composite cont) of
                         Inl e \<Rightarrow> Some (Inl (EncSer e))
                       | Inr buf2 \<Rightarrow>
                           (case encode_middle max_body (usize_sub max_body (length buf2)) channel buf2
                                   (length buf2 + length rest) rest (write_header channel @ buf1 @ partial) of
                              None \<Rightarrow> None
                            | Some (Inl e) \<Rightarrow> Some (Inl e)
                            | Some (Inr (rest2, dst)) \<Rightarrow>
                                (case serialize_field (transfer_composite (cont\<lparr>tr_more := tr_more t\<rparr>)) of
                                   Inl e \<Rightarrow> Some (Inl (EncSer e))
                                 | Inr buf3 \<Rightarrow>
                                     Some (Inr (dst @ write_header channel @ buf3 @ rest2))))))))"

definition encode_performative :: "u16 \<Rightarrow> cfield \<Rightarrow> (encode_error + bytes) option" where
  "encode_performative channel p =
     (case serialize_field p of
        Inl e \<Rightarrow> Some (Inl (EncSer e))
      | Inr bs \<Rightarrow> Some (Inr (write_header channel @ bs)))"

fun encode_body :: "nat \<Rightarrow> u16 \<Rightarrow> frame_body \<Rightarrow> (encode_error + bytes) option" where
  "encode_body max_body ch (FOpen p) = encode_performative ch (open_composite p)"
| "encode_body max_body ch (FBegin p) = encode_performative ch (begin_composite p)"
| "encode_body max_body ch (FAttach p) = encode_performative ch (attach_composite p)"
| "encode_body max_body ch (FFlow p) = encode_performative ch (flow_composite p)"
| "encode_body max_body ch (FTransfer p payload) = encode_transfer max_body ch p payload"
| "encode_body max_body ch (FDisposition p) = encode_performative ch (disposition_composite p)"
| "encode_body max_body ch (FDetach p) = encode_performative ch (detach_composite p)"
| "encode_body max_body ch (FEnd p) = encode_performative ch (end_composite p)"
| "encode_body max_body ch (FClose p) = encode_performative ch (close_composite p)"
| "encode_body max_body ch FEmpty = Some (Inr (write_header ch))"

text \<open>\<open>FrameEncoder::new(max_frame_size).encode(frame)\<close>.\<close>

definition encode_frame :: "nat \<Rightarrow> frame \<Rightarrow> (encode_error + bytes) option" where
  "encode_frame max_frame_size fr = encode_body (usize_sub max_frame_size 4) (f_channel fr) (f_body fr)"

section \<open>Sink\<close>

partial_function (option) send_chunks :: "nat \<Rightarrow> bytes \<Rightarrow> bytes list \<Rightarrow> bytes list option" where
  "send_chunks max_frame_size bs out =
     (if max_frame_size < length bs
      then send_chunks max_frame_size (drop max_frame_size bs) (out @ [take max_frame_size bs])
      else Some (out @ [bs]))"

text \<open>\<open>Transport::start_send\<close>; the size is the maximum length of the codec behind the transport.\<close>

definition start_send :: "nat \<Rightarrow> frame \<Rightarrow> (encode_error + bytes list) option" where
  "start_send max_frame_size fr =
     (case encode_frame max_frame_size fr of
        None \<Rightarrow> None
      | Some (Inl e) \<Rightarrow> Some (Inl e)
      | Some (Inr bs) \<Rightarrow> (case send_chunks max_frame_size bs [] of None \<Rightarrow> None | Some cs \<Rightarrow> Some (Inr cs)))"

lemma send_chunks_single: "length bs \<le> m \<Longrightarrow> send_chunks m bs out = Some (out @ [bs])"
  by (subst send_chunks.simps) simp

lemma length_write_header [simp]: "length (write_header ch) = 4"
  by (simp add: write_header_def)

end
