(* ===== verification/Sender_Link.thy ===== *)
theory Sender_Link
  imports Frame_Codec
begin

text \<open>
  The sending link endpoint: the state of \<open>Link\<close> (fe2o3-amqp/src/link/mod.rs), the detach
  handshake, and how a delivery leaves through \<open>SenderLink\<close> (link/sender_link.rs). The unsettled
  map is modelled by its contents and a \<open>oneshot\<close> by the entry of \<open>sl_resolved\<close>, as in the link
  relay that shares both. The writer to the session is a \<open>chan\<close> of link frames. \<open>usize\<close> arithmetic
  wraps as in a release build.
\<close>

section \<open>Link state\<close>

datatype link_state = LkUnattached | LkAttachSent | LkIncompleteAttachSent | LkAttachReceived
  | LkIncompleteAttachReceived | LkAttached | LkIncompleteAttachExchanged | LkDetachSent | LkDetached
  | LkCloseSent | LkClosed

record 'm link =
  l_local_state :: link_state
  l_name :: string
  l_output_handle :: "u32 option"
  l_input_handle :: "u32 option"
  l_snd_settle_mode :: sender_settle_mode
  l_rcv_settle_mode :: receiver_settle_mode
  l_source :: "source option"
  l_target :: "target_archetype option"
  l_max_message_size :: u64
  l_offered_capabilities :: "symbol list option"
  l_desired_capabilities :: "symbol list option"
  l_flow_state :: flow_state
  l_unsettled :: "(delivery_tag \<rightharpoonup> 'm) option"
  l_session_stop_reason :: "session_stop_reason option"
  l_max_frame_size :: nat
  l_verify_incoming_source :: bool
  l_verify_incoming_target :: bool

record sender_link = "unsettled_message link" +
  sl_resolved :: "delivery_tag \<rightharpoonup> resolution"

definition stopped_or_illegal :: "session_stop_reason option \<Rightarrow> link_state_error" where
  "stopped_or_illegal r = (case r of Some reason \<Rightarrow> LseSessionStopped reason | None \<Rightarrow> LseIllegalState)"

section \<open>Detach\<close>

datatype apply_remote_detach_error = ArdRemoteDetachedWithError amqp_error
  | ArdRemoteClosedWithError amqp_error | ArdIllegalState

datatype detach_error = DeIllegalState | DeSessionStopped session_stop_reason
  | DeRemoteDetachedWithError amqp_error | DeClosedByRemote | DeDetachedByRemote
  | DeRemoteClosedWithError amqp_error

fun detach_error_of_apply :: "apply_remote_detach_error \<Rightarrow> detach_error" where
  "detach_error_of_apply (ArdRemoteDetachedWithError e) = DeRemoteDetachedWithError e"
| "detach_error_of_apply (ArdRemoteClosedWithError e) = DeRemoteClosedWithError e"
| "detach_error_of_apply ArdIllegalState = DeIllegalState"

fun link_state_error_of_apply :: "apply_remote_detach_error \<Rightarrow> link_state_error" where
  "link_state_error_of_apply (ArdRemoteDetachedWithError e) = LseRemoteDetachedWithError e"
| "link_state_error_of_apply (ArdRemoteClosedWithError e) = LseRemoteClosedWithError e"
| "link_state_error_of_apply ArdIllegalState = LseIllegalState"

definition apply_remote_detach_outcome ::
    "('m, 'x) link_scheme \<Rightarrow> detach \<Rightarrow> ('m, 'x) link_scheme \<times> (apply_remote_detach_error + unit)" where
  "apply_remote_detach_outcome l d =
     (if l_local_state l \<in> {LkAttached, LkAttachSent, LkAttachReceived, LkIncompleteAttachExchanged,
           LkIncompleteAttachSent, LkIncompleteAttachReceived, LkDetachSent, LkCloseSent}
      then (l\<lparr>l_local_state := if de_closed d then LkClosed else LkDetached, l_output_handle := None\<rparr>,
            case de_error d of
              None \<Rightarrow> Inr ()
            | Some e \<Rightarrow> Inl (if de_closed d then ArdRemoteClosedWithError e else ArdRemoteDetachedWithError e))
      else (l, Inl ArdIllegalState))"

definition on_detach_reply ::
    "('m, 'x) link_scheme \<Rightarrow> detach \<Rightarrow> ('m, 'x) link_scheme \<times> (detach_error + unit)" where
  "on_detach_reply l d =
     (if l_local_state l = LkDetachSent \<and> \<not> de_closed d \<or> l_local_state l = LkCloseSent \<and> de_closed d
      then (case apply_remote_detach_outcome l d of
              (l1, Inl e) \<Rightarrow> (l1, Inl (detach_error_of_apply e))
            | (l1, Inr u) \<Rightarrow> (l1, Inr u))
      else (l, Inl DeIllegalState))"

definition send_detach ::
    "('m, 'x) link_scheme \<Rightarrow> link_frame chan \<Rightarrow> bool \<Rightarrow> amqp_error option \<Rightarrow>
     ('m, 'x) link_scheme \<times> link_frame chan \<times> (detach_error + unit)" where
  "send_detach l w closed error =
     (if l_local_state l \<noteq> LkAttached then (l, w, Inl DeIllegalState)
      else
        (let l1 = l\<lparr>l_local_state := if closed then LkCloseSent else LkDetachSent\<rparr> in
         case l_output_handle l1 of
           None \<Rightarrow> (l1, w, Inl DeIllegalState)
         | Some h \<Rightarrow>
             (let l2 = l1\<lparr>l_output_handle := None\<rparr> in
              case chan_send w (LfDetach \<lparr>de_handle = h, de_closed = closed, de_error = error\<rparr>) of
                Some w1 \<Rightarrow> (l2, w1, Inr ())
              | None \<Rightarrow> (l2, w, Inl (case l_session_stop_reason l of
                                      Some reason \<Rightarrow> DeSessionStopped reason
                                    | None \<Rightarrow> DeIllegalState)))))"

section \<open>Transfers\<close>

definition is_settled_on_send :: "('m, 'x) link_scheme \<Rightarrow> transfer \<Rightarrow> bool" where
  "is_settled_on_send l t =
     (case tr_settled t of Some b \<Rightarrow> b | None \<Rightarrow> l_snd_settle_mode l = Settled)"

definition send_transfer ::
    "session_stop_reason option \<Rightarrow> link_frame chan \<Rightarrow> u32 \<Rightarrow> transfer \<Rightarrow> payload \<Rightarrow> bool \<Rightarrow>
     link_state_error + link_frame chan" where
  "send_transfer stop w handle t payload is_first =
     (let lt = \<lparr>lt_input_handle = handle, lt_performative = t, lt_payload = payload\<rparr> in
      case chan_send w (if is_first then LfFirstTransfer lt else LfTransferContinuation lt) of
        Some w1 \<Rightarrow> Inr w1
      | None \<Rightarrow> Inl (stopped_or_illegal stop))"

text \<open>The transfers in the middle: the loop that splits while more than one frame is left.\<close>

partial_function (option) send_middle ::
    "nat \<Rightarrow> session_stop_reason option \<Rightarrow> u32 \<Rightarrow> transfer \<Rightarrow> link_frame chan \<Rightarrow> payload \<Rightarrow>
     (link_frame chan \<times> (link_state_error + payload)) option" where
  "send_middle max_payload stop handle t w payload =
     (if max_payload < length payload then
        (case send_transfer stop w handle t (take max_payload payload) False of
           Inl e \<Rightarrow> Some (w, Inl e)
         | Inr w1 \<Rightarrow> send_middle max_payload stop handle t w1 (drop max_payload payload))
      else Some (w, Inr payload))"

text \<open>The size of the performative with the largest delivery-id.\<close>

definition performative_size :: "transfer \<Rightarrow> ser_error + nat" where
  "performative_size t = field_size (transfer_composite (t\<lparr>tr_more := True, tr_delivery_id := Some 0xFFFFFFFF\<rparr>))"

definition send_split ::
    "nat \<Rightarrow> session_stop_reason option \<Rightarrow> u32 \<Rightarrow> transfer \<Rightarrow> link_frame chan \<Rightarrow> payload \<Rightarrow>
     (link_frame chan \<times> (link_state_error + unit)) option" where
  "send_split max_payload stop handle t w payload =
     (case send_transfer stop w handle (t\<lparr>tr_more := True\<rparr>) (take max_payload payload) True of
        Inl e \<Rightarrow> Some (w, Inl e)
      | Inr w1 \<Rightarrow>
          (let cont = clear_continuation_fields (t\<lparr>tr_more := True\<rparr>) in
           case send_middle max_payload stop handle cont w1 (drop max_payload payload) of
             None \<Rightarrow> None
           | Some (w2, Inl e) \<Rightarrow> Some (w2, Inl e)
           | Some (w2, Inr rest) \<Rightarrow>
               (case send_transfer stop w2 handle (cont\<lparr>tr_more := False\<rparr>) rest False of
                  Inl e \<Rightarrow> Some (w2, Inl e)
                | Inr w3 \<Rightarrow> Some (w3, Inr ()))))"

definition send_transfer_without_modifying_unsettled_map ::
    "('m, 'x) link_scheme \<Rightarrow> link_frame chan \<Rightarrow> transfer \<Rightarrow> payload \<Rightarrow>
     (link_frame chan \<times> (link_state_error + bool)) option" where
  "send_transfer_without_modifying_unsettled_map l w t payload =
     (let settled = is_settled_on_send l t in
      case l_input_handle l of
        None \<Rightarrow> Some (w, Inl LseIllegalState)
      | Some handle \<Rightarrow>
          (case performative_size t of
             Inl _ \<Rightarrow> Some (w, Inl LseIllegalState)
           | Inr n \<Rightarrow>
               (let max_payload = usize_sub (usize_sub (l_max_frame_size l) 4) n in
                if length payload \<le> max_payload then
                  (case send_transfer (l_session_stop_reason l) w handle (t\<lparr>tr_more := False\<rparr>) payload True of
                     Inl e \<Rightarrow> Some (w, Inl e)
                   | Inr w1 \<Rightarrow> Some (w1, Inr settled))
                else
                  (case send_split max_payload (l_session_stop_reason l) handle t w payload of
                     None \<Rightarrow> None
                   | Some (w1, Inl e) \<Rightarrow> Some (w1, Inl e)
                   | Some (w1, Inr _) \<Rightarrow> Some (w1, Inr settled)))))"

text \<open>
  The delivery is registered before the transfer is handed over and the registration withdrawn when
  that fails (\<open>UnsettledRegistration\<close>).
\<close>

definition send_unsettled_transfer ::
    "sender_link \<Rightarrow> link_frame chan \<Rightarrow> transfer \<Rightarrow> payload \<Rightarrow> delivery_tag \<Rightarrow> unsettled_message \<Rightarrow>
     (sender_link \<times> link_frame chan \<times> (link_state_error + unit)) option" where
  "send_unsettled_transfer l w t payload tag msg =
     (let map0 = (case l_unsettled l of Some m \<Rightarrow> m | None \<Rightarrow> Map.empty);
          l1 = l\<lparr>l_unsettled := Some (map0(tag \<mapsto> msg))\<rparr> in
      case send_transfer_without_modifying_unsettled_map l1 w t payload of
        None \<Rightarrow> None
      | Some (w1, Inr _) \<Rightarrow> Some (l1, w1, Inr ())
      | Some (w1, Inl e) \<Rightarrow> Some (l1\<lparr>l_unsettled := Some (map0(tag := None))\<rparr>, w1, Inl e))"

definition generate_non_resuming_transfer_performative ::
    "('m, 'x) link_scheme \<Rightarrow> delivery_tag \<Rightarrow> u32 \<Rightarrow> bool option \<Rightarrow> delivery_state option \<Rightarrow> bool \<Rightarrow>
     link_state_error + transfer" where
  "generate_non_resuming_transfer_performative l tag message_format settled state batchable =
     (case l_output_handle l of
        None \<Rightarrow> Inl LseIllegalState
      | Some handle \<Rightarrow>
          Inr \<lparr>tr_handle = handle, tr_delivery_id = None, tr_delivery_tag = Some tag,
               tr_message_format = Some message_format,
               tr_settled = Some (case l_snd_settle_mode l of
                                    Settled \<Rightarrow> True
                                  | Unsettled \<Rightarrow> False
                                  | Mixed \<Rightarrow> (case settled of Some b \<Rightarrow> b | None \<Rightarrow> False)),
               tr_more = False, tr_rcv_settle_mode = None, tr_state = state, tr_resume = False,
               tr_aborted = False, tr_batchable = batchable\<rparr>)"

datatype settlement = SettledNow delivery_tag | UnsettledYet delivery_tag

definition send_payload_with_transfer ::
    "sender_link \<Rightarrow> link_frame chan \<Rightarrow> u32 \<Rightarrow> transfer \<Rightarrow> payload \<Rightarrow>
     (sender_link \<times> link_frame chan \<times> (link_state_error + settlement)) option" where
  "send_payload_with_transfer l w message_format t payload =
     (case tr_delivery_tag t of
        None \<Rightarrow> Some (l, w, Inl LseIllegalState)
      | Some tag \<Rightarrow>
          if is_settled_on_send l t then
            (case send_transfer_without_modifying_unsettled_map l w t payload of
               None \<Rightarrow> None
             | Some (w1, Inl e) \<Rightarrow> Some (l, w1, Inl e)
             | Some (w1, Inr _) \<Rightarrow> Some (l, w1, Inr (SettledNow tag)))
          else
            (case send_unsettled_transfer l w t payload tag
                    \<lparr>um_payload = payload, um_state = None, um_message_format = message_format\<rparr> of
               None \<Rightarrow> None
             | Some (l1, w1, Inl e) \<Rightarrow> Some (l1, w1, Inl e)
             | Some (l1, w1, Inr _) \<Rightarrow> Some (l1, w1, Inr (UnsettledYet tag))))"

text \<open>
  \<open>send_payload\<close> waits for credit or for a detach; the branch of \<open>select!\<close> that fires is an argument:
  the frame (or its absence) from the session, or the credit that arrived by these flows.
\<close>

datatype send_wait = WaitFrame "link_frame option" | WaitCredit "(link_flow \<times> u32) list"

definition get_delivery_tag_or_detached ::
    "sender_link \<Rightarrow> send_wait \<Rightarrow> sender_link \<times> (link_state_error + bytes) option" where
  "get_delivery_tag_or_detached l wait =
     (case wait of
        WaitFrame (Some (LfDetach d)) \<Rightarrow>
          (case apply_remote_detach_outcome l d of
             (l1, Inr _) \<Rightarrow> (l1, Some (Inl (if de_closed d then LseRemoteClosed else LseRemoteDetached)))
           | (l1, Inl e) \<Rightarrow> (l1, Some (Inl (link_state_error_of_apply e))))
      | WaitFrame (Some _) \<Rightarrow> (l, Some (Inl LseExpectImmediateDetach))
      | WaitFrame None \<Rightarrow>
          (l, Some (Inl (case l_session_stop_reason l of
                           Some reason \<Rightarrow> LseSessionStopped reason
                         | None \<Rightarrow> LseExpectImmediateDetach)))
      | WaitCredit flows \<Rightarrow>
          (case consume (l_flow_state l) 1 flows of
             (st, None) \<Rightarrow> (l\<lparr>l_flow_state := st\<rparr>, None)
           | (st, Some tag) \<Rightarrow> (l\<lparr>l_flow_state := st\<rparr>, Some (Inr tag))))"

definition send_payload ::
    "sender_link \<Rightarrow> link_frame chan \<Rightarrow> send_wait \<Rightarrow> payload \<Rightarrow> u32 \<Rightarrow> bool option \<Rightarrow>
     delivery_state option \<Rightarrow> bool \<Rightarrow>
     (sender_link \<times> link_frame chan \<times> (link_state_error + settlement)) option" where
  "send_payload l w wait payload message_format settled state batchable =
     (case get_delivery_tag_or_detached l wait of
        (l1, None) \<Rightarrow> None
      | (l1, Some (Inl e)) \<Rightarrow> Some (l1, w, Inl e)
      | (l1, Some (Inr tag)) \<Rightarrow>
          (case generate_non_resuming_transfer_performative l1 tag message_format settled state batchable of
             Inl e \<Rightarrow> Some (l1, w, Inl e)
           | Inr t \<Rightarrow> send_payload_with_transfer l1 w message_format t payload))"

end
