(* ===== verification/Receiver_Link.thy ===== *)
theory Receiver_Link
  imports Sender_Link
begin

text \<open>
  The receiving link endpoint: reassembly of a delivery from its transfers
  (fe2o3-amqp/src/link/incomplete_transfer.rs), the bookkeeping of \<open>ReceiverLink\<close>
  (link/receiver_link.rs) and the handling of transfers and dispositions in \<open>ReceiverInner\<close>
  (link/receiver.rs). Decoding a message into the application's type is the argument \<open>decode\<close>.
  Where the code closes the link because of a malformed transfer, the result is \<open>RecvClose\<close> with the
  error of the detach and the error reported once the link is closed.
\<close>

section \<open>Sections of a message\<close>

definition is_section_header :: "u8 \<Rightarrow> u8 \<Rightarrow> u8 \<Rightarrow> bool" where
  "is_section_header b0 b1 b2 =
     (b0 = code_byte CDescribedType \<and> (b1 = code_byte CSmallUlong \<or> b1 = code_byte CUlong)
      \<and> 0x70 \<le> b2 \<and> b2 \<le> 0x78)"

text \<open>The loop over the bytes and their two successors: index, sections so far, last header.\<close>

fun count_sections :: "nat \<Rightarrow> u32 \<Rightarrow> nat \<Rightarrow> bytes \<Rightarrow> u32 \<times> nat" where
  "count_sections i n last_pos (b0 # b1 # b2 # bs) =
     (if is_section_header b0 b1 b2 then count_sections (Suc i) (n + 1) i (b1 # b2 # bs)
      else count_sections (Suc i) n last_pos (b1 # b2 # bs))"
| "count_sections i n last_pos _ = (n, last_pos)"

definition count_number_of_sections_and_offset :: "bytes \<Rightarrow> u32 \<times> u64" where
  "count_number_of_sections_and_offset bs =
     (case count_sections 0 0 0 bs of (n, last_pos) \<Rightarrow> (n, word_of_nat (length bs - last_pos)))"

section \<open>Incomplete transfers\<close>

datatype receiver_transfer_error = RteIllegalState | RteTransferLimitExceeded | RteDeliveryIdIsNone
  | RteDeliveryTagIsNone | RteMessageDecode u32 delivery_tag "receiver_settle_mode option"
  | RteIllegalRcvSettleModeInTransfer | RteInconsistentFieldInMultiFrameDelivery

record incomplete_transfer =
  it_performative :: transfer
  it_delivery_tag :: delivery_tag
  it_buffer :: "payload list"
  it_section_number :: u32
  it_section_offset :: u64
  it_accumulated_payload_size :: u64

definition start_incomplete :: "transfer \<Rightarrow> payload \<Rightarrow> receiver_transfer_error + incomplete_transfer" where
  "start_incomplete t p =
     (if tr_delivery_id t = None then Inl RteDeliveryIdIsNone
      else case tr_delivery_tag t of
        None \<Rightarrow> Inl RteDeliveryTagIsNone
      | Some tag \<Rightarrow>
          (case count_number_of_sections_and_offset p of (number, offset) \<Rightarrow>
             Inr \<lparr>it_performative = t, it_delivery_tag = tag, it_buffer = [p], it_section_number = number,
                  it_section_offset = offset, it_accumulated_payload_size = word_of_nat (length p)\<rparr>))"

definition is_same_delivery_as :: "incomplete_transfer \<Rightarrow> transfer \<Rightarrow> bool" where
  "is_same_delivery_as it t =
     (case tr_delivery_tag t of Some remote \<Rightarrow> remote = it_delivery_tag it | None \<Rightarrow> True)"

text \<open>The macro \<open>or_assign\<close> on one field.\<close>

definition or_field :: "'a option \<Rightarrow> 'a option \<Rightarrow> 'a option option" where
  "or_field mine other =
     (case mine of
        Some v \<Rightarrow> (case other of Some v' \<Rightarrow> if v = v' then Some mine else None | None \<Rightarrow> Some mine)
      | None \<Rightarrow> Some other)"

definition or_assign :: "transfer \<Rightarrow> transfer \<Rightarrow> receiver_transfer_error + transfer" where
  "or_assign t other =
     (case (or_field (tr_delivery_id t) (tr_delivery_id other),
            or_field (tr_delivery_tag t) (tr_delivery_tag other),
            or_field (tr_message_format t) (tr_message_format other)) of
        (Some did, Some tag, Some fmt) \<Rightarrow>
          (let t1 = t\<lparr>tr_delivery_id := did, tr_delivery_tag := tag, tr_message_format := fmt\<rparr>;
               t2 = (case tr_settled t1 of
                       Some value \<Rightarrow>
                         (case tr_settled other of
                            Some other_value \<Rightarrow> if \<not> value then t1\<lparr>tr_settled := Some other_value\<rparr> else t1
                          | None \<Rightarrow> t1)
                     | None \<Rightarrow> t1\<lparr>tr_settled := tr_settled other\<rparr>)
           in Inr (case tr_state other of
                     None \<Rightarrow> t2
                   | Some other_state \<Rightarrow>
                       (case tr_state t2 of
                          Some st \<Rightarrow> if \<not> is_terminal st then t2\<lparr>tr_state := Some other_state\<rparr> else t2
                        | None \<Rightarrow> t2\<lparr>tr_state := Some other_state\<rparr>)))
      | _ \<Rightarrow> Inl RteInconsistentFieldInMultiFrameDelivery)"

definition append_payload :: "incomplete_transfer \<Rightarrow> payload \<Rightarrow> incomplete_transfer" where
  "append_payload it p =
     (case count_number_of_sections_and_offset p of (number, offset) \<Rightarrow>
        (if number = 0 then it\<lparr>it_section_offset := it_section_offset it + offset\<rparr>
         else it\<lparr>it_section_number := it_section_number it + number, it_section_offset := offset\<rparr>)
        \<lparr>it_accumulated_payload_size := it_accumulated_payload_size it + word_of_nat (length p),
         it_buffer := it_buffer it @ [p]\<rparr>)"

definition try_append ::
    "incomplete_transfer \<Rightarrow> transfer \<Rightarrow> payload \<Rightarrow> receiver_transfer_error + incomplete_transfer" where
  "try_append it t p =
     (if \<not> is_same_delivery_as it t then Inl RteInconsistentFieldInMultiFrameDelivery
      else case or_assign (it_performative it) t of
        Inl e \<Rightarrow> Inl e
      | Inr perf \<Rightarrow> Inr (append_payload (it\<lparr>it_performative := perf\<rparr>) p))"

text \<open>
  \<open>position_of_section_number_and_offset\<close>: index, section number and offset counted so far. The
  second function is the loop over the chunks; it goes on after the chunk that was cut.
\<close>

fun position_loop :: "u32 \<Rightarrow> u64 \<Rightarrow> nat \<Rightarrow> u32 \<Rightarrow> u64 \<Rightarrow> bytes \<Rightarrow> nat option" where
  "position_loop number offset i cur_number cur_offset (b0 # b1 # b2 # bs) =
     (let n = (if is_section_header b0 b1 b2 then cur_number + 1 else cur_number);
          off = (if is_section_header b0 b1 b2 then 0 else cur_offset + 1)
      in if n = number \<and> off = offset then Some i
         else position_loop number offset (Suc i) n off (b1 # b2 # bs))"
| "position_loop number offset i cur_number cur_offset _ = None"

definition position_of_section_number_and_offset :: "incomplete_transfer \<Rightarrow> u32 \<Rightarrow> u64 \<Rightarrow> nat option" where
  "position_of_section_number_and_offset it number offset =
     position_loop number offset 0 0 0 (concat (it_buffer it))"

fun keep_chunks :: "nat \<Rightarrow> payload list \<Rightarrow> payload list" where
  "keep_chunks index [] = []"
| "keep_chunks index (c # cs) =
     (if length c < index then c # keep_chunks (index - length c) cs
      else take index c # keep_chunks index cs)"

definition keep_buffer_till_section_number_and_offset ::
    "incomplete_transfer \<Rightarrow> u32 \<Rightarrow> u64 \<Rightarrow> incomplete_transfer" where
  "keep_buffer_till_section_number_and_offset it number offset =
     (case position_of_section_number_and_offset it number offset of
        None \<Rightarrow> it
      | Some index \<Rightarrow>
          (let buf = keep_chunks index (it_buffer it) in
           it\<lparr>it_buffer := buf, it_accumulated_payload_size := word_of_nat (sum_list (map length buf))\<rparr>))"

section \<open>Link bookkeeping\<close>

type_synonym receiver_link = "delivery_state option link"

record 'a delivery =
  dl_link_output_handle :: u32
  dl_delivery_id :: u32
  dl_delivery_tag :: delivery_tag
  dl_message_format :: "u32 option"
  dl_rcv_settle_mode :: "receiver_settle_mode option"
  dl_message :: 'a

definition unsettled_or_new :: "receiver_link \<Rightarrow> (delivery_tag \<rightharpoonup> delivery_state option)" where
  "unsettled_or_new l = (case l_unsettled l of Some m \<Rightarrow> m | None \<Rightarrow> Map.empty)"

definition link_on_transfer_state ::
    "receiver_link \<Rightarrow> delivery_tag \<Rightarrow> bool option \<Rightarrow> delivery_state \<Rightarrow> receiver_link" where
  "link_on_transfer_state l tag settled state =
     (let m = unsettled_or_new l in
      l\<lparr>l_unsettled := Some
          (if settled = Some True then m(tag := None)
           else case m tag of
             Some (Some st) \<Rightarrow> if is_terminal st then m else m(tag \<mapsto> Some state)
           | _ \<Rightarrow> m(tag \<mapsto> Some state))\<rparr>)"

definition link_on_incomplete_transfer :: "receiver_link \<Rightarrow> delivery_tag \<Rightarrow> u32 \<Rightarrow> u64 \<Rightarrow> receiver_link" where
  "link_on_incomplete_transfer l tag number offset =
     l\<lparr>l_unsettled := Some ((unsettled_or_new l)(tag \<mapsto> Some (Received number offset)))\<rparr>"

definition link_on_complete_transfer ::
    "(bytes \<Rightarrow> 'a option) \<Rightarrow> receiver_link \<Rightarrow> transfer \<Rightarrow> bytes \<Rightarrow> u32 \<Rightarrow> u64 \<Rightarrow>
     receiver_link \<times> (receiver_transfer_error + 'a delivery)" where
  "link_on_complete_transfer decode l t payload number offset =
     (if l_local_state l \<notin> {LkAttached, LkIncompleteAttachExchanged} then (l, Inl RteIllegalState)
      else case receiver_consume (l_flow_state l) 1 of
        Inl _ \<Rightarrow> (l, Inl RteTransferLimitExceeded)
      | Inr st \<Rightarrow>
          (let l1 = l\<lparr>l_flow_state := st\<rparr>;
               settled_by_sender = (case tr_settled t of Some b \<Rightarrow> b | None \<Rightarrow> False) in
           case (tr_delivery_id t, tr_delivery_tag t) of
             (None, _) \<Rightarrow> (l1, Inl RteDeliveryIdIsNone)
           | (_, None) \<Rightarrow> (l1, Inl RteDeliveryTagIsNone)
           | (Some did, Some tag) \<Rightarrow>
               if \<not> settled_by_sender \<and> tr_rcv_settle_mode t = Some Second \<and> l_rcv_settle_mode l1 = First
               then (l1, Inl RteIllegalRcvSettleModeInTransfer)
               else
                 (let mode = (if settled_by_sender then None else tr_rcv_settle_mode t);
                      l2 = (if settled_by_sender then l1 else link_on_incomplete_transfer l1 tag number offset) in
                  case decode payload of
                    None \<Rightarrow> (l2, Inl (RteMessageDecode did tag mode))
                  | Some message \<Rightarrow>
                      (case l_output_handle l2 of
                         None \<Rightarrow> (l2, Inl RteIllegalState)
                       | Some h \<Rightarrow>
                           (l2, Inr \<lparr>dl_link_output_handle = h, dl_delivery_id = did, dl_delivery_tag = tag,
                                     dl_message_format = tr_message_format t, dl_rcv_settle_mode = mode,
                                     dl_message = message\<rparr>)))))"

text \<open>\<open>ReceiverLink::dispose\<close>: a disposition is sent only for a delivery in the unsettled map.\<close>

definition settled_by_mode :: "receiver_link \<Rightarrow> receiver_settle_mode option \<Rightarrow> bool option \<Rightarrow> bool" where
  "settled_by_mode l mode settled =
     (case settled of
        Some b \<Rightarrow> b
      | None \<Rightarrow> (case mode of Some m \<Rightarrow> m | None \<Rightarrow> l_rcv_settle_mode l) = First)"

record delivery_info =
  in_delivery_id :: u32
  in_delivery_tag :: delivery_tag
  in_rcv_settle_mode :: "receiver_settle_mode option"

definition receiver_disposition :: "u32 \<Rightarrow> u32 option \<Rightarrow> bool \<Rightarrow> delivery_state \<Rightarrow> bool \<Rightarrow> link_frame" where
  "receiver_disposition first_id last_id settled state batchable =
     LfDisposition \<lparr>di_role = Receiver, di_first = first_id, di_last = last_id, di_settled = settled,
       di_state = Some state, di_batchable = batchable\<rparr>"

definition link_dispose ::
    "receiver_link \<Rightarrow> link_frame chan \<Rightarrow> delivery_info \<Rightarrow> bool option \<Rightarrow> delivery_state \<Rightarrow> bool \<Rightarrow>
     receiver_link \<times> link_frame chan \<times> (link_state_error + unit)" where
  "link_dispose l w info settled_opt state batchable =
     (let settled = settled_by_mode l (in_rcv_settle_mode info) settled_opt;
          tag = in_delivery_tag info;
          found = (case l_unsettled l of Some m \<Rightarrow> m tag \<noteq> None | None \<Rightarrow> False);
          l1 = (if settled then l\<lparr>l_unsettled := map_option (\<lambda>m. m(tag := None)) (l_unsettled l)\<rparr>
                else l\<lparr>l_unsettled := Some ((unsettled_or_new l)(tag \<mapsto> Some state))\<rparr>) in
      if \<not> found then (l1, w, Inr ())
      else case chan_send w (receiver_disposition (in_delivery_id info) None settled state batchable) of
        Some w1 \<Rightarrow> (l1, w1, Inr ())
      | None \<Rightarrow> (l1, w, Inl (stopped_or_illegal (l_session_stop_reason l))))"

definition dispose_consecutive ::
    "receiver_link \<Rightarrow> link_frame chan \<Rightarrow> delivery_info list \<Rightarrow> bool option \<Rightarrow> delivery_state \<Rightarrow> bool \<Rightarrow>
     receiver_link \<times> link_frame chan \<times> (link_state_error + unit)" where
  "dispose_consecutive l w infos settled_opt state batchable =
     (case infos of
        [] \<Rightarrow> (l, w, Inr ())
      | info # _ \<Rightarrow>
          (let settled = settled_by_mode l (in_rcv_settle_mode info) settled_opt;
               l1 = (if settled
                     then l\<lparr>l_unsettled := map_option
                               (\<lambda>m. foldl (\<lambda>m i. m(in_delivery_tag i := None)) m infos) (l_unsettled l)\<rparr>
                     else l\<lparr>l_unsettled := Some
                               (foldl (\<lambda>m i. m(in_delivery_tag i \<mapsto> Some state)) (unsettled_or_new l) infos)\<rparr>) in
           case chan_send w (receiver_disposition (in_delivery_id info)
                  (Some (in_delivery_id (last infos))) settled state batchable) of
             Some w1 \<Rightarrow> (l1, w1, Inr ())
           | None \<Rightarrow> (l1, w, Inl (stopped_or_illegal (l_session_stop_reason l)))))"

fun info_chunk_indices :: "nat \<Rightarrow> delivery_info list \<Rightarrow> nat list" where
  "info_chunk_indices i (a # b # infos) =
     (if is_consecutive (in_delivery_id a) (in_delivery_id b) \<and> in_rcv_settle_mode a = in_rcv_settle_mode b
      then info_chunk_indices (Suc i) (b # infos)
      else Suc i # info_chunk_indices (Suc i) (b # infos))"
| "info_chunk_indices i _ = []"

fun dispose_chunks ::
    "receiver_link \<Rightarrow> link_frame chan \<Rightarrow> delivery_info list \<Rightarrow> nat \<Rightarrow> nat list \<Rightarrow> bool option \<Rightarrow>
     delivery_state \<Rightarrow> bool \<Rightarrow> receiver_link \<times> link_frame chan \<times> (link_state_error + unit)" where
  "dispose_chunks l w infos prev [] settled state batchable =
     dispose_consecutive l w (drop prev infos) settled state batchable"
| "dispose_chunks l w infos prev (ind # inds) settled state batchable =
     (case dispose_consecutive l w (take (ind - prev) (drop prev infos)) settled state batchable of
        (l1, w1, Inl e) \<Rightarrow> (l1, w1, Inl e)
      | (l1, w1, Inr _) \<Rightarrow> dispose_chunks l1 w1 infos ind inds settled state batchable)"

definition link_dispose_all ::
    "receiver_link \<Rightarrow> link_frame chan \<Rightarrow> delivery_info list \<Rightarrow> bool option \<Rightarrow> delivery_state \<Rightarrow> bool \<Rightarrow>
     receiver_link \<times> link_frame chan \<times> (link_state_error + unit)" where
  "link_dispose_all l w infos settled state batchable =
     (let kept = filter (\<lambda>i. case l_unsettled l of Some m \<Rightarrow> m (in_delivery_tag i) \<noteq> None | None \<Rightarrow> False)
                   (sort_key in_delivery_id infos) in
      dispose_chunks l w kept 0 (info_chunk_indices 0 kept) settled state batchable)"

section \<open>Receiver\<close>

datatype credit_mode = Manual | Auto u32

record receiver_inner =
  ri_link :: receiver_link
  ri_credit_mode :: credit_mode
  ri_processed :: u32
  ri_auto_accept :: bool
  ri_outgoing :: "link_frame chan"
  ri_incomplete_transfer :: "incomplete_transfer option"

datatype recv_error = RevLinkStateError link_state_error | RevTransferLimitExceeded | RevDeliveryIdIsNone
  | RevDeliveryTagIsNone | RevMessageDecode u32 delivery_tag "receiver_settle_mode option"
  | RevIllegalRcvSettleModeInTransfer | RevInconsistentFieldInMultiFrameDelivery
  | RevMessageSizeExceeded u64 u64 | RevTransactionalAcquisitionIsNotImplemented

fun recv_error_of :: "receiver_transfer_error \<Rightarrow> recv_error" where
  "recv_error_of RteIllegalState = RevLinkStateError LseIllegalState"
| "recv_error_of RteTransferLimitExceeded = RevTransferLimitExceeded"
| "recv_error_of RteDeliveryIdIsNone = RevDeliveryIdIsNone"
| "recv_error_of RteDeliveryTagIsNone = RevDeliveryTagIsNone"
| "recv_error_of (RteMessageDecode did tag mode) = RevMessageDecode did tag mode"
| "recv_error_of RteIllegalRcvSettleModeInTransfer = RevIllegalRcvSettleModeInTransfer"
| "recv_error_of RteInconsistentFieldInMultiFrameDelivery = RevInconsistentFieldInMultiFrameDelivery"

datatype 'a recv_result =
    RecvOk "'a delivery option"
  | RecvErr recv_error
  | RecvClose error_condition recv_error

text \<open>\<open>get_link_flow\<close> and \<open>send_flow\<close>.\<close>

definition get_link_flow ::
    "flow_state \<Rightarrow> u32 \<Rightarrow> u32 option \<Rightarrow> bool option \<Rightarrow> bool \<Rightarrow> bool \<Rightarrow> flow_state \<times> link_flow" where
  "get_link_flow st handle credit drn echo include_properties =
     (let st1 = (case credit of Some c \<Rightarrow> st\<lparr>link_credit := c\<rparr> | None \<Rightarrow> st);
          st2 = (case drn of Some d \<Rightarrow> st1\<lparr>drain := d\<rparr> | None \<Rightarrow> st1)
      in (st2, \<lparr>lf_handle = handle, lf_delivery_count = Some (delivery_count st2),
                lf_link_credit = Some (link_credit st2), lf_available = None, lf_drain = drain st2,
                lf_echo = echo, lf_properties = if include_properties then properties st2 else None\<rparr>))"

definition send_flow ::
    "receiver_inner \<Rightarrow> u32 option \<Rightarrow> bool option \<Rightarrow> bool \<Rightarrow> bool \<Rightarrow> receiver_inner \<times> (link_state_error + unit)" where
  "send_flow r credit drn echo include_properties =
     (let l = ri_link r in
      case l_output_handle l of
        None \<Rightarrow> (r, Inl LseIllegalState)
      | Some handle \<Rightarrow>
          (case get_link_flow (l_flow_state l) handle credit drn echo include_properties of (st, fl) \<Rightarrow>
             (let r1 = r\<lparr>ri_link := l\<lparr>l_flow_state := st\<rparr>\<rparr> in
              case chan_send (ri_outgoing r) (LfFlow fl) of
                Some w \<Rightarrow> (r1\<lparr>ri_outgoing := w\<rparr>, Inr ())
              | None \<Rightarrow> (r1, Inl (stopped_or_illegal (l_session_stop_reason l))))))"

definition update_credit_if_auto :: "receiver_inner \<Rightarrow> u32 \<Rightarrow> receiver_inner \<times> (link_state_error + unit)" where
  "update_credit_if_auto r processed =
     (case ri_credit_mode r of
        Auto max_credit \<Rightarrow>
          if max_credit div 2 \<le> processed
          then send_flow (r\<lparr>ri_processed := 0\<rparr>) (Some max_credit) (Some False) False False
          else (r, Inr ())
      | Manual \<Rightarrow> (r, Inr ()))"

definition set_credit :: "receiver_inner \<Rightarrow> u32 \<Rightarrow> receiver_inner \<times> (link_state_error + unit)" where
  "set_credit r credit =
     send_flow (r\<lparr>ri_processed := 0,
                  ri_credit_mode := case ri_credit_mode r of Auto _ \<Rightarrow> Auto credit | Manual \<Rightarrow> Manual\<rparr>)
       (Some credit) (Some False) False False"

definition drain_link :: "receiver_inner \<Rightarrow> receiver_inner \<times> (link_state_error + unit)" where
  "drain_link r =
     (let r1 = r\<lparr>ri_processed := 0\<rparr> in
      if drain (l_flow_state (ri_link r1)) then (r1, Inr ())
      else send_flow r1 None (Some True) False False)"

definition dispose ::
    "receiver_inner \<Rightarrow> delivery_info \<Rightarrow> bool option \<Rightarrow> delivery_state \<Rightarrow> receiver_inner \<times> (link_state_error + unit)" where
  "dispose r info settled state =
     (case link_dispose (ri_link r) (ri_outgoing r) info settled state False of
        (l, w, Inl e) \<Rightarrow> (r\<lparr>ri_link := l, ri_outgoing := w\<rparr>, Inl e)
      | (l, w, Inr _) \<Rightarrow>
          (let prev = ri_processed r in
           update_credit_if_auto
             (r\<lparr>ri_link := l, ri_outgoing := w, ri_processed := wrapping_add prev 1\<rparr>) (wrapping_add prev 1)))"

definition dispose_all ::
    "receiver_inner \<Rightarrow> delivery_info list \<Rightarrow> bool option \<Rightarrow> delivery_state \<Rightarrow> receiver_inner \<times> (link_state_error + unit)" where
  "dispose_all r infos settled state =
     (let total = word_of_nat (length infos) in
      case link_dispose_all (ri_link r) (ri_outgoing r) infos settled state False of
        (l, w, Inl e) \<Rightarrow> (r\<lparr>ri_link := l, ri_outgoing := w\<rparr>, Inl e)
      | (l, w, Inr _) \<Rightarrow>
          (let prev = ri_processed r in
           update_credit_if_auto
             (r\<lparr>ri_link := l, ri_outgoing := w, ri_processed := wrapping_add prev total\<rparr>) (wrapping_add prev total)))"

definition ensure_delivery_identity :: "transfer \<Rightarrow> receiver_transfer_error + unit" where
  "ensure_delivery_identity t =
     (if tr_delivery_id t = None then Inl RteDeliveryIdIsNone
      else if tr_delivery_tag t = None then Inl RteDeliveryTagIsNone else Inr ())"

definition close_on_malformed_delivery :: "receiver_transfer_error \<Rightarrow> 'a recv_result" where
  "close_on_malformed_delivery e = RecvClose (AmqpError NotAllowed) (recv_error_of e)"

definition on_transfer_state ::
    "receiver_inner \<Rightarrow> delivery_tag option \<Rightarrow> bool option \<Rightarrow> delivery_state \<Rightarrow> receiver_inner option" where
  "on_transfer_state r tag settled state =
     (case (case tag of Some t \<Rightarrow> Some t | None \<Rightarrow> map_option it_delivery_tag (ri_incomplete_transfer r)) of
        None \<Rightarrow> None
      | Some effective \<Rightarrow>
          (let r1 = (case ri_incomplete_transfer r of
                       Some it \<Rightarrow>
                         if tag = None \<or> tag = Some (it_delivery_tag it) then
                           (case state of
                              Received number offset \<Rightarrow>
                                r\<lparr>ri_incomplete_transfer :=
                                    Some (keep_buffer_till_section_number_and_offset it number offset)\<rparr>
                            | _ \<Rightarrow> r)
                         else r
                     | None \<Rightarrow> r)
           in Some (r1\<lparr>ri_link := link_on_transfer_state (ri_link r1) effective settled state\<rparr>)))"

definition on_incomplete_transfer ::
    "receiver_inner \<Rightarrow> transfer \<Rightarrow> payload \<Rightarrow> receiver_inner \<times> 'a recv_result" where
  "on_incomplete_transfer r t p =
     (case (case ri_incomplete_transfer r of Some it \<Rightarrow> try_append it t p | None \<Rightarrow> start_incomplete t p) of
        Inl e \<Rightarrow> (r, close_on_malformed_delivery e)
      | Inr it \<Rightarrow>
          (r\<lparr>ri_incomplete_transfer := Some it,
             ri_link := link_on_incomplete_transfer (ri_link r) (it_delivery_tag it)
                          (it_section_number it) (it_section_offset it)\<rparr>, RecvOk None))"

text \<open>Auto accept: settled is left to the settle mode.\<close>

definition deliver :: "receiver_inner \<Rightarrow> 'a delivery \<Rightarrow> receiver_inner \<times> 'a recv_result" where
  "deliver r d =
     (if ri_auto_accept r then
        (case dispose r \<lparr>in_delivery_id = dl_delivery_id d, in_delivery_tag = dl_delivery_tag d,
                         in_rcv_settle_mode = dl_rcv_settle_mode d\<rparr> None Accepted of
           (r1, Inl e) \<Rightarrow> (r1, RecvErr (RevLinkStateError e))
         | (r1, Inr _) \<Rightarrow> (r1, RecvOk (Some d)))
      else (r, RecvOk (Some d)))"

definition complete_with ::
    "(bytes \<Rightarrow> 'a option) \<Rightarrow> receiver_inner \<Rightarrow> transfer \<Rightarrow> bytes \<Rightarrow> u32 \<Rightarrow> u64 \<Rightarrow>
     receiver_inner \<times> 'a recv_result" where
  "complete_with decode r t payload number offset =
     (case link_on_complete_transfer decode (ri_link r) t payload number offset of
        (l, Inl e) \<Rightarrow> (r\<lparr>ri_link := l\<rparr>, RecvErr (recv_error_of e))
      | (l, Inr d) \<Rightarrow> deliver (r\<lparr>ri_link := l\<rparr>) d)"

definition complete_single ::
    "(bytes \<Rightarrow> 'a option) \<Rightarrow> receiver_inner \<Rightarrow> transfer \<Rightarrow> payload \<Rightarrow> receiver_inner \<times> 'a recv_result" where
  "complete_single decode r t payload =
     (case ensure_delivery_identity t of
        Inl e \<Rightarrow> (r, close_on_malformed_delivery e)
      | Inr _ \<Rightarrow>
          (case count_number_of_sections_and_offset payload of (number, offset) \<Rightarrow>
             complete_with decode r t payload number offset))"

definition on_complete_transfer ::
    "(bytes \<Rightarrow> 'a option) \<Rightarrow> receiver_inner \<Rightarrow> transfer \<Rightarrow> payload \<Rightarrow> receiver_inner \<times> 'a recv_result" where
  "on_complete_transfer decode r t payload =
     (case ri_incomplete_transfer r of
        Some it \<Rightarrow>
          (let r1 = r\<lparr>ri_incomplete_transfer := None\<rparr> in
           case try_append it t payload of
             Inl e \<Rightarrow> (r1, close_on_malformed_delivery e)
           | Inr it1 \<Rightarrow> complete_with decode r1 (it_performative it1) (concat (it_buffer it1))
                          (it_section_number it1) (it_section_offset it1))
      | None \<Rightarrow> complete_single decode r t payload)"

definition is_known_unsettled :: "receiver_inner \<Rightarrow> transfer \<Rightarrow> bool" where
  "is_known_unsettled r t =
     (case tr_delivery_tag t of
        None \<Rightarrow> False
      | Some tag \<Rightarrow>
          (case l_unsettled (ri_link r) of
             None \<Rightarrow> False
           | Some m \<Rightarrow> (case m tag of
                          None \<Rightarrow> False
                        | Some None \<Rightarrow> True
                        | Some (Some st) \<Rightarrow> \<not> is_terminal st)))"

definition accumulated_message_size :: "receiver_inner \<Rightarrow> transfer \<Rightarrow> u64" where
  "accumulated_message_size r t =
     (case ri_incomplete_transfer r of
        Some it \<Rightarrow> if is_same_delivery_as it t then it_accumulated_payload_size it else 0
      | None \<Rightarrow> 0)"

definition receive_transfer ::
    "(bytes \<Rightarrow> 'a option) \<Rightarrow> receiver_inner \<Rightarrow> bool \<Rightarrow> transfer \<Rightarrow> payload \<Rightarrow> receiver_inner \<times> 'a recv_result" where
  "receive_transfer decode r matches_buffer t payload =
     (let total = accumulated_message_size r t + word_of_nat (length payload);
          max_size = l_max_message_size (ri_link r) in
      if max_size \<noteq> 0 \<and> max_size < total
      then (r\<lparr>ri_incomplete_transfer := None\<rparr>,
            RecvClose (LinkError MessageSizeExceeded) (RevMessageSizeExceeded total max_size))
      else if tr_more t then on_incomplete_transfer r t payload
      else if tr_resume t \<and> \<not> matches_buffer then complete_single decode r t payload
      else on_complete_transfer decode r t payload)"

definition recv_on_incoming_transfer ::
    "(bytes \<Rightarrow> 'a option) \<Rightarrow> receiver_inner \<Rightarrow> transfer \<Rightarrow> payload \<Rightarrow> receiver_inner \<times> 'a recv_result" where
  "recv_on_incoming_transfer decode r t payload =
     (let matches_buffer = (case ri_incomplete_transfer r of Some it \<Rightarrow> is_same_delivery_as it t | None \<Rightarrow> False) in
      if tr_aborted t then
        (case ri_incomplete_transfer r of
           Some it \<Rightarrow>
             if \<not> matches_buffer
             then (r, close_on_malformed_delivery RteInconsistentFieldInMultiFrameDelivery)
             else (r\<lparr>ri_incomplete_transfer := None,
                     ri_link := (ri_link r)\<lparr>l_unsettled :=
                       map_option (\<lambda>m. m(it_delivery_tag it := None)) (l_unsettled (ri_link r))\<rparr>\<rparr>, RecvOk None)
         | None \<Rightarrow> (r, RecvOk None))
      else if tr_resume t \<and> \<not> matches_buffer \<and> \<not> is_known_unsettled r t then (r, RecvOk None)
      else case tr_state t of
        None \<Rightarrow> receive_transfer decode r matches_buffer t payload
      | Some state \<Rightarrow>
          (case on_transfer_state r (tr_delivery_tag t) (tr_settled t) state of
             None \<Rightarrow> (r, close_on_malformed_delivery RteDeliveryTagIsNone)
           | Some r1 \<Rightarrow> receive_transfer decode r1 matches_buffer t payload))"

text \<open>\<open>recv_inner\<close>: the frame taken from the session, or \<open>None\<close> when it has stopped.\<close>

definition recv_inner ::
    "(bytes \<Rightarrow> 'a option) \<Rightarrow> receiver_inner \<Rightarrow> link_frame option \<Rightarrow> (receiver_inner \<times> 'a recv_result) option" where
  "recv_inner decode r frame =
     (case frame of
        None \<Rightarrow> Some (r, RecvErr (RevLinkStateError (stopped_or_illegal (l_session_stop_reason (ri_link r)))))
      | Some (LfDetach d) \<Rightarrow>
          (case apply_remote_detach_outcome (ri_link r) d of
             (l, Inl e) \<Rightarrow> Some (r\<lparr>ri_link := l\<rparr>, RecvErr (RevLinkStateError (link_state_error_of_apply e)))
           | (l, Inr _) \<Rightarrow>
               Some (r\<lparr>ri_link := l\<rparr>,
                     RecvErr (RevLinkStateError (if de_closed d then LseRemoteClosed else LseRemoteDetached))))
      | Some (LfRemoteTransfer lt) \<Rightarrow>
          Some (recv_on_incoming_transfer decode r (lt_performative lt) (lt_payload lt))
      | Some (LfAttach _) \<Rightarrow> Some (r, RecvErr (RevLinkStateError LseIllegalState))
      | Some (LfAcquisition _) \<Rightarrow>
          Some (r, RecvClose (AmqpError NotImplemented) RevTransactionalAcquisitionIsNotImplemented)
      | Some _ \<Rightarrow> None)"

end
