(* ===== verification/Sender_Delivery.thy ===== *)
theory Sender_Delivery
  imports Sender_Link
begin

text \<open>
  What a delivery looks like when it leaves: how the payload is split over link transfers, and that
  every one of them becomes one frame of the transport.
\<close>

section \<open>The size of the transfers of a delivery\<close>

lemma uint_field_size: "field_size (FValue (VUint i)) = Inr (size_u32 NoElement i)"
  by (simp add: serialized_size_def size_serializer_new_def)

lemma bool_field_size: "field_size (FValue (VBool b)) = Inr 1"
  by (simp add: serialized_size_def size_serializer_new_def)

lemma fewer_uint: "fewer (FValue (VUint i)) (FValue (VUint 0xFFFFFFFF))"
  by (rule fewer_value [OF uint_field_size uint_field_size]) simp

lemma fewer_more: "fewer (dflt False f_bool b) (dflt False f_bool True)"
  by (auto simp: dflt_def)

text \<open>A first transfer with a delivery-id, and a continuation.\<close>

definition transfer_on_wire :: "transfer \<Rightarrow> u32 option \<Rightarrow> bool \<Rightarrow> transfer" where
  "transfer_on_wire t did b =
     (case did of
        Some i \<Rightarrow> t\<lparr>tr_more := b, tr_delivery_id := Some i\<rparr>
      | None \<Rightarrow> (clear_continuation_fields (t\<lparr>tr_more := True\<rparr>))\<lparr>tr_more := b\<rparr>)"

lemma transfer_on_wire_fits:
  assumes "field_ok (transfer_composite t)" and "performative_size t = Inr n"
  shows "\<exists>buf. serialize_field (transfer_composite (transfer_on_wire t did b)) = Inr buf \<and> length buf \<le> n"
proof -
  let ?big = "t\<lparr>tr_more := True, tr_delivery_id := Some 0xFFFFFFFF\<rparr>"
  obtain fs where fs: "transfer_composite ?big = FComposite 0x14 fs" by (simp add: transfer_composite_def)
  obtain fs' where fs': "transfer_composite (transfer_on_wire t did b) = FComposite 0x14 fs'"
    by (simp add: transfer_composite_def)
  have "list_all2 fewer fs' fs"
    using fs fs' fewer_uint fewer_more
    by (cases did) (auto simp: transfer_composite_def transfer_on_wire_def clear_continuation_fields_def opt_def)
  moreover have "list_all field_ok fs"
    using assms(1) fs by (auto simp: transfer_composite_def opt_def dflt_def split: option.splits)
  moreover have "field_size (FComposite 0x14 fs) = Inr n" using assms(2) fs by (simp add: performative_size_def)
  ultimately obtain n' where n': "field_size (FComposite 0x14 fs') = Inr n'" "n' \<le> n"
    using composite_size_mono by blast
  have "field_ok (FComposite 0x14 fs')"
    using assms(1) fs'
    by (cases did) (auto simp: transfer_composite_def transfer_on_wire_def clear_continuation_fields_def
        opt_def dflt_def split: option.splits)
  then show ?thesis using size_bounds(1) [OF _ n'(1)] n'(2) fs' by force
qed

section \<open>One frame per transfer\<close>

lemma transfer_is_one_frame:
  assumes "serialize_field (transfer_composite t) = Inr buf" and "4 + length buf + length payload \<le> m"
  shows "start_send m (frame_new ch (FTransfer t payload)) = Some (Inr [write_header ch @ buf @ payload])"
proof -
  have "length buf + length payload \<le> usize_sub m 4" using assms(2) by (simp add: usize_sub_def)
  then have "encode_frame m (frame_new ch (FTransfer t payload)) = Some (Inr (write_header ch @ buf @ payload))"
    using assms(1) by (simp add: encode_frame_def frame_new_def encode_transfer_def)
  then show ?thesis using assms(2) by (simp add: start_send_def send_chunks_single)
qed

section \<open>Splitting\<close>

fun split_payload :: "nat \<Rightarrow> payload \<Rightarrow> payload list" where
  "split_payload m p =
     (if 0 < m \<and> m < length p then take m p # split_payload m (drop m p) else [p])"

declare split_payload.simps [simp del]

lemma split_payload_not_Nil [simp]: "split_payload m p \<noteq> []"
  by (subst split_payload.simps) simp

lemma concat_split_payload [simp]: "concat (split_payload m p) = p"
proof (induction m p rule: split_payload.induct)
  case (1 m p)
  then show ?case by (subst split_payload.simps) simp
qed

lemma split_payload_length: "0 < m \<Longrightarrow> q \<in> set (split_payload m p) \<Longrightarrow> length q \<le> m"
proof (induction m p rule: split_payload.induct)
  case (1 m p)
  from 1(3) show ?case
    by (subst (asm) split_payload.simps) (use 1 in \<open>auto split: if_splits\<close>)
qed

abbreviation continuation :: "u32 \<Rightarrow> transfer \<Rightarrow> payload \<Rightarrow> link_frame" where
  "continuation h t p \<equiv> LfTransferContinuation \<lparr>lt_input_handle = h, lt_performative = t, lt_payload = p\<rparr>"

abbreviation first_transfer :: "u32 \<Rightarrow> transfer \<Rightarrow> payload \<Rightarrow> link_frame" where
  "first_transfer h t p \<equiv> LfFirstTransfer \<lparr>lt_input_handle = h, lt_performative = t, lt_payload = p\<rparr>"

abbreviation appended :: "'a chan \<Rightarrow> 'a list \<Rightarrow> 'a chan" where
  "appended w xs \<equiv> w\<lparr>sent := sent w @ xs\<rparr>"

lemma send_transfer_alive:
  "rx_alive w \<Longrightarrow> send_transfer stop w h t p b =
     Inr (appended w [if b then first_transfer h t p else continuation h t p])"
  by (simp add: send_transfer_def chan_send_def)

lemma send_middle_alive:
  assumes "0 < m" and "rx_alive w"
  shows "send_middle m stop h t w p =
    Some (appended w (map (continuation h t) (butlast (split_payload m p))), Inr (last (split_payload m p)))"
  using assms
proof (induction m p arbitrary: w rule: split_payload.induct)
  case (1 m p)
  show ?case
  proof (cases "m < length p")
    case True
    have "send_middle m stop h t w p =
        send_middle m stop h t (appended w [continuation h t (take m p)]) (drop m p)"
      using True 1(3) by (subst send_middle.simps) (simp add: send_transfer_alive)
    moreover have "split_payload m p = take m p # split_payload m (drop m p)"
      using True 1(2) by (subst split_payload.simps) simp
    ultimately show ?thesis
      using 1(1) [of "appended w [continuation h t (take m p)]"] 1(2,3) True by simp
  next
    case False
    then show ?thesis by (subst send_middle.simps, subst (1 2) split_payload.simps) simp
  qed
qed

text \<open>The transfers of one delivery.\<close>

abbreviation link_transfer_of :: "u32 \<Rightarrow> transfer \<Rightarrow> payload \<Rightarrow> link_transfer" where
  "link_transfer_of h t p \<equiv> \<lparr>lt_input_handle = h, lt_performative = t, lt_payload = p\<rparr>"

definition delivery_transfers :: "u32 \<Rightarrow> transfer \<Rightarrow> nat \<Rightarrow> payload \<Rightarrow> link_transfer list" where
  "delivery_transfers h t m p =
     (if length p \<le> m then [link_transfer_of h (t\<lparr>tr_more := False\<rparr>) p]
      else let cont = clear_continuation_fields (t\<lparr>tr_more := True\<rparr>); ps = split_payload m (drop m p) in
           link_transfer_of h (t\<lparr>tr_more := True\<rparr>) (take m p) #
           map (link_transfer_of h cont) (butlast ps) @ [link_transfer_of h (cont\<lparr>tr_more := False\<rparr>) (last ps)])"

definition delivery_frames :: "link_transfer list \<Rightarrow> link_frame list" where
  "delivery_frames lts = LfFirstTransfer (hd lts) # map LfTransferContinuation (tl lts)"

lemma delivery_transfers_payload: "concat (map lt_payload (delivery_transfers h t m p)) = p"
proof -
  have "concat (butlast ps) @ last ps = concat ps" if "ps \<noteq> []" for ps :: "payload list"
    using that by (metis append_butlast_last_id concat.simps concat_append self_append_conv)
  from this [of "split_payload m (drop m p)"] show ?thesis
    by (simp add: delivery_transfers_def Let_def o_def)
qed

lemma delivery_transfers_more:
  "i < length (delivery_transfers h t m p) \<Longrightarrow>
   tr_more (lt_performative (delivery_transfers h t m p ! i)) = (Suc i < length (delivery_transfers h t m p))"
  by (auto simp: delivery_transfers_def Let_def clear_continuation_fields_def nth_append nth_Cons
      split: nat.splits if_splits)

text \<open>The performatives are those of \<open>transfer_on_wire\<close>, up to the delivery-id of the first.\<close>

lemma delivery_transfers_wire:
  assumes "i < length (delivery_transfers h t m p)" and "0 < m"
  shows "\<exists>b. (i = 0 \<longrightarrow> lt_performative (delivery_transfers h t m p ! i) = t\<lparr>tr_more := b\<rparr>) \<and>
             (0 < i \<longrightarrow> lt_performative (delivery_transfers h t m p ! i) = transfer_on_wire t None b) \<and>
             length (lt_payload (delivery_transfers h t m p ! i)) \<le> m"
proof (cases "length p \<le> m")
  case True
  then show ?thesis using assms by (auto simp: delivery_transfers_def)
next
  case False
  define ps where "ps = split_payload m (drop m p)"
  have ps: "ps \<noteq> []" "\<And>q. q \<in> set ps \<Longrightarrow> length q \<le> m"
    using split_payload_length [OF assms(2)] by (auto simp: ps_def)
  let ?c = "clear_continuation_fields (t\<lparr>tr_more := True\<rparr>)"
  have d: "delivery_transfers h t m p = link_transfer_of h (t\<lparr>tr_more := True\<rparr>) (take m p) #
      map (link_transfer_of h ?c) (butlast ps) @ [link_transfer_of h (?c\<lparr>tr_more := False\<rparr>) (last ps)]"
    using False by (simp add: delivery_transfers_def ps_def Let_def)
  show ?thesis
  proof (cases i)
    case 0
    then show ?thesis using d by auto
  next
    case (Suc j)
    show ?thesis
    proof (cases "j < length (butlast ps)")
      case True
      moreover have "butlast ps ! j \<in> set ps" using True by (meson in_set_butlastD nth_mem)
      moreover have "?c = transfer_on_wire t None True"
        by (simp add: transfer_on_wire_def clear_continuation_fields_def)
      ultimately show ?thesis using d Suc ps(2) by (auto simp: nth_append)
    next
      case False
      then have "j = length (butlast ps)" using d assms(1) Suc by simp
      moreover have "?c\<lparr>tr_more := False\<rparr> = transfer_on_wire t None False" by (simp add: transfer_on_wire_def)
      ultimately show ?thesis using d Suc ps(2) [OF last_in_set [OF ps(1)]] by (auto simp: nth_append)
    qed
  qed
qed

lemma send_split_alive:
  assumes "0 < m" and "rx_alive w" and "m < length p"
  shows "send_split m stop h t w p = Some (appended w (delivery_frames (delivery_transfers h t m p)), Inr ())"
  using assms
  by (simp add: send_split_def send_transfer_alive send_middle_alive delivery_frames_def
      delivery_transfers_def Let_def)

lemma send_delivery:
  assumes "l_input_handle l = Some h" and "rx_alive w" and "performative_size t = Inr n"
    and "n + 4 < l_max_frame_size l"
  shows "send_transfer_without_modifying_unsettled_map l w t p =
    Some (appended w (delivery_frames (delivery_transfers h t (l_max_frame_size l - 4 - n) p)),
          Inr (is_settled_on_send l t))"
proof -
  have "usize_sub (usize_sub (l_max_frame_size l) 4) n = l_max_frame_size l - 4 - n"
    using assms(4) by (simp add: usize_sub_def)
  then show ?thesis
    using assms
    by (simp add: send_transfer_without_modifying_unsettled_map_def Let_def send_transfer_alive
        send_split_alive delivery_frames_def delivery_transfers_def)
qed

end
