(* ===== verification/Receiver_Delivery.thy ===== *)
theory Receiver_Delivery
  imports Receiver_Link Sender_Delivery
begin

text \<open>
  How the receiver puts a delivery together: the transfers it takes one by one, and that the
  transfers of one delivery of the sender give the application the payload that was sent.
\<close>

fun recv_run ::
    "(bytes \<Rightarrow> 'a option) \<Rightarrow> receiver_inner \<Rightarrow> (transfer \<times> payload) list \<Rightarrow> receiver_inner \<times> 'a recv_result list" where
  "recv_run decode r [] = (r, [])"
| "recv_run decode r ((t, p) # tps) =
     (case recv_on_incoming_transfer decode r t p of
        (r1, res) \<Rightarrow> (case recv_run decode r1 tps of (r2, rest) \<Rightarrow> (r2, res # rest)))"

text \<open>A transfer that only carries more payload.\<close>

definition plain_continuation :: "transfer \<Rightarrow> bool" where
  "plain_continuation t \<longleftrightarrow> tr_delivery_id t = None \<and> tr_delivery_tag t = None \<and> tr_message_format t = None
     \<and> tr_settled t = None \<and> tr_state t = None \<and> \<not> tr_resume t \<and> \<not> tr_aborted t"

lemma or_assign_continuation: "plain_continuation c \<Longrightarrow> or_assign t c = Inr t"
  by (auto simp: plain_continuation_def or_assign_def or_field_def Let_def split: option.splits)

lemma try_append_continuation: "plain_continuation c \<Longrightarrow> try_append it c p = Inr (append_payload it p)"
  by (simp add: try_append_def or_assign_continuation) (simp add: plain_continuation_def is_same_delivery_as_def)

definition accumulates :: "incomplete_transfer \<Rightarrow> bool" where
  "accumulates it \<longleftrightarrow> it_accumulated_payload_size it = word_of_nat (length (concat (it_buffer it)))"

lemma append_payload_simps [simp]:
  "it_performative (append_payload it p) = it_performative it"
  "it_delivery_tag (append_payload it p) = it_delivery_tag it"
  "it_buffer (append_payload it p) = it_buffer it @ [p]"
  "it_accumulated_payload_size (append_payload it p) = it_accumulated_payload_size it + word_of_nat (length p)"
  by (simp_all add: append_payload_def split: prod.splits)

lemma accumulates_append [simp]: "accumulates it \<Longrightarrow> accumulates (append_payload it p)"
  by (simp add: accumulates_def)

definition size_allowed :: "receiver_inner \<Rightarrow> nat \<Rightarrow> bool" where
  "size_allowed r n \<longleftrightarrow> l_max_message_size (ri_link r) = 0 \<or> n \<le> unat (l_max_message_size (ri_link r))"

lemma size_allowed_word:
  assumes "size_allowed r n" and "m \<le> n"
  shows "\<not> (l_max_message_size (ri_link r) \<noteq> 0 \<and> l_max_message_size (ri_link r) < word_of_nat m)"
proof -
  have "unat (word_of_nat m :: u64) \<le> m" by (simp add: unsigned_of_nat)
  then show ?thesis using assms by (auto simp: size_allowed_def word_less_nat_alt)
qed

lemma receive_transfer_allowed:
  assumes "size_allowed r n" and "m \<le> n"
    and "accumulated_message_size r t + word_of_nat (length p) = word_of_nat m"
  shows "receive_transfer decode r mb t p =
    (if tr_more t then on_incomplete_transfer r t p
     else if tr_resume t \<and> \<not> mb then complete_single decode r t p
     else on_complete_transfer decode r t p)"
  using size_allowed_word [OF assms(1,2)] assms(3) by (auto simp: receive_transfer_def Let_def)

text \<open>The receiver while it assembles a delivery.\<close>

definition assembling :: "receiver_inner \<Rightarrow> incomplete_transfer \<Rightarrow> receiver_inner \<Rightarrow> bool" where
  "assembling r0 it r \<longleftrightarrow>
     (\<exists>u. r = r0\<lparr>ri_incomplete_transfer := Some it, ri_link := (ri_link r0)\<lparr>l_unsettled := u\<rparr>\<rparr>)"

lemma recv_continuation:
  assumes "assembling r0 it r" and "accumulates it" and "plain_continuation c" and "tr_more c"
    and "size_allowed r0 n" and "length (concat (it_buffer it)) + length p \<le> n"
  shows "\<exists>r'. recv_on_incoming_transfer decode r c p = (r', RecvOk None) \<and> assembling r0 (append_payload it p) r'"
proof -
  from assms(1) obtain u where r: "r = r0\<lparr>ri_incomplete_transfer := Some it, ri_link := (ri_link r0)\<lparr>l_unsettled := u\<rparr>\<rparr>"
    by (auto simp: assembling_def)
  have c: "tr_delivery_tag c = None" "tr_state c = None" "\<not> tr_resume c" "\<not> tr_aborted c"
    using assms(3) by (simp_all add: plain_continuation_def)
  have acc: "accumulated_message_size r c + word_of_nat (length p) =
      word_of_nat (length (concat (it_buffer it)) + length p)"
    using assms(2) c(1) by (simp add: accumulated_message_size_def r is_same_delivery_as_def accumulates_def)
  have "size_allowed r n" using assms(5) by (simp add: size_allowed_def r)
  note receive = receive_transfer_allowed [OF this assms(6) acc]
  have "recv_on_incoming_transfer decode r c p = on_incomplete_transfer r c p"
    unfolding recv_on_incoming_transfer_def Let_def receive using c assms(4) by simp
  then show ?thesis
    using try_append_continuation [OF assms(3), of it p]
    by (auto simp: on_incomplete_transfer_def r assembling_def link_on_incomplete_transfer_def)
qed

lemma recv_continuations:
  assumes "assembling r0 it r" and "accumulates it" and "plain_continuation c" and "tr_more c"
    and "size_allowed r0 n" and "length (concat (it_buffer it)) + length (concat ps) \<le> n"
  shows "\<exists>r'. recv_run decode r (map (Pair c) ps) = (r', replicate (length ps) (RecvOk None)) \<and>
    assembling r0 (foldl append_payload it ps) r'"
  using assms(1,2,6)
proof (induction ps arbitrary: it r)
  case (Cons p ps)
  obtain r1 where r1: "recv_on_incoming_transfer decode r c p = (r1, RecvOk None)"
      "assembling r0 (append_payload it p) r1"
    using recv_continuation [OF Cons.prems(1,2) assms(3,4,5), of p] Cons.prems(3) by auto
  then show ?case using Cons.IH [OF r1(2)] Cons.prems by auto
qed simp

lemma foldl_append_payload [simp]:
  "it_performative (foldl append_payload it ps) = it_performative it"
  "it_buffer (foldl append_payload it ps) = it_buffer it @ ps"
  "accumulates it \<Longrightarrow> accumulates (foldl append_payload it ps)"
  by (induction ps arbitrary: it) simp_all

lemma recv_last:
  assumes "assembling r0 it r" and "accumulates it" and "plain_continuation c" and "\<not> tr_more c"
    and "size_allowed r0 n" and "length (concat (it_buffer it)) + length p \<le> n"
  shows "\<exists>u num off. recv_on_incoming_transfer decode r c p =
    complete_with decode (r0\<lparr>ri_link := (ri_link r0)\<lparr>l_unsettled := u\<rparr>, ri_incomplete_transfer := None\<rparr>)
      (it_performative it) (concat (it_buffer it) @ p) num off"
proof -
  from assms(1) obtain u where r: "r = r0\<lparr>ri_incomplete_transfer := Some it, ri_link := (ri_link r0)\<lparr>l_unsettled := u\<rparr>\<rparr>"
    by (auto simp: assembling_def)
  have c: "tr_delivery_tag c = None" "tr_state c = None" "\<not> tr_resume c" "\<not> tr_aborted c"
    using assms(3) by (simp_all add: plain_continuation_def)
  have acc: "accumulated_message_size r c + word_of_nat (length p) =
      word_of_nat (length (concat (it_buffer it)) + length p)"
    using assms(2) c(1) by (simp add: accumulated_message_size_def r is_same_delivery_as_def accumulates_def)
  have "size_allowed r n" using assms(5) by (simp add: size_allowed_def r)
  note receive = receive_transfer_allowed [OF this assms(6) acc]
  have "recv_on_incoming_transfer decode r c p = on_complete_transfer decode r c p"
    unfolding recv_on_incoming_transfer_def Let_def receive using c assms(4) by simp
  then show ?thesis
    using try_append_continuation [OF assms(3), of it p]
    by (intro exI [of _ u] exI) (simp add: on_complete_transfer_def r Let_def)
qed

lemma recv_run_append:
  "recv_run decode r (xs @ ys) =
     (case recv_run decode r xs of (r1, res1) \<Rightarrow>
        (case recv_run decode r1 ys of (r2, res2) \<Rightarrow> (r2, res1 @ res2)))"
  by (induction xs arbitrary: r) (auto split: prod.splits)

text \<open>What the application gets: attached, with credit and with a first transfer that is in order.\<close>

definition ready_for :: "receiver_inner \<Rightarrow> transfer \<Rightarrow> nat \<Rightarrow> bool" where
  "ready_for r t n \<longleftrightarrow> l_local_state (ri_link r) \<in> {LkAttached, LkIncompleteAttachExchanged}
     \<and> 0 < link_credit (l_flow_state (ri_link r)) \<and> l_output_handle (ri_link r) \<noteq> None
     \<and> \<not> ri_auto_accept r \<and> ri_incomplete_transfer r = None \<and> size_allowed r n
     \<and> tr_delivery_tag t \<noteq> None \<and> tr_rcv_settle_mode t = None \<and> tr_state t = None
     \<and> \<not> tr_resume t \<and> \<not> tr_aborted t"

lemma complete_with_delivers:
  assumes "l_local_state (ri_link r) \<in> {LkAttached, LkIncompleteAttachExchanged}"
    and "0 < link_credit (l_flow_state (ri_link r))" and "l_output_handle (ri_link r) = Some h"
    and "\<not> ri_auto_accept r" and "tr_delivery_id t = Some did" and "tr_delivery_tag t = Some tag"
    and "tr_rcv_settle_mode t = None" and "decode payload = Some msg"
  shows "\<exists>r'. complete_with decode r t payload num off = (r', RecvOk (Some
     \<lparr>dl_link_output_handle = h, dl_delivery_id = did, dl_delivery_tag = tag,
      dl_message_format = tr_message_format t, dl_rcv_settle_mode = None, dl_message = msg\<rparr>))"
proof -
  have "\<not> link_credit (l_flow_state (ri_link r)) < 1" using assms(2) by (simp add: word_less_nat_alt)
  then show ?thesis
    using assms
    by (auto simp: complete_with_def link_on_complete_transfer_def receiver_consume_def deliver_def Let_def
        link_on_incomplete_transfer_def)
qed

section \<open>Through the session\<close>

text \<open>The frames the session emits for the transfers of one delivery while its window is open.\<close>

fun emit_delivery :: "session \<Rightarrow> bool \<Rightarrow> link_transfer list \<Rightarrow> session_frame list" where
  "emit_delivery s is_first [] = []"
| "emit_delivery s is_first (lt # lts) =
     (case on_outgoing_transfer_inner s (lt_input_handle lt) (lt_performative lt) (lt_payload lt) is_first of
        (s', Inl e) \<Rightarrow> []
      | (s', Inr fr) \<Rightarrow> fr # emit_delivery s' False lts)"

definition received_transfer :: "session_frame \<Rightarrow> transfer \<times> payload" where
  "received_transfer fr = (case sf_body fr of SfTransfer t p \<Rightarrow> (t, p))"

lemma emit_continuations:
  "emit_delivery s False lts =
     map (\<lambda>lt. session_frame_new (s_outgoing_channel s) (SfTransfer (lt_performative lt) (lt_payload lt))) lts"
  by (induction lts arbitrary: s) (simp_all add: on_outgoing_transfer_inner_def Let_def)

lemma emit_first:
  assumes "tr_delivery_tag (lt_performative lt) \<noteq> None"
  shows "emit_delivery s True (lt # lts) =
    session_frame_new (s_outgoing_channel s)
      (SfTransfer ((lt_performative lt)\<lparr>tr_delivery_id := Some (s_next_outgoing_delivery_id s)\<rparr>) (lt_payload lt)) #
    map (\<lambda>lt. session_frame_new (s_outgoing_channel s) (SfTransfer (lt_performative lt) (lt_payload lt))) lts"
  using assms by (auto simp: on_outgoing_transfer_inner_def Let_def emit_continuations)

lemma received_transfer_new [simp]: "received_transfer (session_frame_new ch (SfTransfer t p)) = (t, p)"
  by (simp add: session_frame_new_def received_transfer_def)

section \<open>Reassembly\<close>

lemma recv_first:
  assumes "ready_for r t n" and "tr_more t" and "tr_delivery_id t = Some did" and "length p \<le> n"
  shows "\<exists>r' it. recv_on_incoming_transfer decode r t p = (r', RecvOk None) \<and> assembling r it r' \<and>
    it_performative it = t \<and> it_buffer it = [p] \<and> accumulates it"
proof -
  from assms(1) obtain tag where t: "tr_delivery_tag t = Some tag" "tr_state t = None" "\<not> tr_resume t"
      "\<not> tr_aborted t" "ri_incomplete_transfer r = None" "size_allowed r n"
    by (auto simp: ready_for_def)
  have "accumulated_message_size r t + word_of_nat (length p) = word_of_nat (length p)"
    using t(5) by (simp add: accumulated_message_size_def)
  note receive = receive_transfer_allowed [OF t(6) assms(4) this]
  have "recv_on_incoming_transfer decode r t p = on_incomplete_transfer r t p"
    unfolding recv_on_incoming_transfer_def Let_def receive using t assms(2) by simp
  then show ?thesis
    using t assms(3)
    by (auto simp: on_incomplete_transfer_def start_incomplete_def assembling_def accumulates_def
        link_on_incomplete_transfer_def split: prod.splits)
qed

lemma recv_single:
  assumes "ready_for r t n" and "\<not> tr_more t" and "tr_delivery_id t = Some did" and "length p \<le> n"
    and "decode p = Some msg"
  shows "\<exists>r' d. recv_on_incoming_transfer decode r t p = (r', RecvOk (Some d)) \<and> dl_message d = msg \<and>
    dl_delivery_id d = did \<and> tr_delivery_tag t = Some (dl_delivery_tag d) \<and>
    dl_message_format d = tr_message_format t"
proof -
  from assms(1) obtain tag h where t: "tr_delivery_tag t = Some tag" "tr_state t = None" "\<not> tr_resume t"
      "\<not> tr_aborted t" "ri_incomplete_transfer r = None" "size_allowed r n" "l_output_handle (ri_link r) = Some h"
    by (auto simp: ready_for_def)
  have "accumulated_message_size r t + word_of_nat (length p) = word_of_nat (length p)"
    using t(5) by (simp add: accumulated_message_size_def)
  note receive = receive_transfer_allowed [OF t(6) assms(4) this]
  have "recv_on_incoming_transfer decode r t p = on_complete_transfer decode r t p"
    unfolding recv_on_incoming_transfer_def Let_def receive using t assms(2) by simp
  then obtain num off where "recv_on_incoming_transfer decode r t p = complete_with decode r t p num off"
    using t assms(3)
    by (auto simp: on_complete_transfer_def complete_single_def ensure_delivery_identity_def split: prod.splits)
  then show ?thesis
    using complete_with_delivers [where r = r and t = t and h = h and did = did and tag = tag
        and decode = decode and msg = msg and payload = p and num = num and off = off] assms(1,3,5) t
    by (auto simp: ready_for_def)
qed

text \<open>The first transfer, any number of continuations and the last one.\<close>

lemma recv_multi:
  assumes "ready_for r t n" and "tr_more t" and "tr_delivery_id t = Some did"
    and "plain_continuation c" and "tr_more c" and "plain_continuation c'" and "\<not> tr_more c'"
    and "length (p @ concat ps @ q) \<le> n" and "decode (p @ concat ps @ q) = Some msg"
  shows "\<exists>r' d. recv_run decode r ((t, p) # map (Pair c) ps @ [(c', q)]) =
      (r', replicate (Suc (length ps)) (RecvOk None) @ [RecvOk (Some d)]) \<and> dl_message d = msg \<and>
    dl_delivery_id d = did \<and> tr_delivery_tag t = Some (dl_delivery_tag d) \<and>
    dl_message_format d = tr_message_format t"
proof -
  obtain r1 it where r1: "recv_on_incoming_transfer decode r t p = (r1, RecvOk None)" "assembling r it r1"
      "it_performative it = t" "it_buffer it = [p]" "accumulates it"
    using recv_first [OF assms(1-3), of p decode] assms(8) by auto
  have sz: "size_allowed r n" using assms(1) by (simp add: ready_for_def)
  obtain r2 where r2: "recv_run decode r1 (map (Pair c) ps) = (r2, replicate (length ps) (RecvOk None))"
      "assembling r (foldl append_payload it ps) r2"
    using recv_continuations [OF r1(2,5) assms(4,5) sz, of ps decode] assms(8) r1(4) by auto
  obtain u num off where last: "recv_on_incoming_transfer decode r2 c' q =
      complete_with decode (r\<lparr>ri_link := (ri_link r)\<lparr>l_unsettled := u\<rparr>, ri_incomplete_transfer := None\<rparr>)
        t (p @ concat ps @ q) num off"
    using recv_last [OF r2(2) _ assms(6,7) sz, of q decode] r1(3,4,5) assms(8) by auto
  from assms(1) obtain tag h where t: "tr_delivery_tag t = Some tag" "l_output_handle (ri_link r) = Some h"
      "tr_rcv_settle_mode t = None"
    by (auto simp: ready_for_def)
  obtain r3 d where "recv_on_incoming_transfer decode r2 c' q = (r3, RecvOk (Some d))" "dl_message d = msg"
      "dl_delivery_id d = did" "dl_delivery_tag d = tag" "dl_message_format d = tr_message_format t"
    using complete_with_delivers [where r = "r\<lparr>ri_link := (ri_link r)\<lparr>l_unsettled := u\<rparr>, ri_incomplete_transfer := None\<rparr>"
        and t = t and h = h and did = did and tag = tag and decode = decode and msg = msg
        and payload = "p @ concat ps @ q" and num = num and off = off]
      assms(1,3,9) t last
    by (auto simp: ready_for_def)
  then show ?thesis using r1(1) r2(1) t(1) by (auto simp: recv_run_append replicate_append_same)
qed

end
