(* ===== verification/Typed_Decode.thy ===== *)
theory Typed_Decode
  imports Composite_Codec Connection
begin

text \<open>
  Typed decoding: the deserializer (serde_amqp/src/de.rs) as the code generated by
  \<open>DeserializeComposite\<close> (serde_amqp_derive/src/de.rs) and the handwritten implementations of
  fe2o3-amqp-types drive it, for every type that occurs in a frame, and the frame decoder
  (fe2o3-amqp/src/frames/amqp.rs). None of these types occurs inside of an AMQP array apart from
  symbols, so a reader maps the input to a value and the rest of the input. A panic on a short frame
  is the result \<open>None\<close> of \<open>decode_frame\<close>. When the reading of a descriptor and the reading of the list
  header behind it both fail, only the first error is kept.
\<close>

type_synonym 'a reader = "bytes \<Rightarrow> de_error + 'a \<times> bytes"

section \<open>Primitive types\<close>

text \<open>A parse function accepts the codes of its type only.\<close>

definition parse_typed ::
    "encoding_code set \<Rightarrow> (amqp_value \<Rightarrow> 'a option) \<Rightarrow> encoding_code option \<Rightarrow> bytes \<Rightarrow> de_error + 'a \<times> bytes" where
  "parse_typed codes sel ec bs =
     (case elem_code_or_read InvalidFormatCode ec bs of
        Inl e \<Rightarrow> Inl e
      | Inr (c, rest) \<Rightarrow>
          if c \<notin> codes then Inl InvalidFormatCode
          else (case parse_scalar c rest of
                  Some (Inl e) \<Rightarrow> Inl e
                | Some (Inr (v, rest1)) \<Rightarrow> (case sel v of Some x \<Rightarrow> Inr (x, rest1) | None \<Rightarrow> Inl InvalidFormatCode)
                | None \<Rightarrow> Inl InvalidFormatCode))"

definition read_bool :: "bool reader" where
  "read_bool = parse_typed {CBoolean, CBooleanTrue, CBooleanFalse} (\<lambda>v. case v of VBool b \<Rightarrow> Some b | _ \<Rightarrow> None) None"

definition read_u8 :: "u8 reader" where
  "read_u8 = parse_typed {CUbyte} (\<lambda>v. case v of VUbyte n \<Rightarrow> Some n | _ \<Rightarrow> None) None"

definition read_u16 :: "u16 reader" where
  "read_u16 = parse_typed {CUshort} (\<lambda>v. case v of VUshort n \<Rightarrow> Some n | _ \<Rightarrow> None) None"

definition read_u32 :: "u32 reader" where
  "read_u32 = parse_typed {CUint, CSmallUint, CUint0} (\<lambda>v. case v of VUint n \<Rightarrow> Some n | _ \<Rightarrow> None) None"

definition read_u64 :: "u64 reader" where
  "read_u64 = parse_typed {CUlong, CSmallUlong, CUlong0} (\<lambda>v. case v of VUlong n \<Rightarrow> Some n | _ \<Rightarrow> None) None"

definition read_string :: "string reader" where
  "read_string = parse_typed {CStr8, CStr32} (\<lambda>v. case v of VString s \<Rightarrow> Some s | _ \<Rightarrow> None) None"

definition read_binary :: "bytes reader" where
  "read_binary = parse_typed {CVbin8, CVbin32} (\<lambda>v. case v of VBinary b \<Rightarrow> Some b | _ \<Rightarrow> None) None"

definition parse_symbol :: "encoding_code option \<Rightarrow> bytes \<Rightarrow> de_error + symbol \<times> bytes" where
  "parse_symbol = parse_typed {CSym8, CSym32} (\<lambda>v. case v of VSymbol s \<Rightarrow> Some s | _ \<Rightarrow> None)"

definition read_symbol :: "symbol reader" where
  "read_symbol = parse_symbol None"

definition read_value :: "amqp_value reader" where
  "read_value = from_slice"

definition read_option :: "'a reader \<Rightarrow> 'a option reader" where
  "read_option r bs =
     (case elem_code_or_read InvalidFormatCode None bs of
        Inl e \<Rightarrow> Inl e
      | Inr (c, rest) \<Rightarrow>
          if c = CNull then Inr (None, rest)
          else (case r bs of Inl e \<Rightarrow> Inl e | Inr (v, rest1) \<Rightarrow> Inr (Some v, rest1)))"

text \<open>A reader where the deserializer of an array or map element is expected.\<close>

definition with_elem :: "(encoding_code option \<Rightarrow> bytes \<Rightarrow> de_error + 'a \<times> bytes) \<Rightarrow> 'a deserializer" where
  "with_elem p ec bs = (case p ec bs of Inl e \<Rightarrow> Inl e | Inr (x, rest) \<Rightarrow> Inr (x, ec, rest))"

text \<open>\<open>Array<T>\<close>: an array, or a single element.\<close>

definition drop_elem :: "de_error + 'a \<times> encoding_code option \<times> bytes \<Rightarrow> de_error + 'a \<times> bytes" where
  "drop_elem r = (case r of Inl e \<Rightarrow> Inl e | Inr (x, ec, rest) \<Rightarrow> Inr (x, rest))"

definition read_array :: "(encoding_code option \<Rightarrow> bytes \<Rightarrow> de_error + 'a \<times> bytes) \<Rightarrow> 'a list reader" where
  "read_array p bs =
     (case elem_code_or_read DeCustom None bs of
        Inl e \<Rightarrow> Inl e
      | Inr (c, rest) \<Rightarrow>
          if c = CArray8 then drop_elem (deserialize_array (with_elem p) 1 rest)
          else if c = CArray32 then drop_elem (deserialize_array (with_elem p) 4 rest)
          else (case p None bs of Inl e \<Rightarrow> Inl e | Inr (s, rest1) \<Rightarrow> Inr ([s], rest1)))"

definition read_symbols :: "symbol list reader" where
  "read_symbols = read_array parse_symbol"

text \<open>\<open>OrderedMap<K, V>\<close>.\<close>

definition read_map :: "'k reader \<Rightarrow> 'v reader \<Rightarrow> ('k \<times> 'v) list reader" where
  "read_map rk rv bs =
     (case elem_code_or_read InvalidFormatCode None bs of
        Inl e \<Rightarrow> Inl e
      | Inr (c, rest) \<Rightarrow>
          (let m = deserialize_map (with_elem (\<lambda>_. rk)) (with_elem (\<lambda>_. rv)) in
           if c = CMap8 then drop_elem (m 1 None rest)
           else if c = CMap32 then drop_elem (m 4 None rest)
           else Inl InvalidFormatCode))"

definition read_fields :: "fields reader" where
  "read_fields = read_map read_symbol read_value"

section \<open>Described lists\<close>

record access =
  da_counter :: u32
  da_field_count :: u32
  da_bytes :: bytes

definition consume_list_header :: "bytes \<Rightarrow> de_error + u32 \<times> bytes" where
  "consume_list_header bs =
     (case elem_code_or_read InvalidFormatCode None bs of
        Inl e \<Rightarrow> Inl e
      | Inr (c, rest) \<Rightarrow>
          if c = CList0 then Inr (0, rest)
          else if c = CList8 \<or> c = CList32 then
            (case read_header (if c = CList8 then 1 else 4) rest of
               Inl e \<Rightarrow> Inl e
             | Inr (len, count, rest1) \<Rightarrow> Inr (word_of_nat count, rest1))
          else Inl DeCustom)"

definition next_element :: "'a reader \<Rightarrow> access \<Rightarrow> de_error + 'a option \<times> access" where
  "next_element r a =
     (if da_field_count a \<le> da_counter a then Inr (None, a)
      else case da_bytes a of
        [] \<Rightarrow> Inr (None, a)
      | b # _ \<Rightarrow>
          (case try_code b of
             None \<Rightarrow> Inl InvalidFormatCode
           | Some c \<Rightarrow>
               (case r (da_bytes a) of
                  Inl e \<Rightarrow> Inl e
                | Inr (v, rest) \<Rightarrow>
                    if c = CDescribedType \<and> da_counter a = 0 then
                      (case consume_list_header rest of
                         Inl e \<Rightarrow> Inl e
                       | Inr (n, rest1) \<Rightarrow>
                           Inr (Some v, a\<lparr>da_counter := 1, da_field_count := da_field_count a + n, da_bytes := rest1\<rparr>))
                    else Inr (Some v, a\<lparr>da_counter := da_counter a + 1, da_bytes := rest\<rparr>))))"

definition read_descriptor :: "descriptor reader" where
  "read_descriptor = deserialize_descriptor None"

text \<open>
  The generated \<open>visit_seq\<close>: the descriptor is compared, then the fields follow. The functions below
  are the four ways to read a field; the last argument is the rest of the function.
\<close>

definition read_composite ::
    "symbol \<Rightarrow> u64 \<Rightarrow> (access \<Rightarrow> de_error + 'a \<times> access) \<Rightarrow> 'a reader" where
  "read_composite name code visit bs =
     (case next_element read_descriptor \<lparr>da_counter = 0, da_field_count = 1, da_bytes = bs\<rparr> of
        Inl e \<Rightarrow> Inl e
      | Inr (None, _) \<Rightarrow> Inl DeCustom
      | Inr (Some d, a) \<Rightarrow>
          if d \<noteq> DName name \<and> d \<noteq> DCode code then Inl DeCustom
          else (case visit a of Inl e \<Rightarrow> Inl e | Inr (x, a1) \<Rightarrow> Inr (x, da_bytes a1)))"

definition required :: "'a reader \<Rightarrow> access \<Rightarrow> ('a \<Rightarrow> access \<Rightarrow> de_error + 'b) \<Rightarrow> de_error + 'b" where
  "required r a k =
     (case next_element r a of
        Inl e \<Rightarrow> Inl e
      | Inr (None, _) \<Rightarrow> Inl DeCustom
      | Inr (Some v, a1) \<Rightarrow> k v a1)"

definition optional :: "'a reader \<Rightarrow> access \<Rightarrow> ('a option \<Rightarrow> access \<Rightarrow> de_error + 'b) \<Rightarrow> de_error + 'b" where
  "optional r a k =
     (case next_element (read_option r) a of
        Inl e \<Rightarrow> Inl e
      | Inr (None, a1) \<Rightarrow> k None a1
      | Inr (Some v, a1) \<Rightarrow> k v a1)"

definition defaulted :: "'a \<Rightarrow> 'a reader \<Rightarrow> access \<Rightarrow> ('a \<Rightarrow> access \<Rightarrow> de_error + 'b) \<Rightarrow> de_error + 'b" where
  "defaulted d r a k = optional r a (\<lambda>v. k (case v of Some x \<Rightarrow> x | None \<Rightarrow> d))"

definition multiple :: "'a list reader \<Rightarrow> access \<Rightarrow> ('a list option \<Rightarrow> access \<Rightarrow> de_error + 'b) \<Rightarrow> de_error + 'b" where
  "multiple r a k = optional r a (\<lambda>v. k (if v = Some [] then None else v))"

section \<open>Enums\<close>

text \<open>
  \<open>deserialize_enum\<close> for an enum with no special name, then \<open>deserialize_identifier\<close>: the descriptor
  of a described value is looked at and not consumed, other identifiers are consumed.
\<close>

definition enum_header :: "bytes \<Rightarrow> de_error + bytes" where
  "enum_header bs =
     (case elem_code_or_read InvalidFormatCode None bs of
        Inl e \<Rightarrow> Inl e
      | Inr (c, rest) \<Rightarrow>
          if c = CList0 then Inl InvalidFormatCode
          else if c \<in> {CList8, CMap8, CList32, CMap32} then
            (case read_header (if c \<in> {CList8, CMap8} then 1 else 4) rest of
               Inl e \<Rightarrow> Inl e
             | Inr (len, count, rest1) \<Rightarrow> if count = 2 then Inr rest1 else Inl InvalidLength)
          else Inr bs)"

definition described_identifier :: "bytes \<Rightarrow> de_error + descriptor" where
  "described_identifier bs =
     (case elem_code_or_read InvalidFormatCode None bs of
        Inl e \<Rightarrow> Inl e
      | Inr (c, rest) \<Rightarrow>
          if c \<notin> {CSym8, CSym32, CUlong, CSmallUlong, CUlong0} then Inl InvalidFormatCode
          else (case parse_scalar c rest of
                  Some (Inr (VSymbol name, _)) \<Rightarrow> Inr (DName name)
                | Some (Inr (VUlong code, _)) \<Rightarrow> Inr (DCode code)
                | Some (Inl e) \<Rightarrow> Inl e
                | _ \<Rightarrow> Inl InvalidFormatCode))"

definition read_identifier :: "descriptor reader" where
  "read_identifier bs =
     (case elem_code_or_read InvalidFormatCode None bs of
        Inl e \<Rightarrow> Inl e
      | Inr (c, rest) \<Rightarrow>
          if c = CDescribedType then
            (case described_identifier rest of Inl e \<Rightarrow> Inl e | Inr d \<Rightarrow> Inr (d, bs))
          else if c \<in> {CStr8, CStr32, CSym8, CSym32, CUint, CSmallUint, CUint0, CUlong, CSmallUlong, CUlong0} then
            (case parse_scalar c rest of
               Some (Inr (VString name, rest1)) \<Rightarrow> Inr (DName name, rest1)
             | Some (Inr (VSymbol name, rest1)) \<Rightarrow> Inr (DName name, rest1)
             | Some (Inr (VUint n, rest1)) \<Rightarrow> Inr (DCode (ucast n), rest1)
             | Some (Inr (VUlong n, rest1)) \<Rightarrow> Inr (DCode n, rest1)
             | Some (Inl e) \<Rightarrow> Inl e
             | _ \<Rightarrow> Inl InvalidFormatCode)
          else Inr (DCode (ucast (code_byte c)), bs))"

definition read_enum :: "(descriptor \<Rightarrow> 'a reader option) \<Rightarrow> 'a reader" where
  "read_enum variant bs =
     (case enum_header bs of
        Inl e \<Rightarrow> Inl e
      | Inr bs1 \<Rightarrow>
          (case read_identifier bs1 of
             Inl e \<Rightarrow> Inl e
           | Inr (d, rest) \<Rightarrow> (case variant d of None \<Rightarrow> Inl DeCustom | Some r \<Rightarrow> r rest)))"

definition is_variant :: "symbol \<Rightarrow> u64 \<Rightarrow> descriptor \<Rightarrow> bool" where
  "is_variant name code d = (d = DName name \<or> d = DCode code)"

definition map_reader :: "('a \<Rightarrow> 'b) \<Rightarrow> 'a reader \<Rightarrow> 'b reader" where
  "map_reader f r bs = (case r bs of Inl e \<Rightarrow> Inl e | Inr (x, rest) \<Rightarrow> Inr (f x, rest))"

definition try_reader :: "('a \<Rightarrow> 'b option) \<Rightarrow> 'a reader \<Rightarrow> 'b reader" where
  "try_reader f r bs =
     (case r bs of
        Inl e \<Rightarrow> Inl e
      | Inr (x, rest) \<Rightarrow> (case f x of Some y \<Rightarrow> Inr (y, rest) | None \<Rightarrow> Inl DeCustom))"

section \<open>Protocol types\<close>

text \<open>The conversions from symbols look a name up in the table of the type.\<close>

definition by_symbol :: "('a \<Rightarrow> symbol) \<Rightarrow> 'a list \<Rightarrow> symbol \<Rightarrow> 'a option" where
  "by_symbol name table s = find (\<lambda>x. name x = s) table"

definition amqp_error_of :: "symbol \<Rightarrow> amqp_error_cond option" where
  "amqp_error_of = by_symbol amqp_error_symbol [InternalError, NotFound, UnauthorizedAccess, DecodeError,
     ResourceLimitExceeded, NotAllowed, InvalidField, NotImplemented, ResourceLocked, PreconditionFailed,
     ResourceDeleted, AmqpIllegalState, FrameSizeTooSmall]"

definition connection_error_of :: "symbol \<Rightarrow> connection_error_cond option" where
  "connection_error_of = by_symbol connection_error_symbol [ConnectionForced, FramingError, ConnectionRedirect]"

definition session_error_of :: "symbol \<Rightarrow> session_error_cond option" where
  "session_error_of = by_symbol session_error_symbol
     [WindowViolation, ErrantLink, SeHandleInUse, SeUnattachedHandle]"

definition link_error_of :: "symbol \<Rightarrow> link_error_cond option" where
  "link_error_of = by_symbol link_error_symbol
     [DetachForced, TransferLimitExceeded, MessageSizeExceeded, LinkRedirect, Stolen]"

definition transaction_error_of :: "symbol \<Rightarrow> transaction_error option" where
  "transaction_error_of = by_symbol transaction_error_symbol [UnknownId, TxnRollback, TxnTimeout]"

definition error_condition_of :: "symbol \<Rightarrow> error_condition" where
  "error_condition_of s =
     (case amqp_error_of s of Some e \<Rightarrow> AmqpError e | None \<Rightarrow>
     (case connection_error_of s of Some e \<Rightarrow> ConnectionError e | None \<Rightarrow>
     (case session_error_of s of Some e \<Rightarrow> SessionError e | None \<Rightarrow>
     (case link_error_of s of Some e \<Rightarrow> LinkError e | None \<Rightarrow>
     (case transaction_error_of s of Some e \<Rightarrow> TransactionError e | None \<Rightarrow> CustomError s)))))"

definition read_error :: "amqp_error reader" where
  "read_error = read_composite ''amqp:error:list'' 0x1d (\<lambda>a.
     required (map_reader error_condition_of read_symbol) a (\<lambda>condition a.
     optional read_string a (\<lambda>description a.
     optional read_fields a (\<lambda>info a.
       Inr (\<lparr>err_condition = condition, err_description = description, err_info = info\<rparr>, a)))))"

definition read_modified :: "modified reader" where
  "read_modified = read_composite ''amqp:modified:list'' 0x27 (\<lambda>a.
     optional read_bool a (\<lambda>failed a.
     optional read_bool a (\<lambda>undeliverable a.
     optional read_fields a (\<lambda>annotations a.
       Inr (\<lparr>delivery_failed = failed, undeliverable_here = undeliverable,
             message_annotations = annotations\<rparr>, a)))))"

definition read_rejected :: "amqp_error option reader" where
  "read_rejected = read_composite ''amqp:rejected:list'' 0x25 (\<lambda>a. optional read_error a (\<lambda>e a. Inr (e, a)))"

definition read_unit :: "symbol \<Rightarrow> u64 \<Rightarrow> 'a \<Rightarrow> 'a reader" where
  "read_unit name code x = read_composite name code (\<lambda>a. Inr (x, a))"

definition read_declared :: "bytes reader" where
  "read_declared = read_composite ''amqp:declared:list'' 0x33 (\<lambda>a. required read_binary a (\<lambda>txn a. Inr (txn, a)))"

definition outcome_variant :: "descriptor \<Rightarrow> outcome reader option" where
  "outcome_variant d =
     (if is_variant ''amqp:accepted:list'' 0x24 d then Some (read_unit ''amqp:accepted:list'' 0x24 OAccepted)
      else if is_variant ''amqp:rejected:list'' 0x25 d then Some (map_reader ORejected read_rejected)
      else if is_variant ''amqp:released:list'' 0x26 d then Some (read_unit ''amqp:released:list'' 0x26 OReleased)
      else if is_variant ''amqp:modified:list'' 0x27 d then Some (map_reader OModified read_modified)
      else if is_variant ''amqp:declared:list'' 0x33 d then Some (map_reader ODeclared read_declared)
      else None)"

definition read_outcome :: "outcome reader" where
  "read_outcome = read_enum outcome_variant"

definition read_received :: "delivery_state reader" where
  "read_received = read_composite ''amqp:received:list'' 0x23 (\<lambda>a.
     required read_u32 a (\<lambda>number a. required read_u64 a (\<lambda>offset a. Inr (Received number offset, a))))"

definition read_transactional_state :: "delivery_state reader" where
  "read_transactional_state = read_composite ''amqp:transactional-state:list'' 0x34 (\<lambda>a.
     required read_binary a (\<lambda>txn a. optional read_outcome a (\<lambda>out a. Inr (TransactionalState txn out, a))))"

definition delivery_state_variant :: "descriptor \<Rightarrow> delivery_state reader option" where
  "delivery_state_variant d =
     (if is_variant ''amqp:accepted:list'' 0x24 d then Some (read_unit ''amqp:accepted:list'' 0x24 Accepted)
      else if is_variant ''amqp:rejected:list'' 0x25 d then Some (map_reader Rejected read_rejected)
      else if is_variant ''amqp:released:list'' 0x26 d then Some (read_unit ''amqp:released:list'' 0x26 Released)
      else if is_variant ''amqp:modified:list'' 0x27 d then Some (map_reader Modified read_modified)
      else if is_variant ''amqp:received:list'' 0x23 d then Some read_received
      else if is_variant ''amqp:declared:list'' 0x33 d then Some (map_reader Declared read_declared)
      else if is_variant ''amqp:transactional-state:list'' 0x34 d then Some read_transactional_state
      else None)"

definition read_delivery_state :: "delivery_state reader" where
  "read_delivery_state = read_enum delivery_state_variant"

text \<open>The derived implementation of \<open>TerminusDurability\<close>: the index or the name of the variant.\<close>

definition durability_variant :: "descriptor \<Rightarrow> terminus_durability reader option" where
  "durability_variant d =
     (if is_variant ''None'' 0 d then Some (\<lambda>bs. Inr (DurNone, bs))
      else if is_variant ''Configuration'' 1 d then Some (\<lambda>bs. Inr (DurConfiguration, bs))
      else if is_variant ''UnsettledState'' 2 d then Some (\<lambda>bs. Inr (DurUnsettledState, bs))
      else None)"

definition read_durability :: "terminus_durability reader" where
  "read_durability = read_enum durability_variant"

definition read_expiry_policy :: "terminus_expiry_policy reader" where
  "read_expiry_policy = try_reader
     (by_symbol expiry_policy_symbol [LinkDetach, SessionEnd, ConnectionClose, Never]) read_symbol"

definition read_distribution_mode :: "distribution_mode reader" where
  "read_distribution_mode = try_reader (by_symbol distribution_mode_symbol [Move, Copy]) read_symbol"

definition parse_txn_capability :: "encoding_code option \<Rightarrow> bytes \<Rightarrow> de_error + txn_capability \<times> bytes" where
  "parse_txn_capability ec = try_reader
     (by_symbol txn_capability_symbol [LocalTransactions, DistributedTransactions, PromotableTransactions,
        MultiTxnsPerSsn, MultiSsnsPerTxn]) (parse_symbol ec)"

definition read_source :: "source reader" where
  "read_source = read_composite ''amqp:source:list'' 0x28 (\<lambda>a.
     optional read_string a (\<lambda>address a.
     defaulted DurNone read_durability a (\<lambda>durable a.
     defaulted SessionEnd read_expiry_policy a (\<lambda>expiry a.
     defaulted 0 read_u32 a (\<lambda>timeout a.
     defaulted False read_bool a (\<lambda>dynamic a.
     optional read_fields a (\<lambda>props a.
     optional read_distribution_mode a (\<lambda>mode a.
     optional read_fields a (\<lambda>filter_set a.
     optional read_outcome a (\<lambda>default a.
     multiple read_symbols a (\<lambda>outcomes a.
     multiple read_symbols a (\<lambda>caps a.
       Inr (\<lparr>src_address = address, src_durable = durable, src_expiry_policy = expiry,
             src_timeout = timeout, src_dynamic = dynamic, src_dynamic_node_properties = props,
             src_distribution_mode = mode, src_filter = filter_set, src_default_outcome = default,
             src_outcomes = outcomes, src_capabilities = caps\<rparr>, a)))))))))))))"

definition read_target :: "target reader" where
  "read_target = read_composite ''amqp:target:list'' 0x29 (\<lambda>a.
     optional read_string a (\<lambda>address a.
     defaulted DurNone read_durability a (\<lambda>durable a.
     defaulted SessionEnd read_expiry_policy a (\<lambda>expiry a.
     defaulted 0 read_u32 a (\<lambda>timeout a.
     defaulted False read_bool a (\<lambda>dynamic a.
     optional read_fields a (\<lambda>props a.
     multiple read_symbols a (\<lambda>caps a.
       Inr (\<lparr>tgt_address = address, tgt_durable = durable, tgt_expiry_policy = expiry,
             tgt_timeout = timeout, tgt_dynamic = dynamic, tgt_dynamic_node_properties = props,
             tgt_capabilities = caps\<rparr>, a)))))))))"

definition read_coordinator :: "txn_capability list option reader" where
  "read_coordinator = read_composite ''amqp:coordinator:list'' 0x30 (\<lambda>a.
     multiple (read_array parse_txn_capability) a (\<lambda>caps a. Inr (caps, a)))"

definition target_variant :: "descriptor \<Rightarrow> target_archetype reader option" where
  "target_variant d =
     (if is_variant ''amqp:target:list'' 0x29 d then Some (map_reader ATarget read_target)
      else if is_variant ''amqp:coordinator:list'' 0x30 d then Some (map_reader ACoordinator read_coordinator)
      else None)"

definition read_target_archetype :: "target_archetype reader" where
  "read_target_archetype = read_enum target_variant"

section \<open>Performatives\<close>

definition read_role :: "role reader" where
  "read_role = map_reader (\<lambda>b. if b then Receiver else Sender) read_bool"

definition snd_settle_mode_of :: "u8 \<Rightarrow> sender_settle_mode option" where
  "snd_settle_mode_of n = (if n = 0 then Some Unsettled else if n = 1 then Some Settled
     else if n = 2 then Some Mixed else None)"

definition rcv_settle_mode_of :: "u8 \<Rightarrow> receiver_settle_mode option" where
  "rcv_settle_mode_of n = (if n = 0 then Some First else if n = 1 then Some Second else None)"

definition read_open :: "open_perf reader" where
  "read_open = read_composite ''amqp:open:list'' 0x10 (\<lambda>a.
     required read_string a (\<lambda>container a.
     optional read_string a (\<lambda>hostname a.
     defaulted 0xFFFFFFFF read_u32 a (\<lambda>max_frame a.
     defaulted 0xFFFF read_u16 a (\<lambda>channel_max a.
     optional read_u32 a (\<lambda>idle a.
     multiple read_symbols a (\<lambda>outgoing a.
     multiple read_symbols a (\<lambda>incoming a.
     multiple read_symbols a (\<lambda>offered a.
     multiple read_symbols a (\<lambda>desired a.
     optional read_fields a (\<lambda>props a.
       Inr (\<lparr>op_container_id = container, op_hostname = hostname, op_max_frame_size = max_frame,
             op_channel_max = channel_max, op_idle_time_out = idle, op_outgoing_locales = outgoing,
             op_incoming_locales = incoming, op_offered_capabilities = offered,
             op_desired_capabilities = desired, op_properties = props\<rparr>, a))))))))))))"

definition read_begin :: "begin_perf reader" where
  "read_begin = read_composite ''amqp:begin:list'' 0x11 (\<lambda>a.
     optional read_u16 a (\<lambda>remote a.
     required read_u32 a (\<lambda>next_id a.
     required read_u32 a (\<lambda>in_window a.
     required read_u32 a (\<lambda>out_window a.
     defaulted 0xFFFFFFFF read_u32 a (\<lambda>handle_max a.
     multiple read_symbols a (\<lambda>offered a.
     multiple read_symbols a (\<lambda>desired a.
     optional read_fields a (\<lambda>props a.
       Inr (\<lparr>be_remote_channel = remote, be_next_outgoing_id = next_id, be_incoming_window = in_window,
             be_outgoing_window = out_window, be_handle_max = handle_max,
             be_offered_capabilities = offered, be_desired_capabilities = desired,
             be_properties = props\<rparr>, a))))))))))"

definition read_attach :: "attach reader" where
  "read_attach = read_composite ''amqp:attach:list'' 0x12 (\<lambda>a.
     required read_string a (\<lambda>name a.
     required read_u32 a (\<lambda>handle a.
     required read_role a (\<lambda>rl a.
     defaulted Mixed (try_reader snd_settle_mode_of read_u8) a (\<lambda>snd_mode a.
     defaulted First (try_reader rcv_settle_mode_of read_u8) a (\<lambda>rcv_mode a.
     optional read_source a (\<lambda>src a.
     optional read_target_archetype a (\<lambda>tgt a.
     optional (read_map read_binary (read_option read_delivery_state)) a (\<lambda>unsettled a.
     defaulted False read_bool a (\<lambda>incomplete a.
     optional read_u32 a (\<lambda>initial a.
     optional read_u64 a (\<lambda>max_size a.
     multiple read_symbols a (\<lambda>offered a.
     multiple read_symbols a (\<lambda>desired a.
     optional read_fields a (\<lambda>props a.
       Inr (\<lparr>at_name = name, at_handle = handle, at_role = rl, at_snd_settle_mode = snd_mode,
             at_rcv_settle_mode = rcv_mode, at_source = src, at_target = tgt, at_unsettled = unsettled,
             at_incomplete_unsettled = incomplete, at_initial_delivery_count = initial,
             at_max_message_size = max_size, at_offered_capabilities = offered,
             at_desired_capabilities = desired, at_properties = props\<rparr>, a))))))))))))))))"

definition read_flow :: "flow reader" where
  "read_flow = read_composite ''amqp:flow:list'' 0x13 (\<lambda>a.
     optional read_u32 a (\<lambda>next_in a.
     required read_u32 a (\<lambda>in_window a.
     required read_u32 a (\<lambda>next_out a.
     required read_u32 a (\<lambda>out_window a.
     optional read_u32 a (\<lambda>handle a.
     optional read_u32 a (\<lambda>count a.
     optional read_u32 a (\<lambda>credit a.
     optional read_u32 a (\<lambda>avail a.
     defaulted False read_bool a (\<lambda>dr a.
     defaulted False read_bool a (\<lambda>echo a.
     optional read_fields a (\<lambda>props a.
       Inr (\<lparr>fl_next_incoming_id = next_in, fl_incoming_window = in_window, fl_next_outgoing_id = next_out,
             fl_outgoing_window = out_window, fl_handle = handle, fl_delivery_count = count,
             fl_link_credit = credit, fl_available = avail, fl_drain = dr, fl_echo = echo,
             fl_properties = props\<rparr>, a)))))))))))))"

definition read_transfer :: "transfer reader" where
  "read_transfer = read_composite ''amqp:transfer:list'' 0x14 (\<lambda>a.
     required read_u32 a (\<lambda>handle a.
     optional read_u32 a (\<lambda>did a.
     optional read_binary a (\<lambda>tag a.
     optional read_u32 a (\<lambda>fmt a.
     optional read_bool a (\<lambda>settled a.
     defaulted False read_bool a (\<lambda>more a.
     optional (try_reader rcv_settle_mode_of read_u8) a (\<lambda>mode a.
     optional read_delivery_state a (\<lambda>state a.
     defaulted False read_bool a (\<lambda>resume a.
     defaulted False read_bool a (\<lambda>aborted a.
     defaulted False read_bool a (\<lambda>batchable a.
       Inr (\<lparr>tr_handle = handle, tr_delivery_id = did, tr_delivery_tag = tag, tr_message_format = fmt,
             tr_settled = settled, tr_more = more, tr_rcv_settle_mode = mode, tr_state = state,
             tr_resume = resume, tr_aborted = aborted, tr_batchable = batchable\<rparr>, a)))))))))))))"

definition read_disposition :: "disposition reader" where
  "read_disposition = read_composite ''amqp:disposition:list'' 0x15 (\<lambda>a.
     required read_role a (\<lambda>rl a.
     required read_u32 a (\<lambda>first_id a.
     optional read_u32 a (\<lambda>last_id a.
     defaulted False read_bool a (\<lambda>settled a.
     optional read_delivery_state a (\<lambda>state a.
     defaulted False read_bool a (\<lambda>batchable a.
       Inr (\<lparr>di_role = rl, di_first = first_id, di_last = last_id, di_settled = settled,
             di_state = state, di_batchable = batchable\<rparr>, a))))))))"

definition read_detach :: "detach reader" where
  "read_detach = read_composite ''amqp:detach:list'' 0x16 (\<lambda>a.
     required read_u32 a (\<lambda>handle a.
     defaulted False read_bool a (\<lambda>closed a.
     optional read_error a (\<lambda>err a.
       Inr (\<lparr>de_handle = handle, de_closed = closed, de_error = err\<rparr>, a)))))"

definition read_end :: "end_perf reader" where
  "read_end = read_composite ''amqp:end:list'' 0x17 (\<lambda>a.
     optional read_error a (\<lambda>err a. Inr (\<lparr>en_error = err\<rparr>, a)))"

definition read_close :: "close_perf reader" where
  "read_close = read_composite ''amqp:close:list'' 0x18 (\<lambda>a.
     optional read_error a (\<lambda>err a. Inr (\<lparr>cl_error = err\<rparr>, a)))"

text \<open>The payload of a transfer is added by the frame decoder.\<close>

definition performative_variant :: "descriptor \<Rightarrow> frame_body reader option" where
  "performative_variant d =
     (if is_variant ''amqp:open:list'' 0x10 d then Some (map_reader FOpen read_open)
      else if is_variant ''amqp:begin:list'' 0x11 d then Some (map_reader FBegin read_begin)
      else if is_variant ''amqp:attach:list'' 0x12 d then Some (map_reader FAttach read_attach)
      else if is_variant ''amqp:flow:list'' 0x13 d then Some (map_reader FFlow read_flow)
      else if is_variant ''amqp:transfer:list'' 0x14 d
      then Some (map_reader (\<lambda>t. FTransfer t []) read_transfer)
      else if is_variant ''amqp:disposition:list'' 0x15 d then Some (map_reader FDisposition read_disposition)
      else if is_variant ''amqp:detach:list'' 0x16 d then Some (map_reader FDetach read_detach)
      else if is_variant ''amqp:end:list'' 0x17 d then Some (map_reader FEnd read_end)
      else if is_variant ''amqp:close:list'' 0x18 d then Some (map_reader FClose read_close)
      else None)"

section \<open>Frames\<close>

datatype decode_error = DecNotImplemented | DecAmqp de_error

text \<open>
  \<open>FrameDecoder::decode\<close> on one frame, cut off its length by the codec of the transport. Bytes that
  follow a performative without payload are not looked at.
\<close>

definition decode_frame :: "bytes \<Rightarrow> (decode_error + frame) option" where
  "decode_frame bs =
     (case bs of
        doff # ftype # c1 # c2 # body \<Rightarrow>
          Some (let channel = word_of_nat (be_nat [c1, c2]) in
            if ftype \<noteq> 0 then Inl DecNotImplemented
            else if doff \<noteq> 2 then Inl DecNotImplemented
            else if body = [] then Inr (frame_new channel FEmpty)
            else (case read_enum performative_variant body of
                    Inl e \<Rightarrow> Inl (DecAmqp e)
                  | Inr (FTransfer t _, rest) \<Rightarrow> Inr (frame_new channel (FTransfer t rest))
                  | Inr (b, rest) \<Rightarrow> Inr (frame_new channel b)))
      | _ \<Rightarrow> None)"

end
