(* ===== verification/Typed_Roundtrip.thy ===== *)
theory Typed_Roundtrip
  imports Typed_Decode
begin

text \<open>
  Typed decoding reads back what the composite serializers write. \<open>reads\<close> says that a reader takes
  exactly the bytes of a field and returns a value; there is a rule for every way a field can be
  declared, so that the proof for a composite type is one rule per field.
\<close>

section \<open>Readers of fields\<close>

definition reads :: "'a reader \<Rightarrow> cfield \<Rightarrow> 'a \<Rightarrow> bool" where
  "reads r f x \<longleftrightarrow> (\<forall>bs rest. encodable (wire_value f) \<longrightarrow> serialize_field f = Inr bs \<longrightarrow>
     r (bs @ rest) = Inr (x, rest))"

lemma readsD: "reads r f x \<Longrightarrow> encodable (wire_value f) \<Longrightarrow> serialize_field f = Inr bs \<Longrightarrow> r (bs @ rest) = Inr (x, rest)"
  by (simp add: reads_def)

definition present :: "cfield \<Rightarrow> bool" where
  "present f \<longleftrightarrow> f \<noteq> FNone \<and> f \<noteq> FValue VNull"

lemma present_simps [simp]:
  "present (FComposite code fs)" "present (FTagMap m)" "\<not> present FNone"
  "present (FValue v) \<longleftrightarrow> v \<noteq> VNull"
  by (simp_all add: present_def)

lemma serialize_field_value:
  "serialize_field f = Inr bs \<Longrightarrow> \<exists>se. serialize_value NoElement serializer_new (wire_value f) = Inr (se, bs)"
  by (auto simp: serialize_as_value(1) to_vec_def split: sum.splits)

lemma serialize_field_head:
  assumes "serialize_field f = Inr bs" and "encodable (wire_value f)" and "present f"
  obtains c b where "bs = code_byte c # b" and "c \<noteq> CNull"
proof -
  from serialize_field_value [OF assms(1)] obtain se where
    s: "serialize_value NoElement serializer_new (wire_value f) = Inr (se, bs)" ..
  obtain c b where bs: "bs = code_byte c # b" using serialize_head [OF s] by blast
  have "wire_value f \<noteq> VNull" using assms(3) by (cases f) simp_all
  moreover have "wire_value f = VNull" if "c = CNull"
    using decodesD [OF decodes assms(2) s, of "Suc (length bs)" "[]"] that bs by simp
  ultimately show thesis using that bs by blast
qed

lemma reads_scalar:
  assumes "array_code v \<noteq> None" and "sel v = Some x"
    and "\<And>c bs rest. parse_scalar c bs = Some (Inr (v, rest)) \<Longrightarrow> c \<in> codes"
  shows "reads (parse_typed codes sel None) (FValue v) x"
  unfolding reads_def
proof (intro allI impI)
  fix bs rest
  assume "encodable (wire_value (FValue v))" "serialize_field (FValue v) = Inr bs"
  with serialize_field_value [OF this(2)] obtain se where
    "encodable v" "serialize_value NoElement serializer_new v = Inr (se, bs)" by auto
  from scalar_parse [OF this, of rest] assms(1) obtain c b where
    "bs = code_byte c # b" "parse_scalar c (b @ rest) = Some (Inr (v, rest))" by blast
  with assms(2,3) show "parse_typed codes sel None (bs @ rest) = Inr (x, rest)"
    by (simp add: parse_typed_def)
qed

lemma parse_scalar_code:
  "parse_scalar c bs = Some (Inr (VBool b, rest)) \<Longrightarrow> c \<in> {CBoolean, CBooleanTrue, CBooleanFalse}"
  "parse_scalar c bs = Some (Inr (VUbyte n8, rest)) \<Longrightarrow> c \<in> {CUbyte}"
  "parse_scalar c bs = Some (Inr (VUshort n16, rest)) \<Longrightarrow> c \<in> {CUshort}"
  "parse_scalar c bs = Some (Inr (VUint n32, rest)) \<Longrightarrow> c \<in> {CUint, CSmallUint, CUint0}"
  "parse_scalar c bs = Some (Inr (VUlong n64, rest)) \<Longrightarrow> c \<in> {CUlong, CSmallUlong, CUlong0}"
  "parse_scalar c bs = Some (Inr (VString s, rest)) \<Longrightarrow> c \<in> {CStr8, CStr32}"
  "parse_scalar c bs = Some (Inr (VSymbol s, rest)) \<Longrightarrow> c \<in> {CSym8, CSym32}"
  "parse_scalar c bs = Some (Inr (VBinary b8, rest)) \<Longrightarrow> c \<in> {CVbin8, CVbin32}"
  by (cases c; force simp: map_value_def split: sum.splits prod.splits if_splits)+

named_theorems field_reads

lemma reads_primitives [field_reads]:
  "reads read_bool (f_bool b) b" "reads read_u8 (FValue (VUbyte n8)) n8" "reads read_u16 (f_ushort n16) n16"
  "reads read_u32 (f_uint n32) n32" "reads read_u64 (f_ulong n64) n64" "reads read_string (f_string s) s"
  "reads read_symbol (f_symbol s) s" "reads read_binary (f_binary b8) b8"
  unfolding read_bool_def read_u8_def read_u16_def read_u32_def read_u64_def read_string_def
    read_symbol_def parse_symbol_def read_binary_def
  by (rule reads_scalar; (erule parse_scalar_code)?; simp)+

lemma reads_value [field_reads]: "reads read_value (FValue v) v"
  using from_slice_reads by (auto simp: reads_def read_value_def to_vec_def split: sum.splits)

lemma reads_map_reader [field_reads]: "reads r f x \<Longrightarrow> reads (map_reader g r) f (g x)"
  by (simp add: reads_def map_reader_def)

lemma reads_map_reader': "reads r f x \<Longrightarrow> g x = y \<Longrightarrow> reads (map_reader g r) f y"
  using reads_map_reader by metis

lemma reads_try_reader: "reads r f x \<Longrightarrow> g x = Some y \<Longrightarrow> reads (try_reader g r) f y"
  by (simp add: reads_def try_reader_def)

lemma reads_option_Some: "reads r f x \<Longrightarrow> present f \<Longrightarrow> reads (read_option r) f (Some x)"
  unfolding reads_def
proof (intro allI impI)
  fix bs rest
  assume r: "\<forall>bs rest. encodable (wire_value f) \<longrightarrow> serialize_field f = Inr bs \<longrightarrow> r (bs @ rest) = Inr (x, rest)"
    and "present f" and enc: "encodable (wire_value f)" and s: "serialize_field f = Inr bs"
  then obtain c b where "bs = code_byte c # b" "c \<noteq> CNull" using serialize_field_head by metis
  with r enc s show "read_option r (bs @ rest) = Inr (Some x, rest)" by (simp add: read_option_def)
qed

lemma reads_option [field_reads]:
  "(\<And>y. x = Some y \<Longrightarrow> reads r (g y) y \<and> present (g y)) \<Longrightarrow> reads (read_option r) (opt g x) x"
  by (cases x) (auto simp: opt_def reads_option_Some, simp add: reads_def read_option_def)

section \<open>Arrays and maps\<close>

lemma reads_array:
  assumes "\<And>x c rest. array_code (h x) = Some c \<Longrightarrow> encodable (h x) \<Longrightarrow> ascii_string (h x) \<Longrightarrow>
      p (Some c) (element_body (h x) @ rest) = Inr (x, rest)"
  shows "reads (read_array p) (FValue (VArray (map h xs))) xs"
  unfolding reads_def
proof (intro allI impI)
  fix bs rest
  assume enc: "encodable (wire_value (FValue (VArray (map h xs))))"
    and s: "serialize_field (FValue (VArray (map h xs))) = Inr bs"
  from serialize_field_value [OF s] obtain se where
    s: "serialize_value NoElement serializer_new (VArray (map h xs)) = Inr (se, bs)" by auto
  show "read_array p (bs @ rest) = Inr (xs, rest)"
  proof (rule array_reads [OF _ s, where d = "with_elem p"])
    show "with_elem p (Some c) (element_body (h x) @ rest) = Inr (x, Some c, rest)"
      if "array_code (h x) = Some c" "encodable (h x)" "ascii_string (h x)" for x c rest
      using assms [OF that] by (simp add: with_elem_def)
  qed (use enc in \<open>auto simp: read_array_def drop_elem_def\<close>)
qed

lemma parse_symbol_element:
  "array_code (VSymbol s) = Some c \<Longrightarrow> encodable (VSymbol s) \<Longrightarrow>
   parse_symbol (Some c) (element_body (VSymbol s) @ rest) = Inr (s, rest)"
  using element_parse [of "VSymbol s" c rest]
  by (simp add: parse_symbol_def parse_typed_def del: parse_scalar.simps)

lemma reads_symbols [field_reads]: "reads read_symbols (f_symbols ss) ss"
  unfolding read_symbols_def by (rule reads_array) (rule parse_symbol_element)

lemma reads_map:
  assumes "\<And>kv. kv \<in> set m \<Longrightarrow> reads rk (FValue (h (fst kv))) (fst kv)"
    and "\<And>kv. kv \<in> set m \<Longrightarrow> reads rv (FValue (v kv)) (snd kv)"
  shows "reads (read_map rk rv) (FValue (VMap (map (\<lambda>kv. (h (fst kv), v kv)) m))) m"
  unfolding reads_def
proof (intro allI impI)
  let ?m = "VMap (map (\<lambda>kv. (h (fst kv), v kv)) m)"
  fix bs rest
  assume enc: "encodable (wire_value (FValue ?m))" and s: "serialize_field (FValue ?m) = Inr bs"
  from serialize_field_value [OF s] obtain se where
    s: "serialize_value NoElement serializer_new ?m = Inr (se, bs)" by auto
  show "read_map rk rv (bs @ rest) = Inr (m, rest)"
  proof (rule map_reads [OF _ s, where dk = "with_elem (\<lambda>_. rk)" and dv = "with_elem (\<lambda>_. rv)" and h = h])
    show "entry_reads (with_elem (\<lambda>_. rk)) (with_elem (\<lambda>_. rv)) kv (kb, vb)"
      if "kv \<in> set m" "serialize_value NoElement serializer_new (fst (h (fst kv), v kv)) = Inr (se1, kb)"
        "serialize_value NoElement serializer_new (snd (h (fst kv), v kv)) = Inr (se2, vb)" for kv se1 kb se2 vb
      using that enc assms(1,2) [OF that(1)]
      by (auto simp: entry_reads_def with_elem_def reads_def list_all_iff to_vec_def)
  qed (use enc in \<open>auto simp: read_map_def drop_elem_def\<close>)
qed

lemma reads_fields [field_reads]: "reads read_fields (f_fields m) m"
proof -
  have m: "map (\<lambda>(k, v). (VSymbol k, v)) m = map (\<lambda>kv. (VSymbol (fst kv), snd kv)) m"
    by (simp add: case_prod_beta)
  show ?thesis unfolding read_fields_def m by (rule reads_map) (simp_all add: field_reads)
qed

lemma reads_wire: "reads r (FValue (wire_value f)) x \<longleftrightarrow> reads r f x"
  by (simp add: reads_def serialize_as_value(1))

lemma reads_tag_map [field_reads]:
  assumes "\<And>kv. kv \<in> set m \<Longrightarrow> reads rv (g (snd kv)) (snd kv)"
  shows "reads (read_map read_binary rv) (FTagMap (map (\<lambda>(tag, st). (tag, g st)) m)) m"
proof -
  have wire: "wire_value (FTagMap (map (\<lambda>(tag, st). (tag, g st)) m)) =
      VMap (map (\<lambda>kv. (VBinary (fst kv), wire_value (g (snd kv)))) m)"
    by (simp add: o_def case_prod_beta)
  have "reads (read_map read_binary rv)
      (FValue (VMap (map (\<lambda>kv. (VBinary (fst kv), wire_value (g (snd kv)))) m))) m"
    by (rule reads_map) (simp_all add: field_reads reads_wire assms)
  then show ?thesis by (subst reads_wire [symmetric]) (simp only: wire)
qed

section \<open>Described lists\<close>

lemma null_ahead:
  "serialize_fields (Suc n) fs = Inr (count, buf) \<Longrightarrow>
   count = 0 \<and> buf = [] \<and> serialize_fields n fs = Inr (0, []) \<or>
   (\<exists>count' buf'. count = Suc count' \<and> buf = code_byte CNull # buf' \<and> serialize_fields n fs = Inr (count', buf'))"
proof (induction fs arbitrary: n)
  case (Cons f fs)
  show ?case
  proof (cases "f = FNone")
    case True
    then show ?thesis using Cons.prems Cons.IH [of "Suc n"] by simp
  next
    case False
    then show ?thesis using Cons.prems by (auto split: sum.splits prod.splits)
  qed
qed simp

text \<open>The access is in front of the given fields, behind which the input goes on.\<close>

definition in_front_of :: "cfield list \<Rightarrow> bytes \<Rightarrow> access \<Rightarrow> bool" where
  "in_front_of fs rest a \<longleftrightarrow> (\<exists>count buf. serialize_fields 0 fs = Inr (count, buf) \<and> da_bytes a = buf @ rest \<and>
     unat (da_field_count a) = unat (da_counter a) + count \<and> da_counter a \<noteq> 0 \<and>
     list_all (\<lambda>f. encodable (wire_value f)) fs)"

lemma in_front_of_Nil: "in_front_of [] rest a \<Longrightarrow> da_bytes a = rest"
  by (simp add: in_front_of_def)

lemma counter_step:
  assumes "unat (b :: u32) = unat (a :: u32) + Suc n"
  shows "unat (a + 1) = unat a + 1" and "a + 1 \<noteq> 0"
proof -
  have "unat a + unat (1 :: u32) < 2 ^ LENGTH(32)" using assms unat_lt_exp [of b] by simp
  then show "unat (a + 1) = unat a + 1" using unat_add_lem [of a 1] by simp
  then show "a + 1 \<noteq> 0" by (metis add_is_0 unat_eq_0 zero_neq_one)
qed

lemma next_element_absent:
  assumes "in_front_of (FNone # fs) rest a"
  obtains a' where "in_front_of fs rest a'"
    and "next_element (read_option r) a = Inr (None, a') \<or> next_element (read_option r) a = Inr (Some None, a')"
proof -
  from assms obtain count buf where a: "serialize_fields 1 fs = Inr (count, buf)" "da_bytes a = buf @ rest"
      "unat (da_field_count a) = unat (da_counter a) + count" "da_counter a \<noteq> 0"
      "list_all (\<lambda>f. encodable (wire_value f)) fs"
    by (auto simp: in_front_of_def)
  from null_ahead [OF a(1) [unfolded One_nat_def]] show thesis
  proof (elim disjE exE conjE)
    assume "count = 0" "buf = []" "serialize_fields 0 fs = Inr (0, [])"
    with a that [of a] show thesis by (simp add: in_front_of_def next_element_def word_le_nat_alt)
  next
    fix count' buf'
    assume s: "count = Suc count'" "buf = code_byte CNull # buf'" "serialize_fields 0 fs = Inr (count', buf')"
    let ?a = "a\<lparr>da_counter := da_counter a + 1, da_bytes := buf' @ rest\<rparr>"
    have "in_front_of fs rest ?a"
      using a s counter_step [of "da_field_count a" "da_counter a" count'] by (simp add: in_front_of_def)
    moreover have "next_element (read_option r) a = Inr (Some None, ?a)"
      using a s by (simp add: next_element_def word_le_nat_alt read_option_def)
    ultimately show thesis using that by blast
  qed
qed

lemma next_element_present:
  assumes "in_front_of (f # fs) rest a" and "reads r f x" and "f \<noteq> FNone"
  obtains a' where "in_front_of fs rest a'" and "next_element r a = Inr (Some x, a')"
proof -
  from assms(1,3) obtain bs count buf where a: "serialize_field f = Inr bs" "serialize_fields 0 fs = Inr (count, buf)"
      "da_bytes a = bs @ buf @ rest" "unat (da_field_count a) = unat (da_counter a) + Suc count"
      "da_counter a \<noteq> 0" "encodable (wire_value f)" "list_all (\<lambda>f. encodable (wire_value f)) fs"
    by (auto simp: in_front_of_def split: sum.splits prod.splits)
  obtain c b where b: "bs = code_byte c # b"
    using serialize_field_value [OF a(1)] serialize_head by blast
  let ?a = "a\<lparr>da_counter := da_counter a + 1, da_bytes := buf @ rest\<rparr>"
  have "in_front_of fs rest ?a" using a counter_step [OF a(4)] by (simp add: in_front_of_def)
  moreover have "next_element r a = Inr (Some x, ?a)"
    using a b readsD [OF assms(2) a(6,1)] by (simp add: next_element_def word_le_nat_alt)
  ultimately show thesis using that by blast
qed

text \<open>What remains of the generated function returns a value in front of the rest of the input.\<close>

definition yields :: "'a \<Rightarrow> bytes \<Rightarrow> de_error + 'a \<times> access \<Rightarrow> bool" where
  "yields x rest y \<longleftrightarrow> (\<exists>a. y = Inr (x, a) \<and> in_front_of [] rest a)"

lemma all_read: "in_front_of [] rest a \<Longrightarrow> y = x \<Longrightarrow> yields x rest (Inr (y, a))"
  by (simp add: yields_def)

lemma required_field:
  assumes "in_front_of (f # fs) rest a" and "reads r f x" and "f \<noteq> FNone"
    and "\<And>a'. in_front_of fs rest a' \<Longrightarrow> yields y rest (k x a')"
  shows "yields y rest (required r a k)"
  using next_element_present [OF assms(1-3)] assms(4) by (metis required_def option.case prod.case sum.case(2))

lemma optional_field:
  assumes "in_front_of (opt g x # fs) rest a" and "\<And>z. x = Some z \<Longrightarrow> reads r (g z) z \<and> present (g z)"
    and "\<And>a'. in_front_of fs rest a' \<Longrightarrow> yields y rest (k x a')"
  shows "yields y rest (optional r a k)"
proof (cases x)
  case None
  then have "in_front_of (FNone # fs) rest a" using assms(1) by (simp add: opt_def)
  then obtain a' where "in_front_of fs rest a'"
      "next_element (read_option r) a = Inr (None, a') \<or> next_element (read_option r) a = Inr (Some None, a')"
    by (rule next_element_absent)
  then show ?thesis using assms(3) [of a'] None by (auto simp: optional_def)
next
  case (Some z)
  then have "reads (read_option r) (g z) (Some z)" "g z \<noteq> FNone" "in_front_of (g z # fs) rest a"
    using assms(1) assms(2) [OF Some] by (auto simp: opt_def intro: reads_option_Some)
  then obtain a' where "in_front_of fs rest a'" "next_element (read_option r) a = Inr (Some (Some z), a')"
    using next_element_present by metis
  then show ?thesis using assms(3) [of a'] Some by (simp add: optional_def)
qed

lemma defaulted_field:
  assumes "in_front_of (dflt d g x # fs) rest a" and "x \<noteq> d \<Longrightarrow> reads r (g x) x \<and> present (g x)"
    and "\<And>a'. in_front_of fs rest a' \<Longrightarrow> yields y rest (k x a')"
  shows "yields y rest (defaulted d r a k)"
proof -
  have "dflt d g x = opt g (if x = d then None else Some x)" by (simp add: dflt_def opt_def)
  with assms(1) have "in_front_of (opt g (if x = d then None else Some x) # fs) rest a" by simp
  then show ?thesis
    unfolding defaulted_def by (rule optional_field) (use assms(2,3) in \<open>auto split: if_splits\<close>)
qed

lemma multiple_field:
  assumes "in_front_of (opt g x # fs) rest a" and "\<And>z. x = Some z \<Longrightarrow> reads r (g z) z \<and> present (g z)"
    and "x \<noteq> Some []" and "\<And>a'. in_front_of fs rest a' \<Longrightarrow> yields y rest (k x a')"
  shows "yields y rest (multiple r a k)"
  unfolding multiple_def
  by (rule optional_field [OF assms(1,2)], assumption, simp only: assms(3) if_False, rule assms(4))

lemma wire_fields_encodable:
  "list_all encodable (wire_fields n fs) \<Longrightarrow> list_all (\<lambda>f. encodable (wire_value f)) fs"
proof (induction fs arbitrary: n)
  case (Cons f fs)
  then show ?case by (cases "f = FNone") auto
qed simp

lemma described_head: "read_descriptor (code_byte CDescribedType # serialize_u64 NoElement code @ rest) = Inr (DCode code, rest)"
  using descriptor_roundtrip(1) [of "DCode code" serializer_new _ rest] by (simp add: read_descriptor_def)

lemma reads_composite:
  assumes "\<And>rest a. in_front_of fs rest a \<Longrightarrow> yields x rest (visit a)"
  shows "reads (read_composite name code visit) (FComposite code fs) x"
  unfolding reads_def
proof (intro allI impI)
  fix bs rest
  assume enc: "encodable (wire_value (FComposite code fs))" and "serialize_field (FComposite code fs) = Inr bs"
  then obtain count buf lst where s: "serialize_fields 0 fs = Inr (count, buf)" "write_list NoElement count buf = Inr lst"
      "bs = code_byte CDescribedType # serialize_u64 NoElement code @ lst"
    by (auto split: sum.splits prod.splits)
  have len: "count = length (wire_fields 0 fs)" "serialize_elements None 0 (wire_fields 0 fs) = Inr buf"
    using s(1) by (auto simp: serialize_as_value(2) split: sum.splits)
  have count: "count \<le> 65536" "count \<le> length buf" "buf = [] \<Longrightarrow> count = 0"
    using enc serialize_elements_list [OF len(2)] by (auto simp: len MAX_ARRAY_COUNT_def)
  have header: "consume_list_header (lst @ rest) = Inr (word_of_nat count, buf @ rest)"
  proof (cases "buf = []")
    case True
    then show ?thesis using s(2) count(3) by (auto simp: write_list_def consume_list_header_def)
  next
    case False
    then have "write_compound CList8 CList32 NoElement count buf = Inr lst" using s(2) by (simp add: write_list_def)
    then show ?thesis
      using count read_header_append [of "length buf + 1" 1 count "buf @ rest"]
        read_header_append [of "length buf + 4" 4 count "buf @ rest"]
      by (cases rule: write_compound_cases) (simp_all add: consume_list_header_def)
  qed
  let ?a = "\<lparr>da_counter = 1, da_field_count = 1 + word_of_nat count, da_bytes = buf @ rest\<rparr>"
  have "unat (1 + word_of_nat count :: u32) = 1 + count"
    using count(1) by (simp add: unat_add_lem [THEN iffD1] unsigned_of_nat take_bit_nat_eq_self)
  then have "in_front_of fs rest ?a"
    using s(1) wire_fields_encodable [of 0 fs] enc by (auto simp: in_front_of_def)
  then obtain a' where "visit ?a = Inr (x, a')" "in_front_of [] rest a'"
    using assms by (auto simp: yields_def)
  moreover have "next_element read_descriptor \<lparr>da_counter = 0, da_field_count = 1, da_bytes = bs @ rest\<rparr> =
      Inr (Some (DCode code), ?a)"
    using header described_head [of code "lst @ rest"]
    by (simp add: next_element_def s(3) del: serialize_u64.simps)
  ultimately show "read_composite name code visit (bs @ rest) = Inr (x, rest)"
    by (simp add: read_composite_def in_front_of_Nil)
qed

lemma reads_enum:
  assumes "variant (DCode code) = Some r" and "reads r (FComposite code fs) x"
  shows "reads (read_enum variant) (FComposite code fs) x"
  unfolding reads_def
proof (intro allI impI)
  fix bs rest
  assume enc: "encodable (wire_value (FComposite code fs))" and s: "serialize_field (FComposite code fs) = Inr bs"
  then obtain lst where bs: "bs = code_byte CDescribedType # serialize_u64 NoElement code @ lst"
    by (auto split: sum.splits prod.splits)
  have "described_identifier (serialize_u64 NoElement code @ lst @ rest) = Inr (DCode code)"
    using scalar_parse [of "VUlong code" serializer_new "serialize_u64 NoElement code" "lst @ rest"]
      parse_scalar_code(5)
    by (fastforce simp: described_identifier_def simp del: serialize_u64.simps)
  then show "read_enum variant (bs @ rest) = Inr (x, rest)"
    using assms(1) readsD [OF assms(2) enc s]
    by (simp add: read_enum_def enum_header_def read_identifier_def bs del: serialize_u64.simps)
qed

section \<open>Protocol types\<close>

text \<open>
  Conditions under which a value is read back as itself: a custom error condition is not the name
  of one of the others, and an array of a field that may have several values is not empty.
\<close>

lemmas field_rules = optional_field defaulted_field multiple_field all_read

definition error_ok :: "amqp_error \<Rightarrow> bool" where
  "error_ok e \<longleftrightarrow> error_condition_of (error_condition_symbol (err_condition e)) = err_condition e"

lemma error_ok_known: "\<forall>s. err_condition e \<noteq> CustomError s \<Longrightarrow> error_ok e"
proof -
  have "error_condition_of (error_condition_symbol c) = c" if "\<forall>s. c \<noteq> CustomError s" for c
    using that
    by (cases c rule: error_condition_symbol.cases; (rename_tac k, case_tac k)?)
      (simp_all add: error_condition_of_def amqp_error_of_def connection_error_of_def session_error_of_def
        link_error_of_def transaction_error_of_def by_symbol_def)
  then show "\<forall>s. err_condition e \<noteq> CustomError s \<Longrightarrow> error_ok e" by (simp add: error_ok_def)
qed

lemma reads_error [field_reads]: "error_ok e \<Longrightarrow> reads read_error (error_composite e) e"
  unfolding read_error_def error_composite_def
  by (rule reads_composite)
    ((erule required_field, (rule field_reads)+, simp) | (erule field_rules; simp add: field_reads error_ok_def))+

lemma reads_modified [field_reads]: "reads read_modified (modified_composite m) m"
  unfolding read_modified_def modified_composite_def
  by (rule reads_composite) (erule field_rules; simp add: field_reads)+

lemma present_composites [simp]:
  "present (error_composite e)" "present (modified_composite m)" "present (rejected_composite r)"
  "present (outcome_composite out)" "present (delivery_state_composite st)" "present (source_composite src)"
  "present (target_composite tgt)" "present (target_archetype_composite arch)"
  by (simp_all add: error_composite_def modified_composite_def rejected_composite_def source_composite_def
      target_composite_def)
    (cases out; simp add: modified_composite_def rejected_composite_def;
     fail | cases st; simp add: modified_composite_def rejected_composite_def;
     fail | cases arch; simp add: target_composite_def)+

definition rejected_ok :: "amqp_error option \<Rightarrow> bool" where
  "rejected_ok e = pred_option error_ok e"

lemma reads_rejected [field_reads]: "rejected_ok e \<Longrightarrow> reads read_rejected (rejected_composite e) e"
  unfolding read_rejected_def rejected_composite_def
  by (rule reads_composite) (erule field_rules; simp add: field_reads rejected_ok_def)+

lemma reads_unit [field_reads]: "reads (read_unit name code x) (FComposite code []) x"
  unfolding read_unit_def by (rule reads_composite) (erule field_rules; simp)+

lemma reads_declared [field_reads]: "reads read_declared (FComposite 0x33 [f_binary txn]) txn"
  unfolding read_declared_def
  by (rule reads_composite) ((erule required_field, (rule field_reads)+, simp) | (erule field_rules; simp))+

fun outcome_ok :: "outcome \<Rightarrow> bool" where
  "outcome_ok (ORejected e) = rejected_ok e"
| "outcome_ok _ = True"

lemma reads_outcome [field_reads]: "outcome_ok out \<Longrightarrow> reads read_outcome (outcome_composite out) out"
  unfolding read_outcome_def
  by (cases out)
    (simp_all add: modified_composite_def rejected_composite_def,
     (rule reads_enum, simp add: outcome_variant_def is_variant_def,
      simp add: field_reads flip: modified_composite_def rejected_composite_def)+)

lemma reads_received [field_reads]: "reads read_received (FComposite 0x23 [f_uint n, f_ulong off]) (Received n off)"
  unfolding read_received_def
  by (rule reads_composite) ((erule required_field, (rule field_reads)+, simp) | (erule field_rules; simp))+

lemma reads_transactional_state [field_reads]:
  "pred_option outcome_ok out \<Longrightarrow>
   reads read_transactional_state (FComposite 0x34 [f_binary txn, opt outcome_composite out]) (TransactionalState txn out)"
  unfolding read_transactional_state_def
  by (rule reads_composite)
    ((erule required_field, (rule field_reads)+, simp) | (erule field_rules; simp add: field_reads))+

fun delivery_state_ok :: "delivery_state \<Rightarrow> bool" where
  "delivery_state_ok (Rejected e) = rejected_ok e"
| "delivery_state_ok (TransactionalState txn out) = pred_option outcome_ok out"
| "delivery_state_ok _ = True"

lemma reads_delivery_state [field_reads]:
  "delivery_state_ok st \<Longrightarrow> reads read_delivery_state (delivery_state_composite st) st"
  unfolding read_delivery_state_def
  by (cases st)
    (simp_all add: modified_composite_def rejected_composite_def,
     (rule reads_enum, simp add: delivery_state_variant_def is_variant_def,
      simp add: field_reads flip: modified_composite_def rejected_composite_def)+)

section \<open>Termini\<close>

lemma reads_durability [field_reads]: "reads read_durability (f_uint (durability_index d)) d"
  unfolding reads_def
proof (intro allI impI)
  fix bs rest
  assume "serialize_field (f_uint (durability_index d)) = Inr bs"
  then have "serialize_value NoElement serializer_new (VUint (durability_index d)) = Inr (serializer_new, bs)"
    by (auto simp: to_vec_def split: sum.splits)
  from scalar_parse [OF _ this, of rest] obtain c b where c: "bs = code_byte c # b"
      "parse_scalar c (b @ rest) = Some (Inr (VUint (durability_index d), rest))"
    by auto
  have "durability_variant (DCode (ucast (durability_index d))) = Some (\<lambda>bs. Inr (d, bs))"
    by (cases d) (simp_all add: durability_variant_def is_variant_def)
  then show "read_durability (bs @ rest) = Inr (d, rest)"
    using c parse_scalar_code(4) [OF c(2)]
    by (auto simp: read_durability_def read_enum_def enum_header_def read_identifier_def simp del: parse_scalar.simps)
qed

lemma reads_expiry_policy [field_reads]: "reads read_expiry_policy (f_symbol (expiry_policy_symbol p)) p"
  unfolding read_expiry_policy_def
  by (rule reads_try_reader, rule field_reads) (cases p; simp add: by_symbol_def)

lemma reads_distribution_mode [field_reads]:
  "reads read_distribution_mode (f_symbol (distribution_mode_symbol m)) m"
  unfolding read_distribution_mode_def
  by (rule reads_try_reader, rule field_reads) (cases m; simp add: by_symbol_def)

lemma reads_txn_capabilities [field_reads]:
  "reads (read_array parse_txn_capability) (f_symbols (map txn_capability_symbol cs)) cs"
proof -
  have "reads (read_array parse_txn_capability) (FValue (VArray (map (\<lambda>c. VSymbol (txn_capability_symbol c)) cs))) cs"
  proof (rule reads_array)
    fix x c rest
    assume "array_code (VSymbol (txn_capability_symbol x)) = Some c" "encodable (VSymbol (txn_capability_symbol x))"
    then show "parse_txn_capability (Some c) (element_body (VSymbol (txn_capability_symbol x)) @ rest) = Inr (x, rest)"
      using parse_symbol_element [of "txn_capability_symbol x" c rest]
      by (cases x) (simp_all add: parse_txn_capability_def try_reader_def by_symbol_def)
  qed
  then show ?thesis by (simp add: o_def)
qed

definition source_ok :: "source \<Rightarrow> bool" where
  "source_ok s \<longleftrightarrow> pred_option outcome_ok (src_default_outcome s) \<and> src_outcomes s \<noteq> Some [] \<and> src_capabilities s \<noteq> Some []"

lemma reads_source [field_reads]: "source_ok s \<Longrightarrow> reads read_source (source_composite s) s"
  unfolding read_source_def source_composite_def
  by (rule reads_composite) (erule field_rules; simp add: field_reads source_ok_def)+

lemma reads_target: "tgt_capabilities t \<noteq> Some [] \<Longrightarrow> reads read_target (target_composite t) t"
  unfolding read_target_def target_composite_def
  by (rule reads_composite) (erule field_rules; simp add: field_reads)+

lemma reads_coordinator:
  "caps \<noteq> Some [] \<Longrightarrow>
   reads read_coordinator (FComposite 0x30 [opt (\<lambda>cs. f_symbols (map txn_capability_symbol cs)) caps]) caps"
  unfolding read_coordinator_def
  by (rule reads_composite) (erule field_rules; simp add: field_reads del: map_map)+

fun target_ok :: "target_archetype \<Rightarrow> bool" where
  "target_ok (ATarget t) = (tgt_capabilities t \<noteq> Some [])"
| "target_ok (ACoordinator caps) = (caps \<noteq> Some [])"

lemma reads_target_archetype [field_reads]:
  "target_ok t \<Longrightarrow> reads read_target_archetype (target_archetype_composite t) t"
  unfolding read_target_archetype_def
proof (cases t)
  case (ATarget tgt)
  assume "target_ok t"
  then show "reads (read_enum target_variant) (target_archetype_composite t) t"
    using reads_map_reader [OF reads_target [of tgt], of ATarget] ATarget
    by (auto simp: target_composite_def target_variant_def is_variant_def intro!: reads_enum)
next
  case (ACoordinator caps)
  assume "target_ok t"
  then show "reads (read_enum target_variant) (target_archetype_composite t) t"
    using reads_map_reader [OF reads_coordinator [of caps], of ACoordinator] ACoordinator
    by (auto simp: target_variant_def is_variant_def intro!: reads_enum)
qed

end
