(* ===== verification/Frame_Roundtrip.thy ===== *)
theory Frame_Roundtrip
  imports Typed_Roundtrip Frame_Codec
begin

text \<open>
  Frames on the wire: what the frame encoder writes for a frame is decoded to the same frame.
\<close>

section \<open>Performatives\<close>

definition open_ok :: "open_perf \<Rightarrow> bool" where
  "open_ok p \<longleftrightarrow> op_outgoing_locales p \<noteq> Some [] \<and> op_incoming_locales p \<noteq> Some [] \<and>
     op_offered_capabilities p \<noteq> Some [] \<and> op_desired_capabilities p \<noteq> Some []"

lemma reads_open: "open_ok p \<Longrightarrow> reads read_open (open_composite p) p"
  unfolding read_open_def open_composite_def
  by (rule reads_composite)
    ((erule required_field, (rule field_reads)+, simp) | (erule field_rules; simp add: field_reads open_ok_def))+

definition begin_ok :: "begin_perf \<Rightarrow> bool" where
  "begin_ok p \<longleftrightarrow> be_offered_capabilities p \<noteq> Some [] \<and> be_desired_capabilities p \<noteq> Some []"

lemma reads_begin: "begin_ok p \<Longrightarrow> reads read_begin (begin_composite p) p"
  unfolding read_begin_def begin_composite_def
  by (rule reads_composite)
    ((erule required_field, (rule field_reads)+, simp) | (erule field_rules; simp add: field_reads begin_ok_def))+

lemma reads_role [field_reads]: "reads read_role (f_bool (role_bool r)) r"
  unfolding read_role_def by (cases r) (auto intro: reads_map_reader' field_reads)

lemma reads_settle_modes [field_reads]:
  "reads (try_reader snd_settle_mode_of read_u8) (FValue (VUbyte (snd_settle_mode_u8 s))) s"
  "reads (try_reader rcv_settle_mode_of read_u8) (FValue (VUbyte (rcv_settle_mode_u8 r))) r"
  by (rule reads_try_reader, rule field_reads, cases s; simp add: snd_settle_mode_of_def)
    (rule reads_try_reader, rule field_reads, cases r; simp add: rcv_settle_mode_of_def)

definition attach_ok :: "attach \<Rightarrow> bool" where
  "attach_ok p \<longleftrightarrow> pred_option source_ok (at_source p) \<and> pred_option target_ok (at_target p) \<and>
     pred_option (list_all (\<lambda>kv. pred_option delivery_state_ok (snd kv))) (at_unsettled p) \<and>
     at_offered_capabilities p \<noteq> Some [] \<and> at_desired_capabilities p \<noteq> Some []"

lemma reads_unsettled [field_reads]:
  "list_all (\<lambda>kv. pred_option delivery_state_ok (snd kv)) m \<Longrightarrow>
   reads (read_map read_binary (read_option read_delivery_state))
     (FTagMap (map (\<lambda>(tag, st). (tag, opt delivery_state_composite st)) m)) m"
  by (rule reads_tag_map, rule reads_option) (auto simp: list_all_iff field_reads)

lemma reads_attach: "attach_ok p \<Longrightarrow> reads read_attach (attach_composite p) p"
  unfolding read_attach_def attach_composite_def
  by (rule reads_composite)
    ((erule required_field, (rule field_reads)+, simp)
      | (erule field_rules; simp add: field_reads attach_ok_def))+

lemma reads_flow: "reads read_flow (flow_composite p) p"
  unfolding read_flow_def flow_composite_def
  by (rule reads_composite)
    ((erule required_field, (rule field_reads)+, simp) | (erule field_rules; simp add: field_reads))+

lemma reads_transfer: "pred_option delivery_state_ok (tr_state p) \<Longrightarrow> reads read_transfer (transfer_composite p) p"
  unfolding read_transfer_def transfer_composite_def
  by (rule reads_composite)
    ((erule required_field, (rule field_reads)+, simp) | (erule field_rules; simp add: field_reads))+

lemma reads_disposition:
  "pred_option delivery_state_ok (di_state p) \<Longrightarrow> reads read_disposition (disposition_composite p) p"
  unfolding read_disposition_def disposition_composite_def
  by (rule reads_composite)
    ((erule required_field, (rule field_reads)+, simp) | (erule field_rules; simp add: field_reads))+

lemma reads_detach: "rejected_ok (de_error p) \<Longrightarrow> reads read_detach (detach_composite p) p"
  unfolding read_detach_def detach_composite_def
  by (rule reads_composite)
    ((erule required_field, (rule field_reads)+, simp) | (erule field_rules; simp add: field_reads rejected_ok_def))+

lemma reads_end: "rejected_ok (en_error p) \<Longrightarrow> reads read_end (end_composite p) p"
  unfolding read_end_def end_composite_def
  by (rule reads_composite) (erule field_rules; simp add: field_reads rejected_ok_def)+

lemma reads_close: "rejected_ok (cl_error p) \<Longrightarrow> reads read_close (close_composite p) p"
  unfolding read_close_def close_composite_def
  by (rule reads_composite) (erule field_rules; simp add: field_reads rejected_ok_def)+

section \<open>Frames\<close>

text \<open>The performative of a frame, and the conditions under which it is read back.\<close>

fun body_composite :: "frame_body \<Rightarrow> cfield" where
  "body_composite (FOpen p) = open_composite p"
| "body_composite (FBegin p) = begin_composite p"
| "body_composite (FAttach p) = attach_composite p"
| "body_composite (FFlow p) = flow_composite p"
| "body_composite (FTransfer p payload) = transfer_composite p"
| "body_composite (FDisposition p) = disposition_composite p"
| "body_composite (FDetach p) = detach_composite p"
| "body_composite (FEnd p) = end_composite p"
| "body_composite (FClose p) = close_composite p"
| "body_composite FEmpty = FNone"

fun body_ok :: "frame_body \<Rightarrow> bool" where
  "body_ok (FOpen p) = open_ok p"
| "body_ok (FBegin p) = begin_ok p"
| "body_ok (FAttach p) = attach_ok p"
| "body_ok (FFlow p) = True"
| "body_ok (FTransfer p payload) = pred_option delivery_state_ok (tr_state p)"
| "body_ok (FDisposition p) = pred_option delivery_state_ok (di_state p)"
| "body_ok (FDetach p) = rejected_ok (de_error p)"
| "body_ok (FEnd p) = rejected_ok (en_error p)"
| "body_ok (FClose p) = rejected_ok (cl_error p)"
| "body_ok FEmpty = True"

definition without_payload :: "frame_body \<Rightarrow> frame_body" where
  "without_payload b = (case b of FTransfer t _ \<Rightarrow> FTransfer t [] | _ \<Rightarrow> b)"

lemma reads_variant:
  assumes "\<exists>fs. f = FComposite code fs" and "reads r f x" and "performative_variant (DCode code) = Some (map_reader g r)"
  shows "reads (read_enum performative_variant) f (g x)"
  using assms(1) reads_enum [where variant = performative_variant, OF assms(3)] reads_map_reader [OF assms(2), of g] by blast

lemma composite_codes:
  "\<exists>fs. open_composite op = FComposite 0x10 fs" "\<exists>fs. begin_composite be = FComposite 0x11 fs"
  "\<exists>fs. attach_composite at = FComposite 0x12 fs" "\<exists>fs. flow_composite fl = FComposite 0x13 fs"
  "\<exists>fs. transfer_composite tr = FComposite 0x14 fs" "\<exists>fs. disposition_composite di = FComposite 0x15 fs"
  "\<exists>fs. detach_composite de = FComposite 0x16 fs" "\<exists>fs. end_composite en = FComposite 0x17 fs"
  "\<exists>fs. close_composite cl = FComposite 0x18 fs"
  by (simp_all add: open_composite_def begin_composite_def attach_composite_def flow_composite_def
      transfer_composite_def disposition_composite_def detach_composite_def end_composite_def close_composite_def)

lemma performative_codes:
  "performative_variant (DCode 0x10) = Some (map_reader FOpen read_open)"
  "performative_variant (DCode 0x11) = Some (map_reader FBegin read_begin)"
  "performative_variant (DCode 0x12) = Some (map_reader FAttach read_attach)"
  "performative_variant (DCode 0x13) = Some (map_reader FFlow read_flow)"
  "performative_variant (DCode 0x14) = Some (map_reader (\<lambda>t. FTransfer t []) read_transfer)"
  "performative_variant (DCode 0x15) = Some (map_reader FDisposition read_disposition)"
  "performative_variant (DCode 0x16) = Some (map_reader FDetach read_detach)"
  "performative_variant (DCode 0x17) = Some (map_reader FEnd read_end)"
  "performative_variant (DCode 0x18) = Some (map_reader FClose read_close)"
  by (simp_all add: performative_variant_def is_variant_def)

lemmas reads_variants =
  reads_variant [OF composite_codes(1) reads_open performative_codes(1)]
  reads_variant [OF composite_codes(2) reads_begin performative_codes(2)]
  reads_variant [OF composite_codes(3) reads_attach performative_codes(3)]
  reads_variant [OF composite_codes(4) reads_flow performative_codes(4)]
  reads_variant [OF composite_codes(5) reads_transfer performative_codes(5)]
  reads_variant [OF composite_codes(6) reads_disposition performative_codes(6)]
  reads_variant [OF composite_codes(7) reads_detach performative_codes(7)]
  reads_variant [OF composite_codes(8) reads_end performative_codes(8)]
  reads_variant [OF composite_codes(9) reads_close performative_codes(9)]

lemma reads_performative:
  assumes "body_ok b" and "b \<noteq> FEmpty"
  shows "reads (read_enum performative_variant) (body_composite b) (without_payload b)"
  using assms by (cases b) (simp_all add: without_payload_def reads_variants)

lemma write_header_decodes:
  "decode_frame (write_header ch @ body) = Some (
     if body = [] then Inr (frame_new ch FEmpty)
     else (case read_enum performative_variant body of
             Inl e \<Rightarrow> Inl (DecAmqp e)
           | Inr (FTransfer t _, rest) \<Rightarrow> Inr (frame_new ch (FTransfer t rest))
           | Inr (b, rest) \<Rightarrow> Inr (frame_new ch b)))"
proof -
  obtain c1 c2 where c: "be_bytes 2 (unat ch) = [c1, c2]"
    using length_be_bytes [of 2 "unat ch"] by (auto simp: length_Suc_conv numeral_2_eq_2)
  then have "be_nat [c1, c2] = unat ch" using be_nat_be_bytes [of "unat ch" 2] by simp
  then show ?thesis by (simp add: decode_frame_def write_header_def FRAME_TYPE_AMQP_def c)
qed

text \<open>A transfer the encoder splits is longer than a frame.\<close>

lemma encode_middle_extends:
  assumes "encode_middle mb i ch buf n payload dst = Some y"
  shows "\<forall>rest dst'. y = Inr (rest, dst') \<longrightarrow> length dst \<le> length dst'"
proof (rule encode_middle.raw_induct [OF _ assms], goal_cases)
  case (1 encode mb i ch buf n payload dst y)
  show ?case
  proof (cases "mb < n")
    case True
    show ?thesis
    proof (cases "split_to i payload")
      case None
      then show ?thesis using 1(2) True by auto
    next
      case (Some pr)
      obtain partial rest where "split_to i payload = Some (partial, rest)" using Some by (cases pr) auto
      then show ?thesis
        using 1(2) True 1(1) [of mb i ch buf "length buf + length rest" rest "dst @ write_header ch @ buf @ partial" y]
        by auto
    qed
  qed (use 1(2) in auto)
qed

lemma start_send_single:
  assumes "start_send m fr = Some (Inr [bs])"
  shows "encode_frame m fr = Some (Inr bs)" and "length bs \<le> m"
proof -
  have out: "\<exists>cs. res = out @ cs \<and> concat cs = x \<and> cs \<noteq> [] \<and> (length cs = 1 \<longrightarrow> length x \<le> m)"
    if "send_chunks m x out = Some res" for x out res
  proof (rule send_chunks.raw_induct [OF _ that], goal_cases)
    case (1 send m x out res)
    show ?case
    proof (cases "m < length x")
      case True
      then obtain cs where "res = (out @ [take m x]) @ cs" "concat cs = drop m x" "cs \<noteq> []"
        using 1(2) 1(1) [of m "drop m x" "out @ [take m x]" res] by auto
      then show ?thesis by (intro exI [of _ "take m x # cs"]) auto
    qed (use 1(2) in auto)
  qed
  obtain x where x: "encode_frame m fr = Some (Inr x)" "send_chunks m x [] = Some [bs]"
    using assms by (auto simp: start_send_def split: option.splits sum.splits)
  with out [OF x(2)] show "encode_frame m fr = Some (Inr bs)" "length bs \<le> m" by auto
qed

lemma usize_sub_ge: "a \<le> usize_sub a b + b"
  by (simp add: usize_sub_def)

lemma encode_transfer_single:
  assumes "encode_transfer mb ch t payload = Some (Inr bs)" and "length bs \<le> mb + 4"
  obtains buf where "serialize_field (transfer_composite t) = Inr buf" and "bs = write_header ch @ buf @ payload"
proof (cases "\<exists>buf. serialize_field (transfer_composite t) = Inr buf \<and> length buf + length payload \<le> mb")
  case True
  with assms(1) that show thesis by (auto simp: encode_transfer_def)
next
  case False
  let ?first = "t\<lparr>tr_more := True\<rparr>"
  from False assms(1) obtain buf1 partial rest buf2 rest2 dst buf3 where s:
    "split_to (usize_sub mb (length buf1)) payload = Some (partial, rest)"
    "encode_middle mb (usize_sub mb (length buf2)) ch buf2 (length buf2 + length rest) rest
       (write_header ch @ buf1 @ partial) = Some (Inr (rest2, dst))"
    "bs = dst @ write_header ch @ buf3 @ rest2"
    by (auto simp: encode_transfer_def Let_def split: sum.splits if_splits option.splits prod.splits)
  have "length partial = usize_sub mb (length buf1)" using s(1) by (auto simp: split_to_def split: if_splits)
  then have "4 + mb \<le> length (write_header ch @ buf1 @ partial)" using usize_sub_ge [of mb "length buf1"] by simp
  moreover have "length (write_header ch @ buf1 @ partial) \<le> length dst"
    using encode_middle_extends [OF s(2)] by simp
  ultimately show thesis using s(3) assms(2) by simp
qed

lemma encode_frame_bytes:
  assumes "encode_frame m fr = Some (Inr bs)" and "length bs \<le> m" and "f_body fr \<noteq> FEmpty"
  obtains buf where "serialize_field (body_composite (f_body fr)) = Inr buf"
    and "bs = write_header (f_channel fr) @ buf @ (case f_body fr of FTransfer t payload \<Rightarrow> payload | _ \<Rightarrow> [])"
proof (cases "\<exists>t payload. f_body fr = FTransfer t payload")
  case True
  then obtain t payload where b: "f_body fr = FTransfer t payload" by blast
  have "length bs \<le> usize_sub m 4 + 4" using assms(2) usize_sub_ge [of m 4] by linarith
  then show thesis
    using that encode_transfer_single [of "usize_sub m 4" "f_channel fr" t payload bs] assms(1) b
    by (auto simp: encode_frame_def)
next
  case False
  then show thesis
    using that assms(1,3)
    by (cases "f_body fr") (auto simp: encode_frame_def encode_performative_def split: sum.splits)
qed

lemma decode_start_send:
  assumes "start_send m fr = Some (Inr [bs])" and "body_ok (f_body fr)"
    and "encodable (wire_value (body_composite (f_body fr)))"
  shows "decode_frame bs = Some (Inr fr)"
proof (cases "f_body fr = FEmpty")
  case True
  then have "bs = write_header (f_channel fr)"
    using start_send_single(1) [OF assms(1)] by (simp add: encode_frame_def)
  then show ?thesis using write_header_decodes [of "f_channel fr" "[]"] True by (simp add: frame_new_def)
next
  case False
  note sent = start_send_single [OF assms(1)]
  define payload where "payload = (case f_body fr of FTransfer t payload \<Rightarrow> payload | _ \<Rightarrow> [])"
  obtain buf where buf: "serialize_field (body_composite (f_body fr)) = Inr buf"
      "bs = write_header (f_channel fr) @ buf @ payload"
    using encode_frame_bytes [OF sent False] by (metis payload_def)
  have "read_enum performative_variant (buf @ payload) = Inr (without_payload (f_body fr), payload)"
    using readsD [OF reads_performative [OF assms(2) False] assms(3) buf(1)] .
  then have "decode_frame bs = Some (case without_payload (f_body fr) of
      FTransfer t _ \<Rightarrow> Inr (frame_new (f_channel fr) (FTransfer t payload)) | b \<Rightarrow> Inr (frame_new (f_channel fr) b))"
    using write_header_decodes [of "f_channel fr" "buf @ payload"] serialize_field_not_Nil [OF buf(1)]
    by (simp add: buf(2))
  then show ?thesis
    using False by (cases "f_body fr") (simp_all add: without_payload_def frame_new_def payload_def)
qed



end
