(* ===== verification/Session_Engine.thy ===== *)
theory Session_Engine
  imports Session Connection_Engine
begin

text \<open>
  The session engine: fe2o3-amqp/src/session/engine.rs, running the session endpoint.
  \<open>se_incoming\<close> is what the connection will still deliver, an empty list being a closed channel;
  \<open>se_link_frames\<close> is what the links have queued. A handler returns the new state with its result, or
  \<open>None\<close> where the code panics (\<open>unreachable!\<close>). One iteration of the event loop is
  \<open>session_event_step\<close>; the branch \<open>select!\<close> takes is an argument. The conversion of the inner error to
  the public one renames the constructors and is left out.
\<close>

section \<open>State\<close>

record session_engine =
  se_conn_control :: "connection_control chan"
  se_session :: session
  se_incoming :: "session_frame list"
  se_outgoing :: "session_frame chan"
  se_link_frames :: "link_frame list"
  se_links_closed :: bool

datatype session_control =
    ScEnd "amqp_error option"
  | ScAllocateLink string "unit link_relay" bool
  | ScAllocateIncomingLink string "unit link_relay" u32 bool
  | ScDeallocateLink u32
  | ScDisposition disposition
  | ScCloseConnectionWithError connection_error_cond "string option"
  | ScAllocateTransactionId bool
  | ScCommitTransaction bytes bool
  | ScRollbackTransaction bytes bool
  | ScAbortTransaction bytes

datatype begin_error = BegIllegalState | BegConnectionStopped connection_stop_reason
  | BegRemoteEnded | BegRemoteEndedWithError amqp_error

fun begin_error_of_state :: "session_state_error \<Rightarrow> begin_error" where
  "begin_error_of_state SseIllegalState = BegIllegalState"
| "begin_error_of_state (SseConnectionStopped r) = BegConnectionStopped r"
| "begin_error_of_state SseRemoteEnded = BegRemoteEnded"
| "begin_error_of_state (SseRemoteEndedWithError e) = BegRemoteEndedWithError e"

fun inner_error_of_state :: "session_state_error \<Rightarrow> session_inner_error" where
  "inner_error_of_state SseIllegalState = IllegalState"
| "inner_error_of_state (SseConnectionStopped r) = ConnectionStopped r"
| "inner_error_of_state SseRemoteEnded = RemoteEnded"
| "inner_error_of_state (SseRemoteEndedWithError e) = RemoteEndedWithError e"

type_synonym 'a handler_result = "(session_engine \<times> (session_inner_error + 'a)) option"

text \<open>The operator \<open>?\<close>, and a method of the endpoint called by the engine.\<close>

definition try_do :: "'a handler_result \<Rightarrow> (session_engine \<Rightarrow> 'a \<Rightarrow> 'b handler_result) \<Rightarrow> 'b handler_result" where
  "try_do m k =
     (case m of
        None \<Rightarrow> None
      | Some (e, r) \<Rightarrow> (case r of Inl x \<Rightarrow> Some (e, Inl x) | Inr a \<Rightarrow> k e a))"

lemma try_do_simps [simp]:
  "try_do None k = None" "try_do (Some (e, Inl x)) k = Some (e, Inl x)" "try_do (Some (e, Inr a)) k = k e a"
  by (simp_all add: try_do_def)

definition with_endpoint :: "session_engine \<Rightarrow> session \<times> (session_inner_error + 'a) \<Rightarrow> 'a handler_result" where
  "with_endpoint e sr = Some (e\<lparr>se_session := fst sr\<rparr>, snd sr)"

definition state_result :: "session_state_error + 'a \<Rightarrow> session_inner_error + 'a" where
  "state_result r = (case r of Inl x \<Rightarrow> Inl (inner_error_of_state x) | Inr a \<Rightarrow> Inr a)"

definition stopped_error :: "session_engine \<Rightarrow> session_inner_error" where
  "stopped_error e = ConnectionStopped (connection_stop_reason_or_closed (s_connection_stop_reason (se_session e)))"

section \<open>Sending\<close>

definition send_frame :: "session_engine \<Rightarrow> session_frame \<Rightarrow> unit handler_result" where
  "send_frame e fr =
     Some (case chan_send (se_outgoing e) fr of
             None \<Rightarrow> (e, Inl (stopped_error e))
           | Some w \<Rightarrow> (e\<lparr>se_outgoing := w\<rparr>, Inr ()))"

fun send_frames :: "session_engine \<Rightarrow> session_frame list \<Rightarrow> unit handler_result" where
  "send_frames e [] = Some (e, Inr ())"
| "send_frames e (fr # frs) = try_do (send_frame e fr) (\<lambda>e _. send_frames e frs)"

fun send_outgoing_item :: "session_engine \<Rightarrow> session_outgoing_item \<Rightarrow> unit handler_result" where
  "send_outgoing_item e (SingleFrame fr) = send_frame e fr"
| "send_outgoing_item e (MultipleFrames frs) = send_frames e frs"

definition send_item :: "session_engine \<Rightarrow> session_outgoing_item option \<Rightarrow> unit handler_result" where
  "send_item e item = (case item of None \<Rightarrow> Some (e, Inr ()) | Some i \<Rightarrow> send_outgoing_item e i)"

definition send_disposition :: "session_engine \<Rightarrow> disposition \<Rightarrow> unit handler_result" where
  "send_disposition e d =
     (case on_outgoing_disposition (se_session e) d of (s, fr) \<Rightarrow> send_frame (e\<lparr>se_session := s\<rparr>) fr)"

fun send_dispositions :: "session_engine \<Rightarrow> disposition list \<Rightarrow> unit handler_result" where
  "send_dispositions e [] = Some (e, Inr ())"
| "send_dispositions e (d # ds) = try_do (send_disposition e d) (\<lambda>e _. send_dispositions e ds)"

definition engine_send_end :: "session_engine \<Rightarrow> amqp_error option \<Rightarrow> unit handler_result" where
  "engine_send_end e err =
     (case send_end (se_session e) (se_outgoing e) err of
        (s, w, r) \<Rightarrow> Some (e\<lparr>se_session := s, se_outgoing := w\<rparr>, state_result r))"

definition session_running :: "session_engine \<Rightarrow> running" where
  "session_running e = (if s_local_state (se_session e) = Unmapped then Stop else Continue)"

definition on_outgoing_link_frames :: "session_engine \<Rightarrow> link_frame \<Rightarrow> running handler_result" where
  "on_outgoing_link_frames e fr =
     (let s = se_session e
      in if s_local_state s \<noteq> Mapped then Some (e, Inl IllegalState)
         else try_do
           (case fr of
              LfAttach a \<Rightarrow> Some (e, Inr (Some (SingleFrame (on_outgoing_attach s a))))
            | LfFlow fl \<Rightarrow> Some (e, Inr (Some (SingleFrame (on_outgoing_flow s fl))))
            | LfFirstTransfer lt \<Rightarrow> with_endpoint e
                (on_outgoing_transfer s (lt_input_handle lt) (lt_performative lt) (lt_payload lt) True)
            | LfTransferContinuation lt \<Rightarrow> with_endpoint e
                (on_outgoing_transfer s (lt_input_handle lt) (lt_performative lt) (lt_payload lt) False)
            | LfRemoteTransfer _ \<Rightarrow> None
            | LfDisposition d \<Rightarrow>
                (case on_outgoing_disposition s d of
                   (s1, f) \<Rightarrow> Some (e\<lparr>se_session := s1\<rparr>, Inr (Some (SingleFrame f))))
            | LfDetach d \<Rightarrow>
                (case on_outgoing_detach s d True of
                   (s1, f) \<Rightarrow> Some (e\<lparr>se_session := s1\<rparr>, Inr (map_option SingleFrame f)))
            | LfAcquisition _ \<Rightarrow> None)
           (\<lambda>e i. try_do (send_item e i) (\<lambda>e _. Some (e, Inr (session_running e)))))"

text \<open>\<open>outgoing_link_frames.close()\<close> and the loop that empties it: the argument is the queue.\<close>

fun drain_links :: "link_frame list \<Rightarrow> session_engine \<Rightarrow> unit handler_result" where
  "drain_links [] e = Some (e\<lparr>se_link_frames := []\<rparr>, Inr ())"
| "drain_links (fr # frs) e =
     try_do (on_outgoing_link_frames (e\<lparr>se_link_frames := frs\<rparr>) fr) (\<lambda>e _. drain_links frs e)"

definition close_and_drain_links :: "session_engine \<Rightarrow> unit handler_result" where
  "close_and_drain_links e = drain_links (se_link_frames e) (e\<lparr>se_links_closed := True\<rparr>)"

section \<open>Receiving\<close>

definition stop_session :: "session_engine \<Rightarrow> session_stop_reason \<Rightarrow> session_engine" where
  "stop_session e reason = e\<lparr>se_session := set_session_stop_reason (se_session e) reason\<rparr>"

definition remote_end_reason :: "session_engine \<Rightarrow> end_perf \<Rightarrow> session_stop_reason" where
  "remote_end_reason e en =
     (case en_error en of
        Some err \<Rightarrow> SsRemoteEndedWithError err
      | None \<Rightarrow> (case s_connection_stop_reason (se_session e) of
                  Some reason \<Rightarrow> SsConnectionStopped reason
                | None \<Rightarrow> SsRemoteEnded))"

definition engine_on_incoming_end :: "session_engine \<Rightarrow> end_perf \<Rightarrow> unit handler_result" where
  "engine_on_incoming_end e en =
     (case on_incoming_end (se_session e) en of
        (s, r) \<Rightarrow>
          (let e1 = e\<lparr>se_session := s\<rparr>; result = state_result r in
           if s_local_state s = EndReceived then
             try_do (close_and_drain_links (stop_session e1 (remote_end_reason e1 en))) (\<lambda>e2 _.
             try_do (engine_send_end e2 None) (\<lambda>e3 _. Some (e3, result)))
           else Some (e1, result)))"

definition engine_on_incoming_detach :: "session_engine \<Rightarrow> detach \<Rightarrow> unit handler_result" where
  "engine_on_incoming_detach e d =
     (case on_incoming_detach (se_session e) d of
        (s, _, None) \<Rightarrow> Some (e\<lparr>se_session := s\<rparr>, Inr ())
      | (s, _, Some reply) \<Rightarrow>
          (case on_outgoing_detach s reply False of
             (s1, None) \<Rightarrow> Some (e\<lparr>se_session := s1\<rparr>, Inr ())
           | (s1, Some fr) \<Rightarrow> send_frame (e\<lparr>se_session := s1\<rparr>) fr))"

definition session_incoming_body :: "session_engine \<Rightarrow> u16 \<Rightarrow> session_frame_body \<Rightarrow> unit handler_result" where
  "session_incoming_body e channel body =
     (case body of
        SfBegin b \<Rightarrow> (case on_incoming_begin (se_session e) channel b of
                        (s, r) \<Rightarrow> Some (e\<lparr>se_session := s\<rparr>, state_result r))
      | SfAttach a \<Rightarrow> with_endpoint e (on_incoming_attach (se_session e) a)
      | SfFlow fl \<Rightarrow> try_do (with_endpoint e (on_incoming_flow (se_session e) fl)) send_item
      | SfTransfer t p \<Rightarrow>
          try_do (with_endpoint e (on_incoming_transfer (se_session e) t p)) (\<lambda>e disposition.
          try_do (case disposition of None \<Rightarrow> Some (e, Inr ()) | Some d \<Rightarrow> send_disposition e d) (\<lambda>e _.
            case maybe_outgoing_session_flow (se_session e) of
              (s, item) \<Rightarrow> send_item (e\<lparr>se_session := s\<rparr>) item))
      | SfDisposition d \<Rightarrow>
          (case on_incoming_disposition (se_session e) d of
             (s, ds) \<Rightarrow> send_dispositions (e\<lparr>se_session := s\<rparr>) (case ds of None \<Rightarrow> [] | Some ds \<Rightarrow> ds))
      | SfDetach d \<Rightarrow> engine_on_incoming_detach e d
      | SfEnd en \<Rightarrow> engine_on_incoming_end e en)"

definition session_on_incoming :: "session_engine \<Rightarrow> session_frame \<Rightarrow> running handler_result" where
  "session_on_incoming e fr =
     try_do (session_incoming_body e (sf_channel fr) (sf_body fr)) (\<lambda>e _. Some (e, Inr (session_running e)))"

section \<open>Beginning and ending\<close>

definition begin_client_session :: "session_engine \<Rightarrow> session_engine \<times> (begin_error + unit)" where
  "begin_client_session e =
     (case send_begin (se_session e) (se_outgoing e) of
        (s, w, Inl x) \<Rightarrow> (e\<lparr>se_session := s, se_outgoing := w\<rparr>, Inl (begin_error_of_state x))
      | (s, w, Inr _) \<Rightarrow>
          (let e1 = e\<lparr>se_session := s, se_outgoing := w\<rparr> in
           case se_incoming e1 of
             [] \<Rightarrow> (e1, Inl (BegConnectionStopped (connection_stop_reason_or_closed (s_connection_stop_reason s))))
           | fr # rest \<Rightarrow>
               (let e2 = e1\<lparr>se_incoming := rest\<rparr> in
                case sf_body fr of
                  SfBegin b \<Rightarrow>
                    (case on_incoming_begin s (sf_channel fr) b of
                       (s2, Inl x) \<Rightarrow> (e2\<lparr>se_session := s2\<rparr>, Inl (begin_error_of_state x))
                     | (s2, Inr _) \<Rightarrow> (e2\<lparr>se_session := s2\<rparr>, Inr ()))
                | SfEnd en \<Rightarrow> (e2, Inl (case en_error en of Some err \<Rightarrow> BegRemoteEndedWithError err
                                                             | None \<Rightarrow> BegRemoteEnded))
                | _ \<Rightarrow> (e2, Inl BegIllegalState))))"

text \<open>The loop of \<open>wait_for_remote_end\<close>: the argument is what is still to come.\<close>

fun await_end :: "bool \<Rightarrow> session_frame list \<Rightarrow> session_engine \<Rightarrow> end_perf handler_result" where
  "await_end discard [] e = Some (e, Inl (stopped_error e))"
| "await_end discard (fr # frs) e =
     (let e1 = e\<lparr>se_incoming := frs\<rparr> in
      case sf_body fr of
        SfEnd en \<Rightarrow> Some (e1, Inr en)
      | _ \<Rightarrow> if discard then await_end discard frs e1
              else try_do (session_on_incoming e1 fr) (\<lambda>e2 _. await_end discard frs e2))"

definition wait_for_remote_end :: "bool \<Rightarrow> session_engine \<Rightarrow> end_perf handler_result" where
  "wait_for_remote_end discard e = await_end discard (se_incoming e) e"

text \<open>\<open>send_end(..).map_err(|_| ConnectionStopped(..))\<close>\<close>

definition send_end_or_stopped :: "session_engine \<Rightarrow> amqp_error option \<Rightarrow> unit handler_result" where
  "send_end_or_stopped e err =
     (case engine_send_end e err of
        Some (e1, Inl _) \<Rightarrow> Some (e1, Inl (stopped_error e1))
      | r \<Rightarrow> r)"

definition end_session :: "session_engine \<Rightarrow> amqp_error option \<Rightarrow> running handler_result" where
  "end_session e err =
     (case s_local_state (se_session e) of
        Unmapped \<Rightarrow> Some (e, Inr Stop)
      | EndSent \<Rightarrow> try_do (wait_for_remote_end False e) (\<lambda>e _. Some (e, Inr Stop))
      | EndReceived \<Rightarrow> try_do (send_end_or_stopped e err) (\<lambda>e _. Some (e, Inr Stop))
      | Discarding \<Rightarrow> try_do (wait_for_remote_end True e) (\<lambda>e _. Some (e, Inr Stop))
      | _ \<Rightarrow>
          try_do (send_end_or_stopped e err) (\<lambda>e1 _.
          try_do (wait_for_remote_end False e1) (\<lambda>e2 en.
          try_do (case on_incoming_end (se_session e2) en of
                    (s, r) \<Rightarrow> Some (e2\<lparr>se_session := s\<rparr>, state_result r)) (\<lambda>e3 _.
            Some (e3, Inr Stop)))))"

definition condition_error :: "error_condition \<Rightarrow> string option \<Rightarrow> amqp_error" where
  "condition_error cond description = \<lparr>err_condition = cond, err_description = description, err_info = None\<rparr>"

fun session_on_error :: "session_engine \<Rightarrow> session_inner_error \<Rightarrow> running handler_result" where
  "session_on_error e UnattachedHandle =
     end_session e (Some (condition_error (SessionError SeUnattachedHandle) None))"
| "session_on_error e RemoteAttachingLinkNameNotFound =
     end_session e (Some (condition_error (AmqpError InternalError) (Some ''Link name is not found'')))"
| "session_on_error e HandleInUse = end_session e (Some (condition_error (SessionError SeHandleInUse) None))"
| "session_on_error e IllegalState = end_session e (Some (condition_error (AmqpError AmqpIllegalState) None))"
| "session_on_error e (ConnectionStopped reason) = Some (e, Inl (ConnectionStopped reason))"
| "session_on_error e TransferFrameToSender =
     end_session e (Some (condition_error (AmqpError NotAllowed) (Some ''Found Transfer frame sent Sender link'')))"
| "session_on_error e RemoteEnded = end_session e None"
| "session_on_error e (RemoteEndedWithError _) = end_session e None"
| "session_on_error e UnknownTxnId =
     end_session e (Some (condition_error (TransactionError UnknownId) None))"

section \<open>Control\<close>

definition session_stop_reason_from_connection :: "session_engine \<Rightarrow> session_stop_reason" where
  "session_stop_reason_from_connection e =
     (case s_connection_stop_reason (se_session e) of
        Some reason \<Rightarrow> SsConnectionStopped reason
      | None \<Rightarrow> Ended)"

definition on_control_end :: "session_engine \<Rightarrow> amqp_error option \<Rightarrow> unit handler_result" where
  "on_control_end e error =
     (let reason = (case error of
                      Some err \<Rightarrow> EndedWithError err
                    | None \<Rightarrow> session_stop_reason_from_connection e)
      in try_do (close_and_drain_links (stop_session e reason)) (\<lambda>e1 _. engine_send_end e1 error))"

text \<open>
  The flag of a request that is answered says whether the requester still waits. \<open>key\<close> is the key
  of the vacant entry of the slab.
\<close>

definition answered :: "session_engine \<Rightarrow> bool \<Rightarrow> unit handler_result" where
  "answered e alive = Some (e, if alive then Inr () else Inl UnattachedHandle)"

fun session_control_body :: "nat \<Rightarrow> session_engine \<Rightarrow> session_control \<Rightarrow> unit handler_result" where
  "session_control_body key e (ScEnd error) = on_control_end e error"
| "session_control_body key e (ScAllocateLink name relay alive) =
     answered (e\<lparr>se_session := fst (allocate_link key (se_session e) name (Some relay))\<rparr>) alive"
| "session_control_body key e (ScAllocateIncomingLink name relay handle alive) =
     answered (e\<lparr>se_session := fst (allocate_incoming_link key (se_session e) name relay handle)\<rparr>) alive"
| "session_control_body key e (ScDeallocateLink handle) =
     Some (e\<lparr>se_session := fst (deallocate_link (se_session e) handle)\<rparr>, Inr ())"
| "session_control_body key e (ScDisposition d) = send_disposition e d"
| "session_control_body key e (ScCloseConnectionWithError cond description) =
     Some (case chan_send (se_conn_control e) (CcClose (Some (condition_error (ConnectionError cond) description))) of
             None \<Rightarrow> (e, Inl (stopped_error e))
           | Some c \<Rightarrow> (e\<lparr>se_conn_control := c\<rparr>, Inr ()))"
| "session_control_body key e (ScAllocateTransactionId alive) = answered e alive"
| "session_control_body key e (ScCommitTransaction txn alive) = answered e alive"
| "session_control_body key e (ScRollbackTransaction txn alive) = answered e alive"
| "session_control_body key e (ScAbortTransaction txn) = Some (e, Inr ())"

definition session_on_control :: "nat \<Rightarrow> session_engine \<Rightarrow> session_control \<Rightarrow> running handler_result" where
  "session_on_control key e control =
     try_do (session_control_body key e control) (\<lambda>e _. Some (e, Inr (session_running e)))"

section \<open>What the handlers leave alone\<close>

text \<open>The part of the endpoint that only beginning, ending and stopping change.\<close>

definition status :: "session \<Rightarrow> session_state \<times> session_stop_reason option \<times> connection_stop_reason option \<times> u16" where
  "status s = (s_local_state s, s_session_stop_reason s, s_connection_stop_reason s, s_outgoing_channel s)"

fun is_end :: "session_frame_body \<Rightarrow> bool" where
  "is_end (SfEnd _) = True"
| "is_end _ = False"

definition no_end :: "session_frame list \<Rightarrow> bool" where
  "no_end frs = list_all (\<lambda>fr. \<not> is_end (sf_body fr)) frs"

lemma no_end_simps [simp]:
  "no_end []" "no_end (fr # frs) \<longleftrightarrow> \<not> is_end (sf_body fr) \<and> no_end frs"
  "no_end (frs @ grs) \<longleftrightarrow> no_end frs \<and> no_end grs"
  by (auto simp: no_end_def)

fun item_frames :: "session_outgoing_item \<Rightarrow> session_frame list" where
  "item_frames (SingleFrame fr) = [fr]"
| "item_frames (MultipleFrames frs) = frs"

named_theorems status_simps

lemma transfer_inner_status:
  "on_outgoing_transfer_inner s h t p f = (s', r) \<Longrightarrow>
     status s' = status s \<and> (\<forall>fr. r = Inr fr \<longrightarrow> \<not> is_end (sf_body fr))"
  by (auto simp: on_outgoing_transfer_inner_def Let_def status_def session_frame_new_def
      split: option.splits if_splits)

lemma prepare_status:
  "prepare_buffered_transfers s out = (s', r) \<Longrightarrow>
     status s' = status s \<and> (\<forall>frs. r = Inr frs \<longrightarrow> no_end out \<longrightarrow> no_end frs)"
proof (induction s out arbitrary: s' r rule: prepare_buffered_transfers.induct)
  case (1 s out)
  have unbuffered: "status (s\<lparr>s_exhausted_buffer := b\<rparr>) = status s" for b by (simp add: status_def)
  show ?case
  proof (cases "0 < s_remote_incoming_window s \<and> s_exhausted_buffer s \<noteq> []")
    case True
    then obtain h t p f rest where b: "s_exhausted_buffer s = (h, t, p, f) # rest" by (cases "s_exhausted_buffer s") auto
    obtain s1 r1 where inner: "on_outgoing_transfer_inner (s\<lparr>s_exhausted_buffer := rest\<rparr>) h t p f = (s1, r1)"
      by fastforce
    note one = transfer_inner_status [OF inner, unfolded unbuffered]
    show ?thesis
    proof (cases r1)
      case (Inr fr)
      then have "prepare_buffered_transfers s1 (out @ [fr]) = (s', r)"
        using 1(2) True b inner by (simp add: prepare_buffered_transfers.simps [of s])
      then show ?thesis using 1(1) [OF _ b refl refl refl inner [symmetric] Inr] one True Inr by auto
    qed (use 1(2) True b inner one in \<open>auto simp: prepare_buffered_transfers.simps [of s]\<close>)
  qed (use 1(2) in \<open>auto simp: prepare_buffered_transfers.simps [of s] split: list.splits if_splits\<close>)
qed

lemma buffered_status [simp]: "status (s\<lparr>s_exhausted_buffer := b\<rparr>) = status s"
  by (simp add: status_def)

lemma outgoing_transfer_status:
  "on_outgoing_transfer s h t p f = (s', r) \<Longrightarrow>
     status s' = status s \<and> (\<forall>i. r = Inr (Some i) \<longrightarrow> no_end (item_frames i))"
  by (auto simp: on_outgoing_transfer_def prepare_buffered_and_current_transfers_def
      split: if_splits prod.splits sum.splits dest!: prepare_status transfer_inner_status)

lemma incoming_flow_status:
  "on_incoming_flow s fl = (s', r) \<Longrightarrow>
     status s' = status s \<and> (\<forall>i. r = Inr (Some i) \<longrightarrow> no_end (item_frames i))"
proof -
  have windows: "status (update_windows s fl) = status s"
    by (simp add: update_windows_def status_def Let_def split: option.split)
  have links: "status (s1\<lparr>s_link_by_input_handle := l\<rparr>) = status s1" for s1 l by (simp add: status_def)
  have inner: "status s1 = status s" if "on_incoming_flow_inner s fl = (s1, r1)" for s1 r1
    using that windows by (auto simp: on_incoming_flow_inner_def Let_def links split: option.splits sum.splits)
  have flow: "\<not> is_end (sf_body (on_outgoing_flow s1 lf))" for s1 lf
    by (simp add: on_outgoing_flow_def session_frame_new_def)
  assume "on_incoming_flow s fl = (s', r)"
  then show ?thesis
    using flow inner
    by (auto simp: on_incoming_flow_def Let_def split: if_splits prod.splits sum.splits option.splits
        dest!: prepare_status)
qed

lemma disposition_status [simp]: "status (fst (on_incoming_disposition s d)) = status s"
proof -
  have "status (settle_one d s i) = status s" for s i
    by (simp add: settle_one_def status_def Let_def split: option.split prod.split)
  then have settled: "status (foldl (settle_one d) s is) = status s" for s "is"
    by (induction "is" arbitrary: s) simp_all
  have "status (fst (update_one d sd i)) = status (fst sd)" for sd i
    by (cases sd) (simp add: update_one_def status_def split: option.split prod.split)
  then have updated: "status (fst (foldl (update_one d) sd is)) = status (fst sd)" for sd "is"
    by (induction "is" arbitrary: sd) simp_all
  show ?thesis
    using settled updated [of "(s, [])"]
    by (simp add: on_incoming_disposition_def Let_def split: prod.split option.split)
      (metis fst_conv)
qed

lemma endpoint_status [simp]:
  "status (fst (on_incoming_attach s a)) = status s"
  "status (fst (on_incoming_transfer s t p)) = status s"
  "status (fst (on_incoming_detach s d)) = status s"
  "status (fst (deallocate_link s h)) = status s"
  "status (fst (allocate_link key s name relay)) = status s"
  "status (fst (on_outgoing_disposition s di)) = status s"
  "status (fst (maybe_outgoing_session_flow s)) = status s"
  by (simp_all add: status_def on_incoming_attach_def on_incoming_transfer_def on_incoming_detach_def
      deallocate_link_def allocate_link_def on_outgoing_disposition_def maybe_outgoing_session_flow_def Let_def
      split: option.split sum.split prod.split link_relay.split)

lemma outgoing_detach_status [simp]: "status (fst (on_outgoing_detach s d echo)) = status s"
proof -
  have "status (s1\<lparr>s_close_pending := c\<rparr>) = status s1" for s1 c by (simp add: status_def)
  then show ?thesis
    using endpoint_status(4) [of s "de_handle d"]
    by (auto simp: on_outgoing_detach_def Let_def simp del: endpoint_status split: prod.split)
qed

lemma allocate_incoming_status [simp]: "status (fst (allocate_incoming_link key s name relay h)) = status s"
proof -
  have "status (s1\<lparr>s_link_by_input_handle := l\<rparr>) = status s1" for s1 l by (simp add: status_def)
  then show ?thesis
    using endpoint_status(5) [of key s name None]
    by (auto simp: allocate_incoming_link_def simp del: endpoint_status split: prod.split sum.split)
qed

text \<open>
  A handler is quiet when it leaves the queues and the state of the session alone and sends no end.
\<close>

definition quiet :: "session_engine \<Rightarrow> session_engine \<Rightarrow> bool" where
  "quiet e e' \<longleftrightarrow> status (se_session e') = status (se_session e) \<and> se_incoming e' = se_incoming e \<and>
     se_link_frames e' = se_link_frames e \<and> se_links_closed e' = se_links_closed e \<and>
     rx_alive (se_outgoing e') = rx_alive (se_outgoing e) \<and>
     (\<exists>frs. sent (se_outgoing e') = sent (se_outgoing e) @ frs \<and> no_end frs)"

definition ensures :: "(session_engine \<Rightarrow> bool) \<Rightarrow> 'a handler_result \<Rightarrow> bool" where
  "ensures P m \<longleftrightarrow> (\<forall>e r. m = Some (e, r) \<longrightarrow> P e)"

lemma ensures_Some [simp]: "ensures P (Some (e, r)) \<longleftrightarrow> P e" and ensures_None [simp]: "ensures P None"
  by (simp_all add: ensures_def)

lemma ensures_with_endpoint [simp]: "ensures P (with_endpoint e sr) \<longleftrightarrow> P (e\<lparr>se_session := fst sr\<rparr>)"
  by (simp add: with_endpoint_def)

lemma ensures_mono: "ensures P m \<Longrightarrow> (\<And>e. P e \<Longrightarrow> Q e) \<Longrightarrow> ensures Q m"
  by (auto simp: ensures_def)

lemma ensures_try_do:
  assumes "ensures P m" and "\<And>e. P e \<Longrightarrow> Q e" and "\<And>e a. m = Some (e, Inr a) \<Longrightarrow> P e \<Longrightarrow> ensures Q (k e a)"
  shows "ensures Q (try_do m k)"
  using assms by (auto simp: ensures_def try_do_def split: option.splits prod.splits sum.splits)

text \<open>A relation between the states before and after that can be chained through the handlers.\<close>

locale handler_preorder =
  fixes R :: "session_engine \<Rightarrow> session_engine \<Rightarrow> bool"
  assumes refl: "R e e"
    and trans: "R e e1 \<Longrightarrow> R e1 e2 \<Longrightarrow> R e e2"
begin

lemma chain: "R e e1 \<Longrightarrow> ensures (R e1) m \<Longrightarrow> ensures (R e) m"
  by (auto simp: ensures_def intro: trans)

lemma try_do:
  assumes "ensures (R e) m" and "\<And>e1 a. m = Some (e1, Inr a) \<Longrightarrow> ensures (R e1) (k e1 a)"
  shows "ensures (R e) (try_do m k)"
  using assms(1) by (rule ensures_try_do) (auto intro: chain assms(2))

end

interpretation quiet: handler_preorder quiet
  by unfold_locales (auto simp: quiet_def)

lemmas quiet_refl [simp] = quiet.refl
lemmas quiet_trans = quiet.trans
lemmas quiet_try_do = quiet.try_do
lemmas ensures_quiet_trans = quiet.chain

lemma quiet_endpoint: "status s = status (se_session e) \<Longrightarrow> quiet e (e\<lparr>se_session := s\<rparr>)"
  by (simp add: quiet_def)

lemma send_frame_quiet: "\<not> is_end (sf_body fr) \<Longrightarrow> ensures (quiet e) (send_frame e fr)"
  by (auto simp: send_frame_def chan_send_def quiet_def)

lemma send_frames_quiet: "no_end frs \<Longrightarrow> ensures (quiet e) (send_frames e frs)"
  by (induction frs arbitrary: e) (auto intro: quiet_try_do send_frame_quiet)

lemma send_item_quiet: "(\<And>i. item = Some i \<Longrightarrow> no_end (item_frames i)) \<Longrightarrow> ensures (quiet e) (send_item e item)"
proof (cases item)
  case (Some i)
  assume "\<And>i. item = Some i \<Longrightarrow> no_end (item_frames i)"
  with Some show ?thesis by (cases i) (auto simp: send_item_def intro: send_frame_quiet send_frames_quiet)
qed (simp add: send_item_def)

lemma send_disposition_quiet: "ensures (quiet e) (send_disposition e d)"
proof -
  obtain s fr where o: "on_outgoing_disposition (se_session e) d = (s, fr)" by fastforce
  then have "status s = status (se_session e)" "\<not> is_end (sf_body fr)"
    using endpoint_status(6) [of "se_session e" d]
    by (simp_all add: on_outgoing_disposition_def Let_def session_frame_new_def)
      (auto simp: on_outgoing_disposition_def Let_def session_frame_new_def)
  then show ?thesis
    using ensures_quiet_trans [OF quiet_endpoint send_frame_quiet] by (simp add: send_disposition_def o)
qed

lemma send_dispositions_quiet: "ensures (quiet e) (send_dispositions e ds)"
  by (induction ds arbitrary: e) (auto intro: quiet_try_do send_disposition_quiet)

lemma on_outgoing_link_frames_quiet: "ensures (quiet e) (on_outgoing_link_frames e fr)"
proof (cases "s_local_state (se_session e) = Mapped")
  case True
  have send: "ensures (quiet e1) (try_do (send_item e1 i) (\<lambda>e _. Some (e, Inr (session_running e))))"
    if "\<And>j. i = Some j \<Longrightarrow> no_end (item_frames j)" for e1 i
    by (rule quiet_try_do [OF send_item_quiet [OF that]]) simp_all
  note transfer = outgoing_transfer_status [OF surjective_pairing]
  show ?thesis
  proof (cases fr)
    case (LfFirstTransfer lt)
    then show ?thesis
      using True transfer
      by (auto simp: on_outgoing_link_frames_def Let_def with_endpoint_def intro!: quiet_try_do send quiet_endpoint)
  next
    case (LfTransferContinuation lt)
    then show ?thesis
      using True transfer
      by (auto simp: on_outgoing_link_frames_def Let_def with_endpoint_def intro!: quiet_try_do send quiet_endpoint)
  next
    case (LfDisposition d)
    obtain s f where o: "on_outgoing_disposition (se_session e) d = (s, f)" by fastforce
    then have "status s = status (se_session e)" "\<not> is_end (sf_body f)"
      using endpoint_status(6) [of "se_session e" d]
      by (auto simp: on_outgoing_disposition_def Let_def session_frame_new_def)
    then show ?thesis
      using True LfDisposition o ensures_quiet_trans [OF quiet_endpoint send, of s e "Some (SingleFrame f)"]
      by (simp add: on_outgoing_link_frames_def Let_def)
  next
    case (LfDetach d)
    obtain s f where o: "on_outgoing_detach (se_session e) d True = (s, f)" by fastforce
    then have "status s = status (se_session e)" using outgoing_detach_status [of "se_session e" d True] by simp
    moreover have "no_end (item_frames i)" if "map_option SingleFrame f = Some i" for i
      using o that by (auto simp: on_outgoing_detach_def Let_def session_frame_new_def split: prod.splits if_splits)
    ultimately show ?thesis
      using True LfDetach o ensures_quiet_trans [OF quiet_endpoint send, of s e "map_option SingleFrame f"]
      by (simp add: on_outgoing_link_frames_def Let_def)
  qed (use True in \<open>auto simp: on_outgoing_link_frames_def Let_def on_outgoing_attach_def on_outgoing_flow_def
      session_frame_new_def intro!: send\<close>)
qed (simp add: on_outgoing_link_frames_def Let_def)

lemma drain_links_quiet:
  "drain_links frs e = Some (e', r) \<Longrightarrow>
     quiet (e\<lparr>se_link_frames := se_link_frames e'\<rparr>) e' \<and>
     (case r of Inl _ \<Rightarrow> length (se_link_frames e') < length frs | Inr _ \<Rightarrow> se_link_frames e' = [])"
proof (induction frs arbitrary: e)
  case (Cons fr frs)
  let ?e = "e\<lparr>se_link_frames := frs\<rparr>"
  obtain e1 r1 where one: "on_outgoing_link_frames ?e fr = Some (e1, r1)"
    using Cons.prems by (cases "on_outgoing_link_frames ?e fr") auto
  then have q: "quiet ?e e1" using on_outgoing_link_frames_quiet [of ?e fr] by simp
  show ?case
  proof (cases r1)
    case (Inl x)
    then have "e' = e1" "r = Inl x" using Cons.prems one by simp_all
    then show ?thesis using q by (simp add: quiet_def)
  next
    case (Inr x)
    then have IH: "quiet (e1\<lparr>se_link_frames := se_link_frames e'\<rparr>) e'"
      "case r of Inl _ \<Rightarrow> length (se_link_frames e') < length frs | Inr _ \<Rightarrow> se_link_frames e' = []"
      using Cons.IH [of e1] Cons.prems one by simp_all
    have "quiet (e\<lparr>se_link_frames := l\<rparr>) (e1\<lparr>se_link_frames := l\<rparr>)" for l using q by (simp add: quiet_def)
    then have "quiet (e\<lparr>se_link_frames := se_link_frames e'\<rparr>) e'" using IH(1) quiet_trans by blast
    then show ?thesis using IH(2) by (auto split: sum.splits)
  qed
qed auto

lemma body_quiet:
  assumes "\<not> is_end body" and "\<And>b. body \<noteq> SfBegin b"
  shows "ensures (quiet e) (session_incoming_body e channel body)"
proof (cases body)
  case (SfFlow fl)
  note flow = incoming_flow_status [OF surjective_pairing, of "se_session e" fl]
  show ?thesis
    using SfFlow flow
    by (auto simp: session_incoming_body_def with_endpoint_def intro!: quiet_try_do send_item_quiet quiet_endpoint)
next
  case (SfTransfer t p)
  have item: "i = SingleFrame (on_outgoing_session_flow s')"
    if "maybe_outgoing_session_flow s = (s', Some i)" for s s' i
    using that by (auto simp: maybe_outgoing_session_flow_def Let_def split: if_splits)
  have "no_end (item_frames i)" if "maybe_outgoing_session_flow s = (s', Some i)" for s s' i
    using item [OF that] by (simp add: on_outgoing_session_flow_def session_frame_new_def)
  then have flow: "ensures (quiet e1) (case maybe_outgoing_session_flow (se_session e1) of
      (s, item) \<Rightarrow> send_item (e1\<lparr>se_session := s\<rparr>) item)" for e1
    using endpoint_status(7) [of "se_session e1"]
    by (cases "maybe_outgoing_session_flow (se_session e1)")
      (auto intro!: ensures_quiet_trans [OF quiet_endpoint send_item_quiet])
  have "ensures (quiet e1) (case d of None \<Rightarrow> Some (e1, Inr ()) | Some d \<Rightarrow> send_disposition e1 d)" for e1 d
    by (cases d) (simp_all add: send_disposition_quiet)
  with SfTransfer flow show ?thesis
    by (auto simp: session_incoming_body_def intro!: quiet_try_do quiet_endpoint)
next
  case (SfDisposition d)
  then show ?thesis
    using disposition_status [of "se_session e" d]
    by (auto simp: session_incoming_body_def simp del: disposition_status split: prod.split
        intro!: ensures_quiet_trans [OF quiet_endpoint send_dispositions_quiet])
next
  case (SfDetach d)
  have detach_frame: "\<not> is_end (sf_body fr)" if "on_outgoing_detach s dt x = (s', Some fr)" for s dt x s' fr
    using that by (auto simp: on_outgoing_detach_def Let_def session_frame_new_def split: prod.splits if_splits)
  obtain s l reply where d: "on_incoming_detach (se_session e) d = (s, l, reply)" by (metis surj_pair)
  then have s: "status s = status (se_session e)" using endpoint_status(3) [of "se_session e" d] by simp
  have out: "status s' = status (se_session e)" if "on_outgoing_detach s dt x = (s', fr)" for dt x s' fr
    using outgoing_detach_status [of s dt x] that s by simp
  show ?thesis
    using SfDetach d s out detach_frame
    by (auto simp: session_incoming_body_def engine_on_incoming_detach_def split: option.split prod.split
        intro!: quiet_endpoint ensures_quiet_trans [OF quiet_endpoint send_frame_quiet])
qed (use assms in \<open>auto simp: session_incoming_body_def with_endpoint_def intro!: quiet_endpoint\<close>)

lemma control_quiet:
  assumes "\<And>err. control \<noteq> ScEnd err"
  shows "ensures (quiet e) (session_control_body key e control)"
  using assms
  by (cases control)
    (auto simp: answered_def chan_send_def send_disposition_quiet intro!: quiet_endpoint, simp add: quiet_def)

section \<open>Finishing\<close>

text \<open>What \<open>send_end\<close> does to the state, and how far ending has come.\<close>

lemma engine_send_end_state:
  "engine_send_end e err = Some (e', r) \<Longrightarrow> s_local_state (se_session e) \<in> {Mapped, EndReceived} \<Longrightarrow>
     s_local_state (se_session e') =
       (if s_local_state (se_session e) = EndReceived then Unmapped else if err = None then EndSent else Discarding)
     \<and> se_incoming e' = se_incoming e \<and> se_link_frames e' = se_link_frames e"
  by (auto simp: engine_send_end_def send_end_def Let_def split: option.splits)

definition ending_measure :: "session_engine \<Rightarrow> nat" where
  "ending_measure e = length (se_incoming e) + length (se_link_frames e) +
     (if s_local_state (se_session e) \<in> {Mapped, EndReceived} then 1 else 0)"

lemma status_state: "status s = status s' \<Longrightarrow> s_local_state s = s_local_state s'"
  by (simp add: status_def)

lemma stop_session_keeps [simp]:
  "s_local_state (se_session (stop_session e r)) = s_local_state (se_session e)"
  "se_incoming (stop_session e r) = se_incoming e" "se_link_frames (stop_session e r) = se_link_frames e"
  by (simp_all add: stop_session_def set_session_stop_reason_def split: option.split)

lemma on_control_end_measure:
  assumes "on_control_end e err = Some (e', r)" and "s_local_state (se_session e) \<in> {Mapped, EndReceived}"
  shows "ending_measure e' < ending_measure e"
proof -
  define e0 where "e0 = (stop_session e (case err of Some err \<Rightarrow> EndedWithError err
    | None \<Rightarrow> session_stop_reason_from_connection e))\<lparr>se_links_closed := True\<rparr>"
  have e0: "s_local_state (se_session e0) = s_local_state (se_session e)" "se_incoming e0 = se_incoming e"
      "se_link_frames e0 = se_link_frames e" by (simp_all add: e0_def)
  from assms(1) obtain e1 r1 where d: "drain_links (se_link_frames e) e0 = Some (e1, r1)"
      "(case r1 of Inl x \<Rightarrow> Some (e1, Inl x) | Inr _ \<Rightarrow> engine_send_end e1 err) = Some (e', r)"
    by (auto simp: on_control_end_def close_and_drain_links_def e0_def Let_def try_do_def
        split: option.splits prod.splits)
  note q = drain_links_quiet [OF d(1)]
  have state: "s_local_state (se_session e1) = s_local_state (se_session e)" "se_incoming e1 = se_incoming e"
    using q e0 by (auto simp: quiet_def dest: status_state)
  show ?thesis
  proof (cases r1)
    case (Inl x)
    then show ?thesis using d(2) q state by (auto simp: ending_measure_def)
  next
    case (Inr x)
    then have "engine_send_end e1 err = Some (e', r)" "se_link_frames e1 = []" using d(2) q by simp_all
    then show ?thesis
      using engine_send_end_state [of e1 err e' r] assms(2) state by (auto simp: ending_measure_def)
  qed
qed

text \<open>In the states that wait for the peer's end, a frame does not bring the session back.\<close>

lemma on_incoming_waiting:
  assumes "session_on_incoming e fr = Some (e', r)" and "s_local_state (se_session e) \<in> {EndSent, Discarding}"
  shows "s_local_state (se_session e') \<in> {EndSent, Discarding, Unmapped} \<and> se_incoming e' = se_incoming e \<and>
    se_link_frames e' = se_link_frames e"
proof -
  obtain r1 where body: "session_incoming_body e (sf_channel fr) (sf_body fr) = Some (e', r1)"
    using assms(1) by (auto simp: session_on_incoming_def try_do_def split: option.splits prod.splits sum.splits)
  show ?thesis
  proof (cases "is_end (sf_body fr) \<or> (\<exists>b. sf_body fr = SfBegin b)")
    case True
    then show ?thesis
      using body assms(2)
      by (cases "sf_body fr")
        (auto simp: session_incoming_body_def engine_on_incoming_end_def on_incoming_end_def on_incoming_begin_def
          Let_def split: session_state.splits)
  next
    case False
    then have "quiet e e'" using body_quiet [of "sf_body fr" e "sf_channel fr"] body by auto
    then show ?thesis using assms(2) by (auto simp: quiet_def dest: status_state)
  qed
qed

text \<open>
  The loop the engine enters when every control sender is gone. It always ends: each round takes a
  frame from a queue or moves on to a state in which the session waits for the peer.
\<close>

function finish_ending :: "session_engine \<Rightarrow> session_engine option" where
  "finish_ending e =
     (if s_local_state (se_session e) \<in> {Mapped, EndReceived} then
        (case on_control_end e None of None \<Rightarrow> None | Some (e1, _) \<Rightarrow> finish_ending e1)
      else if s_local_state (se_session e) \<in> {Discarding, EndSent} then
        (case se_incoming e of
           [] \<Rightarrow> Some e
         | fr # rest \<Rightarrow>
             (case session_on_incoming (e\<lparr>se_incoming := rest\<rparr>) fr of
                None \<Rightarrow> None
              | Some (e1, _) \<Rightarrow> finish_ending e1))
      else Some e)"
  by pat_completeness auto

termination
proof (relation "measure ending_measure", goal_cases)
  case (2 e p e1 r)
  then show ?case using on_control_end_measure [of e None e1 r] by auto
next
  case (3 e fr rest p e1 r)
  then show ?case
    using on_incoming_waiting [of "e\<lparr>se_incoming := rest\<rparr>" fr e1 r] by (auto simp: ending_measure_def)
qed simp

declare finish_ending.simps [simp del]

section \<open>Event loop\<close>

text \<open>
  The branches of \<open>select!\<close>, and what happens around the engine: a link queues a frame, and the
  connection stops, which publishes its reason and closes the outgoing channel.
\<close>

datatype session_event = SevIncoming | SevControl nat session_control | SevControlClosed | SevLinkFrame
  | SevQueue link_frame | SevConnectionStops connection_stop_reason

definition continue_or_stop_by_state :: "session_state \<Rightarrow> running" where
  "continue_or_stop_by_state st =
     (case st of
        BeginSent \<Rightarrow> Continue | BeginReceived \<Rightarrow> Continue | Mapped \<Rightarrow> Continue | EndSent \<Rightarrow> Continue
      | EndReceived \<Rightarrow> Continue | Unmapped \<Rightarrow> Stop | Discarding \<Rightarrow> Stop)"

definition session_select :: "session_engine \<Rightarrow> session_event \<Rightarrow> running handler_result" where
  "session_select e ev =
     (case ev of
        SevIncoming \<Rightarrow>
          (case se_incoming e of
             fr # rest \<Rightarrow> session_on_incoming (e\<lparr>se_incoming := rest\<rparr>) fr
           | [] \<Rightarrow> Some (e, case continue_or_stop_by_state (s_local_state (se_session e)) of
                              Continue \<Rightarrow> Inl (stopped_error e)
                            | Stop \<Rightarrow> Inr Stop))
      | SevControl key control \<Rightarrow> session_on_control key e control
      | SevControlClosed \<Rightarrow> map_option (\<lambda>e1. (e1, Inr Stop)) (finish_ending e)
      | SevLinkFrame \<Rightarrow>
          (case se_link_frames e of
             fr # rest \<Rightarrow> on_outgoing_link_frames (e\<lparr>se_link_frames := rest\<rparr>) fr
           | [] \<Rightarrow> Some (e, Inr Continue))
      | SevQueue fr \<Rightarrow>
          Some (if se_links_closed e then e else e\<lparr>se_link_frames := se_link_frames e @ [fr]\<rparr>, Inr Continue)
      | SevConnectionStops reason \<Rightarrow>
          Some (e\<lparr>se_session := (se_session e)\<lparr>s_connection_stop_reason :=
                     (case s_connection_stop_reason (se_session e) of None \<Rightarrow> Some reason | Some r \<Rightarrow> Some r)\<rparr>,
                  se_outgoing := (se_outgoing e)\<lparr>rx_alive := False\<rparr>,
                  se_conn_control := (se_conn_control e)\<lparr>rx_alive := False\<rparr>\<rparr>, Inr Continue))"

datatype session_loop = SlRunning session_engine | SlStopped session_engine "session_inner_error + unit" | SlPanicked

text \<open>What follows the loop: the reason is published, the session is released at the connection, and a
  stop of the connection is not reported as an error of the session.\<close>

definition session_shutdown :: "session_engine \<Rightarrow> session_inner_error + unit \<Rightarrow> session_loop" where
  "session_shutdown e outcome =
     (let reason = (case outcome of
                      Inl (ConnectionStopped r) \<Rightarrow> SsConnectionStopped r
                    | Inl (RemoteEndedWithError err) \<Rightarrow> SsRemoteEndedWithError err
                    | Inl RemoteEnded \<Rightarrow> SsRemoteEnded
                    | _ \<Rightarrow> Ended);
          e1 = stop_session e reason;
          e2 = (case chan_send (se_conn_control e1) (CcDeallocateSession (s_outgoing_channel (se_session e1))) of
                  None \<Rightarrow> e1
                | Some c \<Rightarrow> e1\<lparr>se_conn_control := c\<rparr>)
      in SlStopped e2 (case outcome of Inl (ConnectionStopped _) \<Rightarrow> Inr () | other \<Rightarrow> other))"

definition session_event_step :: "session_engine \<Rightarrow> session_event \<Rightarrow> session_loop" where
  "session_event_step e ev =
     (case session_select e ev of
        None \<Rightarrow> SlPanicked
      | Some (e1, Inr Continue) \<Rightarrow> SlRunning e1
      | Some (e1, Inr Stop) \<Rightarrow> session_shutdown e1 (Inr ())
      | Some (e1, Inl error) \<Rightarrow>
          (case session_on_error e1 error of
             None \<Rightarrow> SlPanicked
           | Some (e2, Inl error2) \<Rightarrow> session_shutdown e2 (Inl error2)
           | Some (e2, Inr Stop) \<Rightarrow> session_shutdown e2 (Inl error)
           | Some (e2, Inr Continue) \<Rightarrow> SlRunning e2))"

fun session_event_loop :: "session_engine \<Rightarrow> session_event list \<Rightarrow> session_loop" where
  "session_event_loop e [] = SlRunning e"
| "session_event_loop e (ev # evs) =
     (case session_event_step e ev of
        SlRunning e1 \<Rightarrow> session_event_loop e1 evs
      | stopped \<Rightarrow> stopped)"

end
