(* ===== verification/Session_Lifecycle.thy ===== *)
theory Session_Lifecycle
  imports Session_Engine Session_Links
begin

text \<open>
  The life of a session as its engine runs it: the end exchange in both directions, what the peer
  sees of it, and the operations of the endpoint the engine is made of.
\<close>

section \<open>One end\<close>

definition ends :: "session_engine \<Rightarrow> nat" where
  "ends e = length (filter (\<lambda>fr. is_end (sf_body fr)) (sent (se_outgoing e)))"

definition alive :: "session_engine \<Rightarrow> bool" where
  "alive e = rx_alive (se_outgoing e)"

definition state_of :: "session_engine \<Rightarrow> session_state" where
  "state_of e = s_local_state (se_session e)"

definition end_inv :: "session_engine \<Rightarrow> bool" where
  "end_inv e \<longleftrightarrow> (if state_of e \<in> {EndSent, Discarding, Unmapped} then ends e \<le> 1 \<and> (alive e \<longrightarrow> ends e = 1)
                  else ends e = 0)"

lemmas end_defs = end_inv_def ends_def alive_def state_of_def

lemma quiet_ends: "quiet e e' \<Longrightarrow> ends e' = ends e \<and> alive e' = alive e \<and> state_of e' = state_of e"
  by (auto simp: quiet_def end_defs no_end_def list_all_iff filter_empty_conv dest: status_state)

lemma quiet_end_inv: "quiet e e' \<Longrightarrow> end_inv e \<Longrightarrow> end_inv e'"
  using quiet_ends [of e e'] by (auto simp: end_inv_def split: if_splits)

lemma quiet_ensures: "ensures (quiet e) m \<Longrightarrow> end_inv e \<Longrightarrow> ensures (\<lambda>e'. end_inv e' \<and> state_of e' = state_of e) m"
  by (erule ensures_mono) (simp add: quiet_end_inv quiet_ends)

lemma end_inv_updates [simp]:
  "end_inv (e\<lparr>se_incoming := i\<rparr>) = end_inv e" "state_of (e\<lparr>se_incoming := i\<rparr>) = state_of e"
  "end_inv (e\<lparr>se_link_frames := l\<rparr>) = end_inv e" "state_of (e\<lparr>se_link_frames := l\<rparr>) = state_of e"
  "end_inv (e\<lparr>se_links_closed := c\<rparr>) = end_inv e" "state_of (e\<lparr>se_links_closed := c\<rparr>) = state_of e"
  "end_inv (stop_session e reason) = end_inv e" "state_of (stop_session e reason) = state_of e"
  by (simp_all add: end_defs) (simp_all add: stop_session_def)

lemma send_end_inv: "end_inv e \<Longrightarrow> ensures end_inv (engine_send_end e err)"
  by (cases "s_local_state (se_session e)")
    (auto simp: engine_send_end_def send_end_def end_defs chan_send_def session_frame_new_def Let_def)

lemma drain_inv:
  "end_inv e \<Longrightarrow> ensures (\<lambda>e'. end_inv e' \<and> state_of e' = state_of e) (close_and_drain_links e)"
  using drain_links_quiet [of "se_link_frames e" "e\<lparr>se_links_closed := True\<rparr>"]
  by (fastforce simp: ensures_def close_and_drain_links_def dest: quiet_ends quiet_end_inv)

lemma control_end_inv: "end_inv e \<Longrightarrow> ensures end_inv (on_control_end e err)"
  unfolding on_control_end_def Let_def
  by (rule ensures_try_do [OF drain_inv]) (auto intro: send_end_inv)

lemma incoming_end_inv:
  assumes "end_inv e"
  shows "ensures end_inv (engine_on_incoming_end e en)"
proof -
  obtain s r where o: "on_incoming_end (se_session e) en = (s, r)" by fastforce
  have "end_inv (e\<lparr>se_session := s\<rparr>)"
    using assms o by (auto simp: on_incoming_end_def end_defs split: if_splits)
  then show ?thesis
    by (auto simp: engine_on_incoming_end_def o Let_def intro!: ensures_try_do [OF drain_inv] ensures_try_do [OF send_end_inv])
qed

lemma incoming_begin_inv:
  assumes "end_inv e" and "state_of e \<noteq> Unmapped"
  shows "ensures (\<lambda>e'. end_inv e' \<and> state_of e' \<noteq> Unmapped) (session_incoming_body e ch (SfBegin b))"
  using assms
  by (cases "s_local_state (se_session e)")
    (auto simp: session_incoming_body_def on_incoming_begin_def end_defs)

lemma incoming_body_inv:
  assumes "end_inv e" and "state_of e \<noteq> Unmapped"
  shows "ensures end_inv (session_incoming_body e ch body)"
    and "\<not> is_end body \<Longrightarrow> ensures (\<lambda>e'. end_inv e' \<and> state_of e' \<noteq> Unmapped) (session_incoming_body e ch body)"
proof -
  show other: "ensures (\<lambda>e'. end_inv e' \<and> state_of e' \<noteq> Unmapped) (session_incoming_body e ch body)"
    if "\<not> is_end body"
  proof (cases "\<exists>b. body = SfBegin b")
    case False
    then have "ensures (quiet e) (session_incoming_body e ch body)" using that by (intro body_quiet) auto
    from quiet_ensures [OF this assms(1)] show ?thesis by (rule ensures_mono) (simp add: assms(2))
  qed (use incoming_begin_inv [OF assms] in auto)
  show "ensures end_inv (session_incoming_body e ch body)"
  proof (cases "is_end body")
    case True
    then show ?thesis
      using incoming_end_inv [OF assms(1)] by (cases body) (simp_all add: session_incoming_body_def)
  qed (auto intro: ensures_mono [OF other])
qed

lemma on_incoming_inv:
  assumes "end_inv e" and "state_of e \<noteq> Unmapped"
  shows "ensures end_inv (session_on_incoming e fr)"
    and "\<not> is_end (sf_body fr) \<Longrightarrow> ensures (\<lambda>e'. end_inv e' \<and> state_of e' \<noteq> Unmapped) (session_on_incoming e fr)"
  unfolding session_on_incoming_def
  by (rule ensures_try_do [OF incoming_body_inv(1) [OF assms]]; simp)
    (rule ensures_try_do [OF incoming_body_inv(2) [OF assms]]; simp)

lemma on_incoming_not_unmapped:
  assumes "session_on_incoming e fr = Some (e', r)" and "\<not> is_end (sf_body fr)"
  shows "s_local_state (se_session e) \<noteq> Unmapped \<Longrightarrow> s_local_state (se_session e') \<noteq> Unmapped"
proof -
  obtain r1 where body: "session_incoming_body e (sf_channel fr) (sf_body fr) = Some (e', r1)"
    using assms(1) by (auto simp: session_on_incoming_def try_do_def split: option.splits prod.splits sum.splits)
  show "s_local_state (se_session e) \<noteq> Unmapped \<Longrightarrow> s_local_state (se_session e') \<noteq> Unmapped"
  proof (cases "\<exists>b. sf_body fr = SfBegin b")
    case True
    then show "s_local_state (se_session e) \<noteq> Unmapped \<Longrightarrow> s_local_state (se_session e') \<noteq> Unmapped"
      using body by (auto simp: session_incoming_body_def on_incoming_begin_def split: session_state.splits)
  next
    case False
    then have "quiet e e'" using body_quiet [of "sf_body fr" e "sf_channel fr"] body assms(2) by auto
    then show "s_local_state (se_session e) \<noteq> Unmapped \<Longrightarrow> s_local_state (se_session e') \<noteq> Unmapped"
      by (auto simp: quiet_def dest: status_state)
  qed
qed

text \<open>Waiting for the peer's end.\<close>

definition ending :: "session_engine \<Rightarrow> bool" where
  "ending e \<longleftrightarrow> state_of e \<in> {EndSent, Discarding}"

lemma await_end_inv:
  "end_inv e \<Longrightarrow> state_of e \<noteq> Unmapped \<Longrightarrow> ensures end_inv (await_end discard frs e)"
proof (induction frs arbitrary: e)
  case (Cons fr frs)
  let ?e = "e\<lparr>se_incoming := frs\<rparr>"
  have rest: "ensures end_inv (await_end discard frs ?e)" using Cons by simp
  have handle: "ensures end_inv (try_do (session_on_incoming ?e fr) (\<lambda>e2 _. await_end discard frs e2))"
    if "\<not> is_end (sf_body fr)"
    by (rule ensures_try_do [OF on_incoming_inv(2)]) (use Cons that in auto)
  show ?case using Cons.prems rest handle by (cases discard; cases "sf_body fr") (simp_all add: Let_def)
qed simp

lemma await_end_ending: "ending e \<Longrightarrow> ensures ending (await_end discard frs e)"
proof (induction frs arbitrary: e)
  case (Cons fr frs)
  let ?e = "e\<lparr>se_incoming := frs\<rparr>"
  have e: "ending ?e" using Cons.prems by (simp add: ending_def)
  have stays: "ending e1" if "session_on_incoming ?e fr = Some (e1, r)" "\<not> is_end (sf_body fr)" for e1 r
    using on_incoming_waiting [OF that(1)] on_incoming_not_unmapped [OF that] Cons.prems
    by (auto simp: ending_def state_of_def)
  have handle: "ensures ending (try_do (session_on_incoming ?e fr) (\<lambda>e2 _. await_end discard frs e2))"
    if "\<not> is_end (sf_body fr)"
    by (rule ensures_try_do [of ending]) (use Cons that stays in \<open>auto simp: ensures_def\<close>)
  show ?case using e Cons.IH [OF e] handle by (cases discard; cases "sf_body fr") (simp_all add: Let_def)
qed simp

section \<open>The event loop\<close>

lemma send_end_or_stopped_state:
  assumes "send_end_or_stopped e err = Some (e', r)"
  shows "\<exists>r'. engine_send_end e err = Some (e', r')"
    and "r = Inr () \<Longrightarrow> ending e' \<or> state_of e' = Unmapped \<and> state_of e = EndReceived"
    and "r = Inl x \<Longrightarrow> \<exists>c. x = ConnectionStopped c"
  using assms
  by (auto simp: send_end_or_stopped_def engine_send_end_def state_result_def stopped_error_def send_end_def
      ending_def state_of_def Let_def split: option.splits prod.splits sum.splits session_state.splits if_splits)

text \<open>The result of a handler that ends the session, unless the connection stopped.\<close>

definition ended :: "'a handler_result \<Rightarrow> bool" where
  "ended m \<longleftrightarrow> (\<forall>e r. m = Some (e, r) \<longrightarrow>
     end_inv e \<and> ((\<exists>c. r = Inl (ConnectionStopped c)) \<or> ending e \<or> state_of e = Unmapped))"

lemma ended_try_do:
  assumes "ended m" and "\<And>e a. m = Some (e, Inr a) \<Longrightarrow> ended (k e a)"
  shows "ended (try_do m k)"
  using assms by (auto simp: ended_def try_do_def split: option.splits prod.splits sum.splits)

lemma send_end_or_stopped_ended:
  assumes "end_inv e"
  shows "ended (send_end_or_stopped e err)"
proof -
  have "end_inv e1" if "send_end_or_stopped e err = Some (e1, r)" for e1 r
    using send_end_or_stopped_state(1) [OF that] send_end_inv [OF assms, of err] by auto
  then show ?thesis
    using send_end_or_stopped_state(2,3) [of e err]
    by (auto simp: ended_def) (metis old.sum.exhaust old.unit.exhaust)
qed

lemma wait_ensures:
  "end_inv e \<Longrightarrow> ending e \<Longrightarrow> ensures (\<lambda>e'. end_inv e' \<and> ending e') (wait_for_remote_end b e)"
  using await_end_inv [of e b "se_incoming e"] await_end_ending [of e b "se_incoming e"]
  by (auto simp: wait_for_remote_end_def ensures_def ending_def)

lemma wait_ended: "end_inv e \<Longrightarrow> ending e \<Longrightarrow> ended (wait_for_remote_end b e)"
  using wait_ensures [of e b] by (auto simp: ensures_def ended_def)

lemma incoming_end_ended:
  assumes "end_inv e" and "ending e"
  shows "ended (case on_incoming_end (se_session e) en of (s, r) \<Rightarrow> Some (e\<lparr>se_session := s\<rparr>, state_result r))"
  using assms by (auto simp: on_incoming_end_def ended_def end_defs ending_def split: if_splits)

lemma stop_ended: "ended m \<Longrightarrow> ended (try_do m (\<lambda>e _. Some (e, Inr Stop)))"
  by (rule ended_try_do) (auto simp: ended_def)

lemma end_session_ended:
  assumes "end_inv e"
  shows "ended (end_session e err)"
proof -
  have sent: "end_inv e1 \<and> ending e1"
    if "send_end_or_stopped e err = Some (e1, Inr ())" "state_of e \<noteq> EndReceived" for e1
    using that send_end_or_stopped_state(2) [OF that(1)] send_end_or_stopped_ended [OF assms, of err]
    by (auto simp: ended_def)
  have "ended (try_do (send_end_or_stopped e err) (\<lambda>e1 _. try_do (wait_for_remote_end False e1) (\<lambda>e2 en.
      try_do (case on_incoming_end (se_session e2) en of (s, r) \<Rightarrow> Some (e2\<lparr>se_session := s\<rparr>, state_result r))
        (\<lambda>e3 _. Some (e3, Inr Stop)))))" if st: "state_of e \<noteq> EndReceived"
  proof (rule ended_try_do [OF send_end_or_stopped_ended [OF assms]])
    fix e1 and u :: unit assume "send_end_or_stopped e err = Some (e1, Inr u)"
    then have e1: "end_inv e1" "ending e1" using sent st by simp_all
    show "ended (try_do (wait_for_remote_end False e1) (\<lambda>e2 en.
        try_do (case on_incoming_end (se_session e2) en of (s, r) \<Rightarrow> Some (e2\<lparr>se_session := s\<rparr>, state_result r))
          (\<lambda>e3 _. Some (e3, Inr Stop))))"
      using wait_ensures [OF e1, of False]
      by (intro ended_try_do [OF wait_ended [OF e1]] stop_ended incoming_end_ended) simp_all
  qed
  then show ?thesis
    using assms wait_ended [of e] send_end_or_stopped_ended [OF assms, of err]
    by (cases "s_local_state (se_session e)")
      (auto simp: end_session_def ending_def state_of_def intro!: stop_ended, simp add: ended_def state_of_def)
qed

lemma end_session_stops: "end_session e err = Some (e', Inr run) \<Longrightarrow> run = Stop"
  by (cases "s_local_state (se_session e)")
    (auto simp: end_session_def try_do_def split: option.splits prod.splits sum.splits)

lemma on_error_ended: "end_inv e \<Longrightarrow> ended (session_on_error e err)"
  by (cases err) (auto simp: end_session_ended, simp add: ended_def)

lemma finish_ending_inv: "end_inv e \<Longrightarrow> finish_ending e = Some e' \<Longrightarrow> end_inv e'"
proof (induction e arbitrary: e' rule: finish_ending.induct)
  case (1 e)
  consider "s_local_state (se_session e) \<in> {Mapped, EndReceived}"
    | "s_local_state (se_session e) \<in> {Discarding, EndSent}" "se_incoming e \<noteq> []" | "finish_ending e = Some e"
    by (cases "s_local_state (se_session e)"; cases "se_incoming e") (auto simp: finish_ending.simps [of e])
  then show ?case
  proof cases
    case 1
    then show ?thesis
      using "1.IH"(1) "1.prems" control_end_inv [of e None]
      by (auto simp: finish_ending.simps [of e] split: option.splits)
  next
    case 2
    then show ?thesis
      using "1.IH"(2) "1.prems" on_incoming_inv(1) [of "e\<lparr>se_incoming := tl (se_incoming e)\<rparr>" "hd (se_incoming e)"]
      by (auto simp: finish_ending.simps [of e] neq_Nil_conv state_of_def split: option.splits)
  qed (use "1.prems" in simp)
qed

lemma running_not_unmapped: "Inr (session_running e) = Inr Continue \<Longrightarrow> state_of e \<noteq> Unmapped"
  by (simp add: session_running_def state_of_def split: if_splits)

lemma select_inv:
  assumes "end_inv e" and "state_of e \<noteq> Unmapped" and "session_select e ev = Some (e1, r)"
  shows "end_inv e1" and "r = Inr Continue \<Longrightarrow> state_of e1 \<noteq> Unmapped"
proof -
  have incoming: "end_inv e1 \<and> (r = Inr Continue \<longrightarrow> state_of e1 \<noteq> Unmapped)"
    if "session_on_incoming (e\<lparr>se_incoming := rest\<rparr>) fr = Some (e1, r)" for fr rest
    using that on_incoming_inv(1) [of "e\<lparr>se_incoming := rest\<rparr>" fr] assms(1,2)
    by (auto simp: session_on_incoming_def try_do_def session_running_def state_of_def
        split: option.splits prod.splits sum.splits if_splits)
  have control: "end_inv e1 \<and> (r = Inr Continue \<longrightarrow> state_of e1 \<noteq> Unmapped)"
    if ctl: "session_on_control key e c = Some (e1, r)" for key c
  proof -
    obtain e2 r1 where b: "session_control_body key e c = Some (e2, r1)"
      using ctl by (cases "session_control_body key e c") (auto simp: session_on_control_def)
    then have e2: "e2 = e1" "r = Inr Continue \<longrightarrow> state_of e1 \<noteq> Unmapped"
      using ctl by (cases r1; auto simp: session_on_control_def session_running_def state_of_def split: if_splits)+
    have "end_inv e1"
    proof (cases "\<exists>err. c = ScEnd err")
      case True
      then obtain err where "c = ScEnd err" by blast
      then show ?thesis using control_end_inv [OF assms(1), of err] b e2(1) by simp
    next
      case False
      then have "quiet e e1" using control_quiet [of c e key] b e2(1) by auto
      then show ?thesis using quiet_end_inv assms(1) by blast
    qed
    with e2(2) show ?thesis by blast
  qed
  have outgoing: "end_inv e1 \<and> (r = Inr Continue \<longrightarrow> state_of e1 \<noteq> Unmapped)"
    if "on_outgoing_link_frames (e\<lparr>se_link_frames := rest\<rparr>) fr = Some (e1, r)" for fr rest
    using that quiet_ensures [OF on_outgoing_link_frames_quiet, of "e\<lparr>se_link_frames := rest\<rparr>" fr] assms(1,2)
    by (auto simp: ensures_def)
  have "end_inv e1 \<and> (r = Inr Continue \<longrightarrow> state_of e1 \<noteq> Unmapped)"
  proof (cases ev)
    case SevIncoming
    then show ?thesis
      using assms incoming by (cases "se_incoming e") (auto simp: session_select_def split: running.splits)
  next
    case SevControlClosed
    then show ?thesis using assms(3) finish_ending_inv [OF assms(1)] by (auto simp: session_select_def)
  next
    case SevLinkFrame
    then show ?thesis using assms outgoing by (cases "se_link_frames e") (auto simp: session_select_def)
  next
    case (SevConnectionStops reason)
    then show ?thesis using assms by (auto simp: session_select_def end_defs split: if_splits)
  qed (use assms control in \<open>auto simp: session_select_def split: if_splits\<close>)
  then show "end_inv e1" "r = Inr Continue \<Longrightarrow> state_of e1 \<noteq> Unmapped" by simp_all
qed

lemma shutdown_ends [simp]:
  "session_shutdown e outcome = SlStopped e' r \<Longrightarrow> end_inv e' = end_inv e \<and> ends e' = ends e \<and> alive e' = alive e"
  by (auto simp: session_shutdown_def Let_def end_defs stop_session_def set_session_stop_reason_def
      split: option.splits)

definition stopped_well :: "session_engine \<Rightarrow> session_inner_error + unit \<Rightarrow> bool" where
  "stopped_well e outcome \<longleftrightarrow> ends e \<le> 1 \<and> (alive e \<and> outcome \<noteq> Inr () \<longrightarrow> ends e = 1)"

lemma end_inv_ends: "end_inv e \<Longrightarrow> ends e \<le> 1"
  by (auto simp: end_inv_def split: if_splits)

lemma shutdown_well:
  assumes "end_inv e"
    and "(\<exists>c. outcome = Inl (ConnectionStopped c)) \<or> outcome = Inr () \<or> ending e \<or> state_of e = Unmapped"
  shows "\<exists>e' r. session_shutdown e outcome = SlStopped e' r \<and> stopped_well e' r"
proof -
  obtain e' r where s: "session_shutdown e outcome = SlStopped e' r"
    by (simp add: session_shutdown_def Let_def)
  moreover have "r = (case outcome of Inl (ConnectionStopped _) \<Rightarrow> Inr () | other \<Rightarrow> other)"
    using s by (simp add: session_shutdown_def Let_def)
  ultimately show ?thesis
    using assms shutdown_ends [OF s] end_inv_ends [OF assms(1)]
    by (auto simp: stopped_well_def end_inv_def ending_def)
qed

lemma step_inv:
  assumes "end_inv e" and "state_of e \<noteq> Unmapped"
  shows "case session_event_step e ev of SlRunning e' \<Rightarrow> end_inv e' \<and> state_of e' \<noteq> Unmapped
    | SlStopped e' outcome \<Rightarrow> stopped_well e' outcome | SlPanicked \<Rightarrow> True"
proof (cases "session_select e ev")
  case (Some er)
  obtain e1 r where er: "session_select e ev = Some (e1, r)" using Some by (cases er) simp
  note inv = select_inv [OF assms er]
  show ?thesis
  proof (cases r)
    case (Inl err)
    show ?thesis
    proof (cases "session_on_error e1 err")
      case (Some x)
      then obtain e2 r2 where o: "session_on_error e1 err = Some (e2, r2)" by (cases x) simp
      then have "end_inv e2" "(\<exists>c. r2 = Inl (ConnectionStopped c)) \<or> ending e2 \<or> state_of e2 = Unmapped"
        using on_error_ended [OF inv(1), of err] by (auto simp: ended_def)
      moreover have "r2 \<noteq> Inr Continue" using o by (cases err) (auto dest: end_session_stops)
      ultimately show ?thesis
        using er Inl o shutdown_well [of e2 "Inl err"] shutdown_well [of e2 "case r2 of Inl x \<Rightarrow> Inl x | Inr _ \<Rightarrow> Inl err"]
        by (auto simp: session_event_step_def split: sum.splits running.splits)
    qed (use er Inl in \<open>simp add: session_event_step_def\<close>)
  next
    case (Inr run)
    then show ?thesis
      using er inv shutdown_well [of e1 "Inr ()"] by (cases run) (auto simp: session_event_step_def)
  qed
qed (simp add: session_event_step_def)

section \<open>Properties\<close>

lemmas end_exchange_defs = session_event_step_def session_select_def session_on_incoming_def
  session_incoming_body_def engine_on_incoming_end_def on_incoming_end_def close_and_drain_links_def
  stop_session_def set_session_stop_reason_def engine_send_end_def send_end_or_stopped_def send_end_def
  chan_send_def remote_end_reason_def state_result_def end_session_def session_shutdown_def Let_def

text \<open>
  C4: Whatever frames arrive, whatever links, the application and the connection do and in whatever
  order, a session sends its peer at most one end; and when its loop stops with an error while the
  connection still takes frames, it has sent exactly one.
\<close>

theorem session_sends_one_end:
  assumes "s_local_state (se_session e) = Mapped"
    and "list_all (\<lambda>fr. \<not> is_end (sf_body fr)) (sent (se_outgoing e))"
  shows "case session_event_loop e evs of
      SlRunning e' \<Rightarrow> length (filter (\<lambda>fr. is_end (sf_body fr)) (sent (se_outgoing e'))) \<le> 1
    | SlStopped e' outcome \<Rightarrow>
        length (filter (\<lambda>fr. is_end (sf_body fr)) (sent (se_outgoing e'))) \<le> 1 \<and>
        (rx_alive (se_outgoing e') \<and> outcome \<noteq> Inr () \<longrightarrow>
         length (filter (\<lambda>fr. is_end (sf_body fr)) (sent (se_outgoing e'))) = 1)
    | SlPanicked \<Rightarrow> True"
proof -
  have "end_inv e" "state_of e \<noteq> Unmapped" using assms by (auto simp: end_defs list_all_iff filter_empty_conv)
  then have "case session_event_loop e evs of SlRunning e' \<Rightarrow> end_inv e' \<and> state_of e' \<noteq> Unmapped
    | SlStopped e' outcome \<Rightarrow> stopped_well e' outcome | SlPanicked \<Rightarrow> True"
  proof (induction evs arbitrary: e)
    case (Cons ev evs)
    then show ?case using step_inv [OF Cons.prems, of ev] by (cases "session_event_step e ev") simp_all
  qed simp
  then show ?thesis
    by (auto simp: stopped_well_def ends_def alive_def split: session_loop.splits dest: end_inv_ends)
qed

definition example_engine :: session_engine where
  "example_engine = \<lparr>se_conn_control = \<lparr>rx_alive = True, sent = []\<rparr>, se_session = example_session,
     se_incoming = [session_frame_new 0 (SfEnd \<lparr>en_error = None\<rparr>)],
     se_outgoing = \<lparr>rx_alive = True, sent = []\<rparr>, se_link_frames = [], se_links_closed = False\<rparr>"

theorem session_sends_one_end_witness:
  "\<exists>e'. session_event_loop example_engine [SevIncoming] = SlStopped e' (Inl RemoteEnded) \<and>
     length (filter (\<lambda>fr. is_end (sf_body fr)) (sent (se_outgoing e'))) = 1"
proof -
  have "s_local_state (se_session example_engine) = Mapped"
    "list_all (\<lambda>fr. \<not> is_end (sf_body fr)) (sent (se_outgoing example_engine))"
    by (simp_all add: example_engine_def example_session_def)
  moreover have "\<exists>e'. session_event_loop example_engine [SevIncoming] = SlStopped e' (Inl RemoteEnded) \<and>
      rx_alive (se_outgoing e')"
    by (simp add: example_engine_def example_session_def session_frame_new_def end_exchange_defs)
  ultimately show ?thesis using session_sends_one_end [of example_engine "[SevIncoming]"] by auto
qed



text \<open>
  When the peer ends a session while any frame of a link is still queued, the frame is not sent:
  the session answers with an end that carries the error illegal-state, and the application gets
  illegal-state instead of the peer's error.
\<close>

lemma queued_frame_spoils_remote_end:
  assumes "s_local_state (se_session e) = Mapped" and "rx_alive (se_outgoing e)"
    and "se_link_frames e = lf # lfs" and "se_incoming e = fr # rest" and "sf_body fr = SfEnd en"
  shows "\<exists>e'. session_event_step e SevIncoming = SlStopped e' (Inl IllegalState) \<and>
    sent (se_outgoing e') = sent (se_outgoing e) @
      [session_frame_new (s_outgoing_channel (se_session e))
        (SfEnd \<lparr>en_error = Some (condition_error (AmqpError AmqpIllegalState) None)\<rparr>)]"
  using assms
  by (simp add: end_exchange_defs on_outgoing_link_frames_def split: option.split)

lemma queued_frame_spoils_remote_end_witness:
  "\<exists>e'. session_event_step (example_engine\<lparr>se_link_frames := [LfAcquisition []]\<rparr>) SevIncoming =
       SlStopped e' (Inl IllegalState) \<and> length (sent (se_outgoing e')) = 1"
proof -
  let ?e = "example_engine\<lparr>se_link_frames := [LfAcquisition []]\<rparr>"
  have "s_local_state (se_session ?e) = Mapped" "rx_alive (se_outgoing ?e)" "sent (se_outgoing ?e) = []"
    "se_link_frames ?e = [LfAcquisition []]" "se_incoming ?e = [session_frame_new 0 (SfEnd \<lparr>en_error = None\<rparr>)]"
    by (simp_all add: example_engine_def example_session_def)
  then show ?thesis
    using queued_frame_spoils_remote_end [of ?e "LfAcquisition []" "[]"
        "session_frame_new 0 (SfEnd \<lparr>en_error = None\<rparr>)" "[]" "\<lparr>en_error = None\<rparr>"]
    by (auto simp: session_frame_new_def)
qed

lemma send_frames_alive:
  "rx_alive (se_outgoing e) \<Longrightarrow>
   send_frames e frs = Some (e\<lparr>se_outgoing := (se_outgoing e)\<lparr>sent := sent (se_outgoing e) @ frs\<rparr>\<rparr>, Inr ())"
  by (induction frs arbitrary: e) (simp_all add: send_frame_def chan_send_def)

lemma emit_all_frames:
  "length (snd (emit_all s xs)) = length xs"
  "map snd (transfers_of (snd (emit_all s xs))) = map (\<lambda>(h, t, p, f). p) xs"
  by (induction xs arbitrary: s) (simp_all add: transfers_of_def emit_frame_def session_frame_new_def split_beta)

text \<open>
  A session that has sent its end still answers a flow with the transfers its window had held
  back: when the peer reopens the window while its own end is under way, as many of them as the
  window allows are sent behind the end.
\<close>

lemma transfers_follow_end:
  assumes "s_local_state (se_session e) = EndSent" and "rx_alive (se_outgoing e)"
    and "se_incoming e = fr # rest" and "sf_body fr = SfFlow fl" and "fl_handle fl = None"
    and "s_exhausted_buffer (se_session e) = buffer" and "buffer \<noteq> []" and "list_all ok_item buffer"
    and "n = unat (s_remote_incoming_window (update_windows (se_session e) fl))" and "0 < n"
  shows "\<exists>e' frs. session_event_step e SevIncoming = SlRunning e' \<and> s_local_state (se_session e') = EndSent \<and>
    sent (se_outgoing e') = sent (se_outgoing e) @ frs \<and> length frs = min n (length buffer) \<and>
    map snd (transfers_of frs) = map (\<lambda>(h, t, p, f). p) (take n buffer)"
proof -
  let ?s1 = "update_windows (se_session e) fl"
  let ?b = "take (min n (length buffer)) buffer"
  obtain s2 frs where em: "emit_all ?s1 ?b = (s2, frs)" by fastforce
  have buf: "s_exhausted_buffer ?s1 = buffer"
    using assms(6) by (simp add: update_windows_def Let_def split: option.split)
  have "on_incoming_flow_inner (se_session e) fl = (?s1, Inr None)"
    using assms(5) by (simp add: on_incoming_flow_inner_def link_flow_try_from_def Let_def)
  moreover have "0 < s_remote_incoming_window ?s1" using assms(9,10) by (auto simp: word_gt_0)
  ultimately have flow: "on_incoming_flow (se_session e) fl =
      (s2\<lparr>s_exhausted_buffer := drop (min n (length buffer)) buffer\<rparr>, Inr (Some (MultipleFrames frs)))"
    using prepare_buffered_ok [of ?s1 "[]"] assms(7-9) em buf by (simp add: on_incoming_flow_def Let_def)
  then have "s_local_state s2 = EndSent"
    using incoming_flow_status [OF flow] assms(1) by (simp add: status_def)
  moreover have "?b = take n buffer" by (simp add: min_def)
  ultimately show ?thesis
    using assms(1-4) flow em emit_all_frames [of ?s1 ?b]
    by (simp add: session_event_step_def session_select_def session_on_incoming_def session_incoming_body_def
        with_endpoint_def send_item_def send_frames_alive session_running_def)
qed

lemma transfers_follow_end_witness:
  "\<exists>e' frs. session_event_step (example_engine\<lparr>se_session := example_session\<lparr>s_local_state := EndSent,
         s_exhausted_buffer := [(0, example_transfer, [7], True)]\<rparr>,
       se_incoming := [session_frame_new 0 (SfFlow \<lparr>fl_next_incoming_id = Some 0, fl_incoming_window = 2,
         fl_next_outgoing_id = 0, fl_outgoing_window = 0, fl_handle = None, fl_delivery_count = None,
         fl_link_credit = None, fl_available = None, fl_drain = False, fl_echo = False, fl_properties = None\<rparr>)]\<rparr>)
       SevIncoming = SlRunning e' \<and>
     sent (se_outgoing e') = frs \<and> map snd (transfers_of frs) = [[7]]"
proof -
  let ?fl = "\<lparr>fl_next_incoming_id = Some 0, fl_incoming_window = 2,
         fl_next_outgoing_id = 0, fl_outgoing_window = 0, fl_handle = None, fl_delivery_count = None,
         fl_link_credit = None, fl_available = None, fl_drain = False, fl_echo = False, fl_properties = None\<rparr>"
  let ?e = "example_engine\<lparr>se_session := example_session\<lparr>s_local_state := EndSent,
         s_exhausted_buffer := [(0, example_transfer, [7], True)]\<rparr>,
       se_incoming := [session_frame_new 0 (SfFlow ?fl)]\<rparr>"
  have "s_local_state (se_session ?e) = EndSent" "rx_alive (se_outgoing ?e)" "sent (se_outgoing ?e) = []"
    "se_incoming ?e = [session_frame_new 0 (SfFlow ?fl)]" "sf_body (session_frame_new 0 (SfFlow ?fl)) = SfFlow ?fl"
    "fl_handle ?fl = None" "s_exhausted_buffer (se_session ?e) = [(0, example_transfer, [7], True)]"
    "list_all ok_item [(0, example_transfer, [7], True)]"
    "(2 :: nat) = unat (s_remote_incoming_window (update_windows (se_session ?e) ?fl))"
    by (simp_all add: example_engine_def example_session_def session_frame_new_def example_transfer_def
        update_windows_def Let_def saturating_sub_def saturating_add_def)
  from transfers_follow_end [OF this(1,2,4-7) _ this(8,9)] this(3) show ?thesis by auto
qed

end
