(* ===== verification/Receiver_Disposition.thy ===== *)
theory Receiver_Disposition
  imports Receiver_Link Session_Links
begin

text \<open>
  Disposing of many deliveries at once (\<open>ReceiverLink::dispose_all\<close>, link/receiver_link.rs) against an
  abstract receiver that disposes of one delivery at a time. The abstract state is the unsettled map and
  what the peer has been told of each delivery; a disposition frame that names a range tells it of every
  delivery-id in the range.
\<close>

section \<open>The abstract receiver\<close>

record receiver_view =
  rv_unsettled :: "delivery_tag \<rightharpoonup> delivery_state option"
  rv_told :: "(u32 \<times> bool \<times> delivery_state option) list"

definition told_by :: "link_frame \<Rightarrow> (u32 \<times> bool \<times> delivery_state option) list" where
  "told_by fr =
     (case fr of
        LfDisposition d \<Rightarrow>
          map (\<lambda>i. (i, di_settled d, di_state d))
            (range_incl (di_first d) (case di_last d of Some l \<Rightarrow> l | None \<Rightarrow> di_first d))
      | _ \<Rightarrow> [])"

definition view_of :: "receiver_link \<Rightarrow> link_frame chan \<Rightarrow> receiver_view" where
  "view_of l w = \<lparr>rv_unsettled = unsettled_or_new l, rv_told = concat (map told_by (sent w))\<rparr>"

definition settle_delivery :: "bool \<Rightarrow> delivery_state \<Rightarrow> delivery_info \<Rightarrow> receiver_view \<Rightarrow> receiver_view" where
  "settle_delivery settled state info v =
     (if rv_unsettled v (in_delivery_tag info) = None then v
      else \<lparr>rv_unsettled = (rv_unsettled v)(in_delivery_tag info := if settled then None else Some (Some state)),
            rv_told = rv_told v @ [(in_delivery_id info, settled, Some state)]\<rparr>)"

section \<open>Runs\<close>

definition joined :: "delivery_info \<Rightarrow> delivery_info \<Rightarrow> bool" where
  "joined a b \<longleftrightarrow> is_consecutive (in_delivery_id a) (in_delivery_id b) \<and> in_rcv_settle_mode a = in_rcv_settle_mode b"

text \<open>The loop over the chunk indices, as a pass over the deliveries with the current run.\<close>

fun dispose_runs ::
    "receiver_link \<Rightarrow> link_frame chan \<Rightarrow> delivery_info list \<Rightarrow> delivery_info list \<Rightarrow> bool option \<Rightarrow>
     delivery_state \<Rightarrow> bool \<Rightarrow> receiver_link \<times> link_frame chan \<times> (link_state_error + unit)" where
  "dispose_runs l w cur [] settled state batchable = dispose_consecutive l w cur settled state batchable"
| "dispose_runs l w cur (b # xs) settled state batchable =
     (if joined (last cur) b then dispose_runs l w (cur @ [b]) xs settled state batchable
      else case dispose_consecutive l w cur settled state batchable of
        (l1, w1, Inl e) \<Rightarrow> (l1, w1, Inl e)
      | (l1, w1, Inr _) \<Rightarrow> dispose_runs l1 w1 [b] xs settled state batchable)"

lemma dispose_chunks_runs:
  "cur \<noteq> [] \<Longrightarrow>
   dispose_chunks l w (pre @ cur @ xs) (length pre)
     (info_chunk_indices (length pre + length cur - 1) (last cur # xs)) settled state batchable =
   dispose_runs l w cur xs settled state batchable"
proof (induction xs arbitrary: l w pre cur)
  case (Cons b xs)
  have len: "Suc (length pre + length cur - 1) = length pre + length cur" using Cons.prems by (cases cur) simp_all
  show ?case
  proof (cases "joined (last cur) b")
    case True
    then show ?thesis using Cons.IH [of "cur @ [b]" l w pre] len by (simp add: joined_def)
  next
    case False
    then have "info_chunk_indices (length pre + length cur - 1) (last cur # b # xs) =
        (length pre + length cur) # info_chunk_indices (length pre + length cur) (b # xs)"
      using len by (auto simp: joined_def)
    then show ?thesis
      using False Cons.IH [of "[b]" _ _ "pre @ cur"] by (simp split: prod.split sum.split)
  qed
qed simp

lemma link_dispose_all_runs:
  assumes "kept = filter (\<lambda>i. unsettled_or_new l (in_delivery_tag i) \<noteq> None) (sort_key in_delivery_id infos)"
  shows "link_dispose_all l w infos settled state batchable =
    (case kept of [] \<Rightarrow> (l, w, Inr ()) | a # xs \<Rightarrow> dispose_runs l w [a] xs settled state batchable)"
proof -
  have eq: "(\<lambda>i. case l_unsettled l of Some m \<Rightarrow> m (in_delivery_tag i) \<noteq> None | None \<Rightarrow> False) =
      (\<lambda>i. unsettled_or_new l (in_delivery_tag i) \<noteq> None)"
    by (auto simp: unsettled_or_new_def split: option.split)
  have "link_dispose_all l w infos settled state batchable =
      dispose_chunks l w kept 0 (info_chunk_indices 0 kept) settled state batchable"
    unfolding link_dispose_all_def Let_def assms eq by (rule refl)
  then show ?thesis
    using dispose_chunks_runs [of "[hd kept]" l w "[]" "tl kept" settled state batchable]
    by (cases kept) (simp_all add: dispose_consecutive_def)
qed

section \<open>Refinement\<close>

lemma fold_settle_run:
  assumes "distinct (map in_delivery_tag infos)" and "\<forall>i \<in> set infos. rv_unsettled v (in_delivery_tag i) \<noteq> None"
    and x: "x = (if b then None else Some (Some state))"
  shows "fold (settle_delivery b state) infos v =
    \<lparr>rv_unsettled = foldl (\<lambda>m i. m(in_delivery_tag i := x)) (rv_unsettled v) infos,
     rv_told = rv_told v @ map (\<lambda>i. (in_delivery_id i, b, Some state)) infos\<rparr>"
  using assms(1,2)
proof (induction infos arbitrary: v)
  case (Cons i infos)
  then have "settle_delivery b state i v = \<lparr>rv_unsettled = (rv_unsettled v)(in_delivery_tag i := x),
      rv_told = rv_told v @ [(in_delivery_id i, b, Some state)]\<rparr>"
    by (auto simp: settle_delivery_def x)
  moreover have "\<forall>j \<in> set infos. ((rv_unsettled v)(in_delivery_tag i := x)) (in_delivery_tag j) \<noteq> None"
    using Cons.prems by (auto simp: image_iff)
  ultimately show ?case using Cons by (simp del: fun_upd_apply)
qed simp

definition is_run :: "delivery_info list \<Rightarrow> bool" where
  "is_run infos \<longleftrightarrow> infos \<noteq> [] \<and> (\<forall>j. Suc j < length infos \<longrightarrow> joined (infos ! j) (infos ! Suc j)) \<and>
     sorted_wrt (<) (map in_delivery_id infos)"

lemma run_modes: "is_run infos \<Longrightarrow> i \<in> set infos \<Longrightarrow> in_rcv_settle_mode i = in_rcv_settle_mode (hd infos)"
proof -
  assume r: "is_run infos" and i: "i \<in> set infos"
  have "j < length infos \<longrightarrow> in_rcv_settle_mode (infos ! j) = in_rcv_settle_mode (infos ! 0)" for j
  proof (induction j)
    case (Suc j)
    have "Suc j < length infos \<longrightarrow> joined (infos ! j) (infos ! Suc j)" using r unfolding is_run_def by blast
    with Suc show ?case by (simp add: joined_def)
  qed simp
  with i r show ?thesis by (metis hd_conv_nth in_set_conv_nth is_run_def)
qed

lemma run_told:
  assumes "is_run infos"
  shows "told_by (receiver_disposition (in_delivery_id (hd infos)) (Some (in_delivery_id (last infos))) b state batch) =
    map (\<lambda>i. (in_delivery_id i, b, Some state)) infos"
proof -
  have "range_incl (hd (map in_delivery_id infos)) (last (map in_delivery_id infos)) = map in_delivery_id infos"
    using assms by (intro range_incl_run) (auto simp: is_run_def joined_def)
  then show ?thesis
    using assms by (simp add: told_by_def receiver_disposition_def is_run_def hd_map last_map)
qed

lemma dispose_consecutive_refines:
  assumes "is_run infos" and "rx_alive w" and "distinct (map in_delivery_tag infos)"
    and "\<forall>i \<in> set infos. unsettled_or_new l (in_delivery_tag i) \<noteq> None"
  shows "\<exists>l1 w1. dispose_consecutive l w infos settled state batch = (l1, w1, Inr ()) \<and> rx_alive w1 \<and>
    l_rcv_settle_mode l1 = l_rcv_settle_mode l \<and>
    view_of l1 w1 = fold (\<lambda>i. settle_delivery (settled_by_mode l (in_rcv_settle_mode i) settled) state i) infos (view_of l w)"
proof -
  define b where "b = settled_by_mode l (in_rcv_settle_mode (hd infos)) settled"
  obtain a rest where infos: "infos = a # rest" using assms(1) by (cases infos) (auto simp: is_run_def)
  obtain m where m: "l_unsettled l = Some m" using assms(4) infos by (auto simp: unsettled_or_new_def split: option.splits)
  have "fold (\<lambda>i. settle_delivery (settled_by_mode l (in_rcv_settle_mode i) settled) state i) infos (view_of l w) =
      fold (settle_delivery b state) infos (view_of l w)"
    by (rule fold_cong) (simp_all add: b_def run_modes [OF assms(1)])
  also have "\<dots> = \<lparr>rv_unsettled = foldl (\<lambda>m i. m(in_delivery_tag i := if b then None else Some (Some state))) m infos,
      rv_told = rv_told (view_of l w) @ map (\<lambda>i. (in_delivery_id i, b, Some state)) infos\<rparr>"
    using fold_settle_run [OF assms(3), of "view_of l w" _ b state, OF _ refl] assms(4) m
    by (simp add: view_of_def unsettled_or_new_def)
  finally have spec: "fold (\<lambda>i. settle_delivery (settled_by_mode l (in_rcv_settle_mode i) settled) state i) infos
      (view_of l w) = \<dots>" .
  have "settled_by_mode l (in_rcv_settle_mode a) settled = b" by (simp add: b_def infos)
  then show ?thesis
    unfolding spec using run_told [OF assms(1), of b state batch] assms(2) m infos
    by (cases b) (simp_all add: dispose_consecutive_def view_of_def unsettled_or_new_def chan_send_def Let_def)
qed

lemma settle_mode_cong: "l_rcv_settle_mode l' = l_rcv_settle_mode l \<Longrightarrow> settled_by_mode l' = settled_by_mode l"
  by (intro ext) (simp add: settled_by_mode_def split: option.split)

lemma settle_keeps: "in_delivery_tag j \<noteq> in_delivery_tag i \<Longrightarrow>
    rv_unsettled (settle_delivery b state i v) (in_delivery_tag j) = rv_unsettled v (in_delivery_tag j)"
  by (simp add: settle_delivery_def)

lemma fold_settle_keeps:
  "in_delivery_tag j \<notin> in_delivery_tag ` set infos \<Longrightarrow>
   rv_unsettled (fold (\<lambda>i. settle_delivery (f i) state i) infos v) (in_delivery_tag j) = rv_unsettled v (in_delivery_tag j)"
  by (induction infos arbitrary: v) (auto simp: settle_keeps)

lemma is_run_snoc:
  assumes "is_run cur" and "joined (last cur) b" and "sorted_wrt (<) (map in_delivery_id (cur @ [b]))"
  shows "is_run (cur @ [b])"
proof -
  have "joined ((cur @ [b]) ! j) ((cur @ [b]) ! Suc j)" if "Suc j < length (cur @ [b])" for j
  proof (cases "Suc j < length cur")
    case False
    then have "j = length cur - 1" "Suc j = length cur" using that by auto
    then show ?thesis using assms(1,2) by (simp add: is_run_def nth_append last_conv_nth)
  qed (use assms(1) in \<open>auto simp: is_run_def nth_append\<close>)
  then show ?thesis using assms(3) by (simp add: is_run_def)
qed

lemma dispose_runs_refines:
  assumes "is_run cur" and "rx_alive w" and "distinct (map in_delivery_tag (cur @ xs))"
    and "\<forall>i \<in> set (cur @ xs). unsettled_or_new l (in_delivery_tag i) \<noteq> None"
    and "sorted_wrt (<) (map in_delivery_id (cur @ xs))"
  shows "\<exists>l1 w1. dispose_runs l w cur xs settled state batch = (l1, w1, Inr ()) \<and>
    view_of l1 w1 = fold (\<lambda>i. settle_delivery (settled_by_mode l (in_rcv_settle_mode i) settled) state i)
      (cur @ xs) (view_of l w)"
  using assms
proof (induction xs arbitrary: l w cur)
  case Nil
  then show ?case using dispose_consecutive_refines [of cur w l settled state batch] by auto
next
  case (Cons b xs)
  show ?case
  proof (cases "joined (last cur) b")
    case True
    have "sorted_wrt (<) (map in_delivery_id (cur @ [b]))" using Cons.prems(5) by (simp add: sorted_wrt_append)
    then have "is_run (cur @ [b])" using is_run_snoc [OF Cons.prems(1) True] by simp
    then show ?thesis using Cons.IH [of "cur @ [b]" w l] Cons.prems True by simp
  next
    case False
    let ?step = "\<lambda>i. settle_delivery (settled_by_mode l (in_rcv_settle_mode i) settled) state i"
    obtain l1 w1 where one: "dispose_consecutive l w cur settled state batch = (l1, w1, Inr ())" "rx_alive w1"
        "l_rcv_settle_mode l1 = l_rcv_settle_mode l" "view_of l1 w1 = fold ?step cur (view_of l w)"
      using dispose_consecutive_refines [of cur w l settled state batch] Cons.prems by auto
    have uns: "unsettled_or_new l1 (in_delivery_tag i) = unsettled_or_new l (in_delivery_tag i)"
      if "i \<in> set (b # xs)" for i
    proof -
      have "in_delivery_tag i \<notin> in_delivery_tag ` set cur" using Cons.prems(3) that by auto
      from fold_settle_keeps [OF this, of _ state "view_of l w"] one(4) show ?thesis
        by (metis receiver_view.select_convs(1) view_of_def)
    qed
    have "is_run [b]" by (simp add: is_run_def)
    then obtain l2 w2 where "dispose_runs l1 w1 [b] xs settled state batch = (l2, w2, Inr ())"
        "view_of l2 w2 = fold (\<lambda>i. settle_delivery (settled_by_mode l1 (in_rcv_settle_mode i) settled) state i)
           ([b] @ xs) (view_of l1 w1)"
      using Cons.IH [of "[b]" w1 l1] one(2) Cons.prems uns by (auto simp: sorted_wrt_append)
    then show ?thesis
      using one False settle_mode_cong [OF one(3)] by simp
  qed
qed

lemma fold_settle_filter:
  assumes "distinct (map in_delivery_tag infos)"
  shows "fold (\<lambda>i. settle_delivery (f i) state i) infos v =
    fold (\<lambda>i. settle_delivery (f i) state i) (filter (\<lambda>i. rv_unsettled v (in_delivery_tag i) \<noteq> None) infos) v"
  using assms
proof (induction infos arbitrary: v)
  case (Cons i infos)
  let ?v = "settle_delivery (f i) state i v"
  have "in_delivery_tag j \<noteq> in_delivery_tag i" if "j \<in> set infos" for j using Cons.prems that
    by (simp add: image_iff) metis
  then have "filter (\<lambda>j. rv_unsettled ?v (in_delivery_tag j) \<noteq> None) infos =
      filter (\<lambda>j. rv_unsettled v (in_delivery_tag j) \<noteq> None) infos"
    by (intro filter_cong) (simp_all add: settle_keeps)
  moreover have "rv_unsettled v (in_delivery_tag i) = None \<Longrightarrow> ?v = v" by (simp add: settle_delivery_def)
  ultimately show ?case using Cons.IH [of ?v] Cons.prems by auto
qed simp

text \<open>
  C28: Disposing of a batch implements disposing of its deliveries one after the other, in the order
  of their ids: the link forgets or updates exactly the deliveries it knows, each as its settle mode
  says, and the ranges in the dispositions it sends tell the peer of exactly these deliveries, each
  once, with the right settlement and state. Deliveries that are no longer unsettled are left out.
\<close>

theorem dispose_all_refines:
  assumes "rx_alive w" and "distinct (map in_delivery_tag infos)" and "distinct (map in_delivery_id infos)"
  shows "\<exists>l1 w1. link_dispose_all l w infos settled state batchable = (l1, w1, Inr ()) \<and>
    view_of l1 w1 = fold (\<lambda>i. settle_delivery (settled_by_mode l (in_rcv_settle_mode i) settled) state i)
      (sort_key in_delivery_id infos) (view_of l w)"
proof -
  define sorted where "sorted = sort_key in_delivery_id infos"
  define kept where "kept = filter (\<lambda>i. unsettled_or_new l (in_delivery_tag i) \<noteq> None) sorted"
  let ?step = "\<lambda>i. settle_delivery (settled_by_mode l (in_rcv_settle_mode i) settled) state i"
  have d: "distinct (map in_delivery_tag sorted)" "distinct (map in_delivery_id sorted)"
    using assms(2,3) by (simp_all add: sorted_def distinct_map)
  then have kept: "distinct (map in_delivery_tag kept)" "distinct (map in_delivery_id kept)"
    by (simp_all add: kept_def distinct_map_filter)
  have "sorted_wrt (\<le>) (map in_delivery_id kept)"
    by (simp add: kept_def sorted_def sorted_filter [unfolded comp_def])
  then have srt: "sorted_wrt (<) (map in_delivery_id kept)"
    using kept(2) by (simp add: strict_sorted_iff)
  have spec: "fold ?step sorted (view_of l w) = fold ?step kept (view_of l w)"
    using fold_settle_filter [OF d(1)] by (simp add: kept_def view_of_def)
  have all: "link_dispose_all l w infos settled state batchable =
      (case kept of [] \<Rightarrow> (l, w, Inr ()) | a # xs \<Rightarrow> dispose_runs l w [a] xs settled state batchable)"
    by (rule link_dispose_all_runs) (simp only: kept_def sorted_def)
  have uns: "\<forall>i \<in> set kept. unsettled_or_new l (in_delivery_tag i) \<noteq> None" by (simp add: kept_def)
  show ?thesis
    unfolding sorted_def [symmetric] spec all
  proof (cases kept)
    case (Cons a xs)
    have "is_run [a]" by (simp add: is_run_def)
    then show "\<exists>l1 w1. (case kept of [] \<Rightarrow> (l, w, Inr ()) | a # xs \<Rightarrow> dispose_runs l w [a] xs settled state batchable) =
        (l1, w1, Inr ()) \<and> view_of l1 w1 = fold ?step kept (view_of l w)"
      using dispose_runs_refines [of "[a]" w xs l settled state batchable] kept(1) srt assms(1) uns Cons by simp
  qed simp
qed

definition example_infos :: "delivery_info list" where
  "example_infos = [\<lparr>in_delivery_id = 6, in_delivery_tag = [2], in_rcv_settle_mode = None\<rparr>,
     \<lparr>in_delivery_id = 5, in_delivery_tag = [1], in_rcv_settle_mode = None\<rparr>,
     \<lparr>in_delivery_id = 8, in_delivery_tag = [3], in_rcv_settle_mode = None\<rparr>]"

definition example_receiver_link :: receiver_link where
  "example_receiver_link = \<lparr>l_local_state = LkAttached, l_name = ''q'', l_output_handle = Some 4,
     l_input_handle = Some 0, l_snd_settle_mode = Mixed, l_rcv_settle_mode = First, l_source = None,
     l_target = None, l_max_message_size = 0, l_offered_capabilities = None, l_desired_capabilities = None, l_flow_state = example_state,
     l_unsettled = Some [[1] \<mapsto> None, [2] \<mapsto> None], l_session_stop_reason = None, l_max_frame_size = 512,
     l_verify_incoming_source = True, l_verify_incoming_target = True\<rparr>"

theorem dispose_all_refines_witness:
  "\<exists>l1 w1. link_dispose_all example_receiver_link \<lparr>rx_alive = True, sent = []\<rparr> example_infos None Accepted False =
       (l1, w1, Inr ()) \<and>
     rv_told (view_of l1 w1) = [(5, True, Some Accepted), (6, True, Some Accepted)]"
proof -
  have "distinct (map in_delivery_tag example_infos)" "distinct (map in_delivery_id example_infos)"
    by (simp_all add: example_infos_def)
  moreover have "sort_key in_delivery_id example_infos = [example_infos ! 1, example_infos ! 0, example_infos ! 2]"
    by (simp add: example_infos_def)
  ultimately show ?thesis
    using dispose_all_refines [of "\<lparr>rx_alive = True, sent = []\<rparr>" example_infos example_receiver_link None Accepted False]
    by (simp add: example_infos_def example_receiver_link_def settle_delivery_def settled_by_mode_def
        view_of_def unsettled_or_new_def) blast
qed

end
