(* ===== verification/Codec_Typing.thy ===== *)
theory Codec_Typing
  imports Codec "HOL-Library.Sublist"
begin

text \<open>
  What the decoder makes of arbitrary input: a value it returns is well typed (fixed-width payloads have
  their width, text is UTF-8, map keys are distinct, compounds respect the limit), what is left over is
  the end of the input, and the fuel of the model is never exhausted. The contract is stated for the
  deserializer of an element (locale \<open>sound_deserializer\<close>) and carried through the loops over lists,
  arrays and maps.
\<close>

section \<open>Types\<close>

definition utf8_text :: "string \<Rightarrow> bool" where
  "utf8_text s \<longleftrightarrow> utf8_valid (string_bytes s) \<and> length s < 2 ^ 32"

fun typed_descriptor :: "descriptor \<Rightarrow> bool" where
  "typed_descriptor (DName s) = utf8_text s"
| "typed_descriptor (DCode _) = True"

fun well_typed :: "amqp_value \<Rightarrow> bool" where
  "well_typed (VDescribed d v) = (typed_descriptor d \<and> well_typed v)"
| "well_typed (VDecimal32 b) = (length b = 4)"
| "well_typed (VDecimal64 b) = (length b = 8)"
| "well_typed (VDecimal128 b) = (length b = 16)"
| "well_typed (VUuid b) = (length b = 16)"
| "well_typed (VChar c) = is_char c"
| "well_typed (VBinary b) = (length b < 2 ^ 32)"
| "well_typed (VString s) = utf8_text s"
| "well_typed (VSymbol s) = utf8_text s"
| "well_typed (VList vs) = (length vs \<le> MAX_ARRAY_COUNT \<and> list_all well_typed vs)"
| "well_typed (VArray vs) = (length vs \<le> MAX_ARRAY_COUNT \<and> list_all well_typed vs)"
| "well_typed (VMap kvs) = (distinct (map fst kvs) \<and> list_all (\<lambda>kv. well_typed (fst kv) \<and> well_typed (snd kv)) kvs)"
| "well_typed _ = True"

section \<open>Reading\<close>

text \<open>A reader that returns a value with the property \<open>W\<close> and leaves the end of the input.\<close>

definition leaves :: "('a \<Rightarrow> bool) \<Rightarrow> bytes \<Rightarrow> de_error + 'a \<times> bytes \<Rightarrow> bool" where
  "leaves W bs r \<longleftrightarrow> r \<noteq> Inl OutOfFuel \<and> (\<forall>v rest. r = Inr (v, rest) \<longrightarrow> W v \<and> suffix rest bs)"

lemma leaves_read_byte: "leaves (\<lambda>_. True) bs (read_byte bs)"
  by (auto simp: leaves_def read_byte_def split: list.splits intro: suffix_ConsI)

lemma leaves_read_bytes: "leaves (\<lambda>b. length b = n) bs (read_bytes n bs)"
  by (auto simp: leaves_def read_bytes_def intro: suffix_drop)

lemma string_bytes_string [simp]: "string_bytes (bytes_string b) = b"
proof -
  have "word_of_nat (of_char (char_of (unat x))) = x" for x :: u8
    using unat_lt_exp [of x] by (simp add: of_char_of)
  then show ?thesis by (simp add: string_bytes_def bytes_string_def o_def)
qed

lemma length_bytes_string [simp]: "length (bytes_string b) = length b"
  by (simp add: bytes_string_def)

lemma leaves_read_be: "leaves (\<lambda>k. k < 256 ^ n) bs (read_be n bs)"
  using leaves_read_bytes [of n bs] be_nat_less
  by (auto simp: leaves_def read_be_def split: sum.splits)

lemma leaves_read_sized: "leaves (\<lambda>b. length b < 256 ^ w) bs (read_sized w bs)"
  using leaves_read_be [of w bs] leaves_read_bytes suffix_order.trans
  by (fastforce simp: leaves_def read_sized_def split: sum.splits)

lemma leaves_read_utf8: "leaves (\<lambda>s. utf8_valid (string_bytes s) \<and> length s < 256 ^ w) bs (read_utf8 w bs)"
  using leaves_read_sized [of w bs]
  by (auto simp: leaves_def read_utf8_def split: sum.splits if_splits)

lemma leaves_map_value:
  "leaves W bs r \<Longrightarrow> (\<And>x. W x \<Longrightarrow> well_typed (f x)) \<Longrightarrow> leaves well_typed bs (map_value f r)"
  by (auto simp: leaves_def map_value_def split: sum.splits)

lemma leaves_Inr [simp]: "leaves W bs (Inr (v, bs)) \<longleftrightarrow> W v"
  by (auto simp: leaves_def)

lemma leaves_boolean:
  "leaves well_typed bs (case read_byte bs of Inl e \<Rightarrow> Inl e
     | Inr (b, rest) \<Rightarrow> if b = 0 then Inr (VBool False, rest) else if b = 1 then Inr (VBool True, rest)
                       else Inl InvalidValue)"
  using leaves_read_byte [of bs] by (auto simp: leaves_def split: sum.splits)

lemma leaves_char:
  "leaves well_typed bs (case read_be 4 bs of Inl e \<Rightarrow> Inl e
     | Inr (n, rest) \<Rightarrow> if is_char (word_of_nat n) then Inr (VChar (word_of_nat n), rest) else Inl InvalidValue)"
  using leaves_read_be [of 4 bs] by (auto simp: leaves_def split: sum.splits)

lemmas leaves_scalars = leaves_map_value [OF leaves_read_byte] leaves_map_value [OF leaves_read_be]
  leaves_map_value [OF leaves_read_bytes] leaves_map_value [OF leaves_read_sized]
  leaves_map_value [OF leaves_read_utf8] leaves_boolean leaves_char

lemma leaves_parse_scalar: "parse_scalar c bs = Some r \<Longrightarrow> leaves well_typed bs r"
  by (cases c) (auto intro!: leaves_scalars simp: utf8_text_def)

text \<open>Behind the code of a string or a number at least one byte follows, and a map has a header.\<close>

definition header_result :: "nat \<Rightarrow> bytes \<Rightarrow> de_error + nat \<times> nat \<times> bytes \<Rightarrow> bool" where
  "header_result w bs r \<longleftrightarrow> r \<noteq> Inl OutOfFuel \<and> (\<forall>len count rest. r = Inr (len, count, rest) \<longrightarrow>
     count < 256 ^ w \<and> suffix rest bs \<and> length bs = length rest + 2 * w)"

lemma read_be_length: "read_be w bs = Inr (n, rest) \<Longrightarrow> length bs = length rest + w"
  by (auto simp: read_be_def read_bytes_def split: sum.splits if_splits)

lemma read_header_result: "header_result w bs (read_header w bs)"
proof (cases "read_be w bs")
  case (Inl e)
  then show ?thesis using leaves_read_be [of w bs] by (simp add: header_result_def read_header_def leaves_def)
next
  case (Inr r)
  obtain len rest where r: "read_be w bs = Inr (len, rest)" using Inr by (cases r) auto
  have "suffix rest bs" "length bs = length rest + w"
    using leaves_read_be [of w bs] read_be_length [OF r] r by (simp_all add: leaves_def)
  then show ?thesis
    using r leaves_read_be [of w rest]
    by (auto simp: header_result_def read_header_def leaves_def split: sum.splits prod.splits
        dest: read_be_length intro: suffix_order.trans)
qed

section \<open>The contract of a deserializer\<close>

text \<open>Element codes under which every element takes at least one byte.\<close>

definition solid :: "encoding_code option \<Rightarrow> bool" where
  "solid ec \<longleftrightarrow> ec \<in> {None, Some CMap8, Some CMap32}"

definition reads_on :: "bool \<Rightarrow> ('a \<Rightarrow> bool) \<Rightarrow> encoding_code option \<Rightarrow> bytes \<Rightarrow>
    de_error + 'a \<times> encoding_code option \<times> bytes \<Rightarrow> bool" where
  "reads_on progress W ec bs r \<longleftrightarrow> (\<forall>v ec1 rest. r = Inr (v, ec1, rest) \<longrightarrow>
     W v \<and> suffix rest bs \<and> (solid ec \<longrightarrow> solid ec1 \<and> (progress \<longrightarrow> length rest < length bs)))"

locale sound_deserializer =
  fixes d :: "'a deserializer" and n :: nat and W :: "'a \<Rightarrow> bool"
  assumes enough: "length bs < n \<Longrightarrow> d ec bs \<noteq> Inl OutOfFuel"
    and sound: "reads_on True W ec bs (d ec bs)"
begin

lemma one: "d ec bs = Inr (v, ec1, rest) \<Longrightarrow>
    W v \<and> suffix rest bs \<and> (solid ec \<longrightarrow> solid ec1 \<and> length rest < length bs)"
  using sound [of ec bs] by (simp add: reads_on_def)

lemma step:
  assumes "d ec bs = Inr (v, ec1, bs1)" and "reads_on False (\<lambda>vs. length vs = m \<and> list_all W vs) ec1 bs1 r"
  shows "reads_on False (\<lambda>vs. length vs = Suc m \<and> list_all W vs) ec bs
    (case r of Inl e \<Rightarrow> Inl e | Inr (vs, ec2, bs2) \<Rightarrow> Inr (v # vs, ec2, bs2))"
proof -
  show ?thesis
  proof (cases r)
    case (Inr x)
    obtain vs ec2 bs2 where x: "x = (vs, ec2, bs2)" by (cases x) auto
    have "suffix bs2 bs1" "suffix bs1 bs" using assms(2) one [OF assms(1)] Inr x by (simp_all add: reads_on_def)
    then have "suffix bs2 bs" by (rule suffix_order.trans)
    then show ?thesis using assms(2) one [OF assms(1)] Inr x by (simp add: reads_on_def)
  qed (simp add: reads_on_def)
qed

lemma shorter: "d ec bs = Inr (v, ec1, bs1) \<Longrightarrow> length bs < n \<Longrightarrow> length bs1 < n"
  using one [of ec bs v ec1 bs1] suffix_length_le [of bs1 bs] by auto

lemma de_list_sound:
  "(length bs < n \<longrightarrow> de_list d m ec bs \<noteq> Inl OutOfFuel) \<and>
   reads_on False (\<lambda>vs. length vs = m \<and> list_all W vs) ec bs (de_list d m ec bs)"
proof (induction m arbitrary: ec bs)
  case (Suc m)
  show ?case
  proof (cases "d ec bs")
    case (Inr r)
    obtain v ec1 bs1 where r: "d ec bs = Inr (v, ec1, bs1)" using Inr by (cases r) auto
    then show ?thesis
      using step [OF r conjunct2 [OF Suc.IH]] shorter [OF r] conjunct1 [OF Suc.IH, of bs1 ec1]
      by (auto split: sum.splits)
  qed (use enough [of bs ec] in \<open>auto simp: reads_on_def\<close>)
qed (simp add: reads_on_def)

lemma de_array_sound:
  "(length bs < n \<longrightarrow> de_array d start limit m ec bs \<noteq> Inl OutOfFuel) \<and>
   reads_on False (\<lambda>vs. length vs = m \<and> list_all W vs) ec bs (de_array d start limit m ec bs)"
proof (induction m arbitrary: ec bs)
  case (Suc m)
  show ?case
  proof (cases "d ec bs")
    case (Inr r)
    obtain v ec1 bs1 where r: "d ec bs = Inr (v, ec1, bs1)" using Inr by (cases r) auto
    have "reads_on False P ec bs (Inl InvalidValue)" for P by (simp add: reads_on_def)
    then show ?thesis
      using step [OF r conjunct2 [OF Suc.IH]] shorter [OF r] conjunct1 [OF Suc.IH, of bs1 ec1] r
      by (auto split: sum.splits)
  qed (use enough [of bs ec] in \<open>auto simp: reads_on_def\<close>)
qed (simp add: reads_on_def solid_def)

lemma deserialize_list_sound:
  assumes "w = 1 \<or> w = 4"
  shows "length bs \<le> n \<Longrightarrow> deserialize_list d w bs \<noteq> Inl OutOfFuel"
    and "reads_on True (\<lambda>vs. length vs \<le> MAX_ARRAY_COUNT \<and> list_all W vs) ec bs (deserialize_list d w bs)"
proof -
  have "(length bs \<le> n \<longrightarrow> deserialize_list d w bs \<noteq> Inl OutOfFuel) \<and>
    reads_on True (\<lambda>vs. length vs \<le> MAX_ARRAY_COUNT \<and> list_all W vs) ec bs (deserialize_list d w bs)"
  proof (cases "read_header w bs")
    case (Inr h)
    obtain len count rest where h: "read_header w bs = Inr (len, count, rest)" using Inr by (cases h) auto
    have r: "count < 256 ^ w" "suffix rest bs" "length bs = length rest + 2 * w"
      using read_header_result [of w bs] h by (simp_all add: header_result_def)
    have trans: "suffix x bs \<and> length x < length bs" if "suffix x rest" for x
      using that r assms suffix_length_le [OF that] by (auto intro: suffix_order.trans)
    show ?thesis
      using h r(1,3) assms de_list_sound [of rest count None] trans
      by (auto simp: deserialize_list_def reads_on_def solid_def MAX_ARRAY_COUNT_def)
  qed (use read_header_result [of w bs] in \<open>auto simp: deserialize_list_def reads_on_def header_result_def\<close>)
  then show "length bs \<le> n \<Longrightarrow> deserialize_list d w bs \<noteq> Inl OutOfFuel"
    "reads_on True (\<lambda>vs. length vs \<le> MAX_ARRAY_COUNT \<and> list_all W vs) ec bs (deserialize_list d w bs)" by simp_all
qed

lemma ec_after_array: "de_array d start limit m ec bs = Inr (vs, ec1, rest) \<Longrightarrow> ec1 = None"
  by (induction m arbitrary: ec bs vs) (auto split: sum.splits prod.splits if_splits)

lemma deserialize_array_sound:
  assumes "w = 1 \<or> w = 4"
  shows "length bs \<le> n \<Longrightarrow> deserialize_array d w bs \<noteq> Inl OutOfFuel"
    and "reads_on True (\<lambda>vs. length vs \<le> MAX_ARRAY_COUNT \<and> list_all W vs) ec bs (deserialize_array d w bs)"
proof -
  have "(length bs \<le> n \<longrightarrow> deserialize_array d w bs \<noteq> Inl OutOfFuel) \<and>
    reads_on True (\<lambda>vs. length vs \<le> MAX_ARRAY_COUNT \<and> list_all W vs) ec bs (deserialize_array d w bs)"
  proof (cases "read_header w bs")
    case (Inr h)
    obtain len count rest where h: "read_header w bs = Inr (len, count, rest)" using Inr by (cases h) auto
    have r: "suffix rest bs" "length bs = length rest + 2 * w"
      using read_header_result [of w bs] h by (simp_all add: header_result_def)
    have trans: "suffix x bs \<and> length x < length bs" if "suffix x rest" for x
      using that r assms suffix_length_le [OF that] by (auto intro: suffix_order.trans)
    show ?thesis
    proof (cases rest)
      case Nil
      then show ?thesis
        using h trans [of "[]"] by (auto simp: deserialize_array_def elem_code_or_read_def reads_on_def solid_def)
    next
      case (Cons b tl)
      have tl: "suffix x bs \<and> length x < length bs" if "suffix x tl" for x
        using that Cons by (intro trans) (auto intro: suffix_ConsI)
      obtain c where "try_code b = None \<or> try_code b = Some c" by (cases "try_code b") auto
      then show ?thesis
        using h r(2) assms Cons trans [of rest] tl
          de_array_sound [of tl "length tl" "usize_sub len (w + 1)" count "Some c"] ec_after_array
        by (auto simp: deserialize_array_def elem_code_or_read_def reads_on_def solid_def split: option.splits)
    qed
  qed (use read_header_result [of w bs] in \<open>auto simp: deserialize_array_def reads_on_def header_result_def\<close>)
  then show "length bs \<le> n \<Longrightarrow> deserialize_array d w bs \<noteq> Inl OutOfFuel"
    "reads_on True (\<lambda>vs. length vs \<le> MAX_ARRAY_COUNT \<and> list_all W vs) ec bs (deserialize_array d w bs)" by simp_all
qed

end

lemma index_map_insert_keys: "fst ` set (index_map_insert m k v) = insert k (fst ` set m)"
  by (induction m k v rule: index_map_insert.induct) auto

lemma index_map_insert_distinct: "distinct (map fst m) \<Longrightarrow> distinct (map fst (index_map_insert m k v))"
  by (induction m k v rule: index_map_insert.induct) (simp_all add: index_map_insert_keys, auto)

lemma index_map_insert_all:
  "list_all P m \<Longrightarrow> P (k, v) \<Longrightarrow> list_all P (index_map_insert m k v)"
  by (induction m k v rule: index_map_insert.induct) auto

definition typed_entries :: "('k \<Rightarrow> bool) \<Rightarrow> ('v \<Rightarrow> bool) \<Rightarrow> ('k \<times> 'v) list \<Rightarrow> bool" where
  "typed_entries Wk Wv m \<longleftrightarrow> distinct (map fst m) \<and> list_all (\<lambda>kv. Wk (fst kv) \<and> Wv (snd kv)) m"

locale sound_entries = kd: sound_deserializer dk n Wk + vd: sound_deserializer dv n Wv
  for dk :: "'k deserializer" and dv :: "'v deserializer" and n :: nat
    and Wk :: "'k \<Rightarrow> bool" and Wv :: "'v \<Rightarrow> bool"
begin

lemma typed_entries_insert: "(typed_entries Wk Wv) m \<Longrightarrow> Wk k \<Longrightarrow> Wv v \<Longrightarrow> (typed_entries Wk Wv) (index_map_insert m k v)"
  by (simp add: typed_entries_def index_map_insert_distinct index_map_insert_all)

lemma de_entries_sound:
  "solid ec \<Longrightarrow> (typed_entries Wk Wv) m \<Longrightarrow>
   (length bs < n \<and> length bs < f \<longrightarrow> de_entries dk dv f count m ec bs \<noteq> Inl OutOfFuel) \<and>
   reads_on False (typed_entries Wk Wv) ec bs (de_entries dk dv f count m ec bs)"
proof (induction f arbitrary: count m ec bs)
  case 0
  then show ?case by (simp add: reads_on_def)
next
  case (Suc f)
  have stop: "reads_on False (typed_entries Wk Wv) ec bs (Inl e)" for e by (simp add: reads_on_def)
  show ?case
  proof (cases "count = 0")
    case True
    then show ?thesis using Suc.prems by (simp add: reads_on_def)
  next
    case False
    show ?thesis
    proof (cases "dk ec bs")
      case (Inl e)
      then show ?thesis using False kd.enough [of bs ec] stop by auto
    next
      case (Inr r)
      obtain k ec1 bs1 where k: "dk ec bs = Inr (k, ec1, bs1)" using Inr by (cases r) auto
      note k1 = kd.one [OF k]
      show ?thesis
      proof (cases "dv ec1 bs1")
        case (Inl e)
        then show ?thesis using False k k1 Suc.prems(1) vd.enough [of bs1 ec1] stop by auto
      next
        case (Inr r)
        obtain v ec2 bs2 where v: "dv ec1 bs1 = Inr (v, ec2, bs2)" using Inr by (cases r) auto
        note v1 = vd.one [OF v]
        have suf: "suffix bs2 bs" using k1 v1 suffix_order.trans by blast
        have IH: "(length bs2 < n \<and> length bs2 < f \<longrightarrow>
              de_entries dk dv f (usize_sub count 2) (index_map_insert m k v) ec2 bs2 \<noteq> Inl OutOfFuel) \<and>
            reads_on False (typed_entries Wk Wv) ec2 bs2 (de_entries dk dv f (usize_sub count 2) (index_map_insert m k v) ec2 bs2)"
          using Suc.IH k1 v1 Suc.prems typed_entries_insert by blast
        have "suffix x bs" if "suffix x bs2" for x using that suf suffix_order.trans by blast
        then have "reads_on False (typed_entries Wk Wv) ec bs r'" if "reads_on False (typed_entries Wk Wv) ec2 bs2 r'" for r'
          using that k1 v1 Suc.prems(1) by (simp add: reads_on_def)
        then show ?thesis using IH False k v k1 v1 Suc.prems(1) by auto
      qed
    qed
  qed
qed

lemma deserialize_map_sound:
  assumes "w = 1 \<or> w = 4" and "solid ec"
  shows "length bs \<le> n \<Longrightarrow> deserialize_map dk dv w ec bs \<noteq> Inl OutOfFuel"
    and "reads_on True (typed_entries Wk Wv) ec bs (deserialize_map dk dv w ec bs)"
proof -
  have "(length bs \<le> n \<longrightarrow> deserialize_map dk dv w ec bs \<noteq> Inl OutOfFuel) \<and>
    reads_on True (typed_entries Wk Wv) ec bs (deserialize_map dk dv w ec bs)"
  proof (cases "read_header w bs")
    case (Inr h)
    obtain len count rest where h: "read_header w bs = Inr (len, count, rest)" using Inr by (cases h) auto
    have r: "suffix rest bs" "length bs = length rest + 2 * w"
      using read_header_result [of w bs] h by (simp_all add: header_result_def)
    have trans: "suffix x bs \<and> length x < length bs" if "suffix x rest" for x
      using that r assms suffix_length_le [OF that] by (auto intro: suffix_order.trans)
    have "(typed_entries Wk Wv) []" by (simp add: typed_entries_def)
    then show ?thesis
      using h r(2) assms de_entries_sound [OF assms(2), of "[]" rest "Suc (length rest)" count] trans
      by (auto simp: deserialize_map_def reads_on_def)
  qed (use read_header_result [of w bs] in \<open>auto simp: deserialize_map_def reads_on_def header_result_def\<close>)
  then show "length bs \<le> n \<Longrightarrow> deserialize_map dk dv w ec bs \<noteq> Inl OutOfFuel"
    "reads_on True (typed_entries Wk Wv) ec bs (deserialize_map dk dv w ec bs)" by simp_all
qed

end

section \<open>The value decoder\<close>

lemma elem_code_sound:
  "elem_code_or_read err ec bs = Inr (c, rest) \<Longrightarrow> suffix rest bs \<and> (ec = None \<longrightarrow> length rest < length bs)
     \<and> (ec \<noteq> None \<longrightarrow> ec = Some c \<and> rest = bs)"
  "err \<noteq> OutOfFuel \<Longrightarrow> elem_code_or_read err ec bs \<noteq> Inl OutOfFuel"
  by (auto simp: elem_code_or_read_def split: option.splits list.splits intro: suffix_ConsI)

lemma scalar_sound:
  assumes "parse_scalar c bs = Some r"
  shows "r \<noteq> Inl OutOfFuel" and "r = Inr (v, rest) \<Longrightarrow> well_typed v \<and> suffix rest bs"
  using leaves_parse_scalar [OF assms] by (simp_all add: leaves_def)

lemma descriptor_sound:
  "deserialize_descriptor ec bs \<noteq> Inl OutOfFuel \<and> (\<forall>d rest. deserialize_descriptor ec bs = Inr (d, rest) \<longrightarrow>
     typed_descriptor d \<and> suffix rest bs \<and> length rest < length bs)"
proof (cases bs)
  case (Cons b bs1)
  show ?thesis
  proof (cases "elem_code_or_read DeCustom ec bs1")
    case (Inl e)
    then show ?thesis using Cons elem_code_sound(2) [of DeCustom ec bs1] by (simp add: deserialize_descriptor_def)
  next
    case (Inr r)
    obtain c bs2 where c: "elem_code_or_read DeCustom ec bs1 = Inr (c, bs2)" using Inr by (cases r) auto
    show ?thesis
    proof (cases "parse_scalar c bs2")
      case (Some p)
      show ?thesis
      proof (cases p)
        case (Inl e)
        then show ?thesis using Cons c Some scalar_sound(1) [OF Some] by (simp add: deserialize_descriptor_def)
      next
        case (Inr vr)
        obtain v rest where v: "p = Inr (v, rest)" using Inr by (cases vr) auto
        have "suffix rest bs2" "suffix bs2 bs1" "well_typed v"
          using scalar_sound(2) [OF Some v] elem_code_sound(1) [OF c] by simp_all
        then have "suffix rest bs1" by (blast intro: suffix_order.trans)
        then have "suffix rest bs" "length rest < length bs"
          using suffix_length_le [of rest bs1] Cons by (auto intro: suffix_ConsI)
        then show ?thesis
          using Cons c Some v \<open>well_typed v\<close> by (cases v) (simp_all add: deserialize_descriptor_def)
      qed
    qed (use Cons c in \<open>simp add: deserialize_descriptor_def\<close>)
  qed
qed (simp add: deserialize_descriptor_def)

lemma reads_on_map_compound:
  "reads_on True W ec bs r \<Longrightarrow> (\<And>x. W x \<Longrightarrow> well_typed (f x)) \<Longrightarrow> reads_on True well_typed ec bs (map_compound f r)"
  by (auto simp: reads_on_def map_compound_def split: sum.splits prod.splits)

lemma map_compound_fuel: "r \<noteq> Inl OutOfFuel \<Longrightarrow> map_compound f r \<noteq> Inl OutOfFuel"
  by (auto simp: map_compound_def split: sum.splits)

lemma reads_on_behind:
  assumes "reads_on p W ec rest r" and "suffix rest bs"
    and "solid ec \<Longrightarrow> p \<or> length rest < length bs"
  shows "reads_on True W ec bs r"
  unfolding reads_on_def
proof (intro allI impI)
  fix v ec1 rest1 assume "r = Inr (v, ec1, rest1)"
  then have r: "W v" "suffix rest1 rest" "solid ec \<longrightarrow> solid ec1 \<and> (p \<longrightarrow> length rest1 < length rest)"
    using assms(1) by (simp_all add: reads_on_def)
  have "suffix rest1 bs" using r(2) assms(2) by (rule suffix_order.trans)
  then show "W v \<and> suffix rest1 bs \<and> (solid ec \<longrightarrow> solid ec1 \<and> (True \<longrightarrow> length rest1 < length bs))"
    using r assms(3) suffix_length_le [OF r(2)] suffix_length_le [OF assms(2)] by auto
qed

definition value_ok :: "nat \<Rightarrow> encoding_code option \<Rightarrow> bytes \<Rightarrow> bool" where
  "value_ok k ec bs \<longleftrightarrow> (length bs < k \<longrightarrow> deserialize_value k ec bs \<noteq> Inl OutOfFuel) \<and>
     reads_on True well_typed ec bs (deserialize_value k ec bs)"

lemma solid_code:
  "elem_code_or_read DeCustom ec bs = Inr (c, rest) \<Longrightarrow> solid ec \<Longrightarrow> c \<noteq> CMap8 \<Longrightarrow> c \<noteq> CMap32 \<Longrightarrow>
   length rest < length bs"
  using elem_code_sound(1) [of DeCustom ec bs c rest] by (auto simp: solid_def)

lemma value_scalar:
  assumes "elem_code_or_read DeCustom ec bs = Inr (c, rest)" and "parse_scalar c rest = Some p"
  shows "value_ok (Suc k) ec bs"
proof (cases p)
  case (Inl e)
  then show ?thesis using assms scalar_sound(1) [OF assms(2)] by (simp add: value_ok_def reads_on_def)
next
  case (Inr vr)
  obtain v rest1 where v: "p = Inr (v, rest1)" using Inr by (cases vr) auto
  have "c \<noteq> CMap8" "c \<noteq> CMap32" using assms(2) by auto
  moreover have "reads_on False well_typed ec rest (Inr (v, ec, rest1))"
    using scalar_sound(2) [OF assms(2) v] by (simp add: reads_on_def)
  ultimately have "reads_on True well_typed ec bs (Inr (v, ec, rest1))"
    using elem_code_sound(1) [OF assms(1)] solid_code [OF assms(1)] by (blast intro: reads_on_behind)
  then show ?thesis using assms v by (simp add: value_ok_def)
qed

lemma value_list0:
  assumes "elem_code_or_read DeCustom ec bs = Inr (CList0, rest)"
  shows "value_ok (Suc k) ec bs"
proof -
  have "reads_on False well_typed ec rest (Inr (VList [], ec, rest))" by (simp add: reads_on_def)
  then have "reads_on True well_typed ec bs (Inr (VList [], ec, rest))"
    using elem_code_sound(1) [OF assms] solid_code [OF assms] by (blast intro: reads_on_behind)
  then show ?thesis using assms by (simp add: value_ok_def)
qed

text \<open>A compound behind its code: the input of the elements is shorter than the fuel.\<close>

lemma value_compound:
  assumes "elem_code_or_read DeCustom ec bs = Inr (c, rest)"
    and "deserialize_value (Suc k) ec bs = map_compound f r"
    and "length rest \<le> k \<Longrightarrow> r \<noteq> Inl OutOfFuel" and "reads_on True W ec rest r" and "\<And>x. W x \<Longrightarrow> well_typed (f x)"
  shows "value_ok (Suc k) ec bs"
proof -
  have rest: "suffix rest bs" using elem_code_sound(1) [OF assms(1)] by simp
  then have "length bs < Suc k \<Longrightarrow> length rest \<le> k" using suffix_length_le [of rest bs] by simp
  moreover have "reads_on True well_typed ec bs (map_compound f r)"
    using reads_on_behind [OF reads_on_map_compound [where f = f, OF assms(4) assms(5)] rest] by blast
  ultimately show ?thesis using assms(2,3) map_compound_fuel [of r f] by (simp add: value_ok_def)
qed

lemma value_described:
  assumes "sound_deserializer (deserialize_value k) k well_typed"
    and "elem_code_or_read DeCustom ec bs = Inr (CDescribedType, rest)"
  shows "value_ok (Suc k) ec bs"
proof (cases "deserialize_descriptor ec bs")
  case (Inl e)
  then show ?thesis using assms(2) descriptor_sound [of ec bs] by (simp add: value_ok_def reads_on_def)
next
  case (Inr dr)
  obtain d rest1 where d: "deserialize_descriptor ec bs = Inr (d, rest1)" using Inr by (cases dr) auto
  have dd: "typed_descriptor d" "suffix rest1 bs" "length rest1 < length bs"
    using descriptor_sound [of ec bs] d by simp_all
  have "reads_on True well_typed ec rest1 (map_compound (VDescribed d) (deserialize_value k ec rest1))"
    by (rule reads_on_map_compound [OF sound_deserializer.sound [OF assms(1)]]) (simp add: dd(1))
  then have "reads_on True well_typed ec bs (map_compound (VDescribed d) (deserialize_value k ec rest1))"
    using reads_on_behind dd(2) by blast
  then show ?thesis
    using assms(2) d dd(3) sound_deserializer.enough [OF assms(1), of rest1 ec]
    by (auto simp: value_ok_def reads_on_def map_compound_fuel split: list.split)
qed

lemma value_sequence:
  assumes "sound_deserializer (deserialize_value k) k well_typed"
    and "elem_code_or_read DeCustom ec bs = Inr (c, rest)" and "w = 1 \<or> w = 4"
  shows "deserialize_value (Suc k) ec bs = map_compound VList (deserialize_list (deserialize_value k) w rest) \<Longrightarrow>
      value_ok (Suc k) ec bs"
    and "deserialize_value (Suc k) ec bs = map_compound VArray (deserialize_array (deserialize_value k) w rest) \<Longrightarrow>
      value_ok (Suc k) ec bs"
  using sound_deserializer.deserialize_list_sound [OF assms(1,3)] sound_deserializer.deserialize_array_sound [OF assms(1,3)]
  by (auto intro!: value_compound [OF assms(2)])

lemma value_map:
  assumes "sound_deserializer (deserialize_value k) k well_typed"
    and "elem_code_or_read DeCustom ec bs = Inr (c, rest)" and "w = 1 \<or> w = 4" and "solid ec"
    and "deserialize_value (Suc k) ec bs =
      map_compound VMap (deserialize_map (deserialize_value k) (deserialize_value k) w ec rest)"
  shows "value_ok (Suc k) ec bs"
proof -
  have "sound_entries (deserialize_value k) (deserialize_value k) k well_typed well_typed"
    using assms(1) by (simp add: sound_entries_def)
  note entries = sound_entries.deserialize_map_sound [OF this assms(3,4)]
  show ?thesis
    by (rule value_compound [OF assms(2,5) entries]) (simp_all add: typed_entries_def)
qed

lemma sound_value: "sound_deserializer (deserialize_value k) k well_typed"
proof (induction k)
  case 0
  show ?case by unfold_locales (simp_all add: reads_on_def)
next
  case (Suc k)
  have "value_ok (Suc k) ec bs" for ec bs
  proof (cases "elem_code_or_read DeCustom ec bs")
    case (Inl e)
    then show ?thesis using elem_code_sound(2) [of DeCustom ec bs] by (simp add: value_ok_def reads_on_def)
  next
    case (Inr r)
    obtain c rest where c: "elem_code_or_read DeCustom ec bs = Inr (c, rest)" using Inr by (cases r) auto
    have "solid ec" if "c = CMap8 \<or> c = CMap32" using that elem_code_sound(1) [OF c] by (auto simp: solid_def)
    then show ?thesis
      using c value_scalar [OF c] value_list0 [of ec bs rest] value_described [OF Suc, of ec bs rest]
        value_sequence [OF Suc c, of 1] value_sequence [OF Suc c, of 4]
        value_map [OF Suc c, of 1] value_map [OF Suc c, of 4]
      by (cases c) simp_all
  qed
  then show ?case by unfold_locales (simp_all add: value_ok_def)
qed

interpretation value_decoder: sound_deserializer "deserialize_value k" k well_typed for k
  by (rule sound_value)

interpretation value_entries: sound_entries "deserialize_value k" "deserialize_value k" k well_typed well_typed for k
  by unfold_locales

text \<open>
  C29: Whatever bytes arrive, a value the decoder returns is well typed at every depth: decimals and
  UUIDs have their width, characters are Unicode scalar values, strings, symbols and descriptors are
  UTF-8, no map has a key twice and no list or array exceeds the limit; at least one byte was consumed
  and what is left is the end of the input. The nesting bound of the model is never reached.
\<close>

theorem decoded_value_well_typed:
  "from_slice bs \<noteq> Inl OutOfFuel \<and> (\<forall>v rest. from_slice bs = Inr (v, rest) \<longrightarrow>
     well_typed v \<and> (\<exists>used. used \<noteq> [] \<and> bs = used @ rest))"
proof -
  have "well_typed v \<and> (\<exists>used. used \<noteq> [] \<and> bs = used @ rest)"
    if "deserialize_value (Suc (length bs)) None bs = Inr (v, ec, rest)" for v ec rest
    using value_decoder.one [OF that] by (auto simp: solid_def suffix_def)
  moreover have "deserialize_value (Suc (length bs)) None bs \<noteq> Inl OutOfFuel"
    by (rule value_decoder.enough) simp
  ultimately show ?thesis
    by (cases "deserialize_value (Suc (length bs)) None bs") (auto simp: from_slice_def simp del: deserialize_value.simps)
qed

theorem decoded_value_well_typed_witness:
  "from_slice [0xa1, 1, 0x78, 0x40] = Inr (VString ''x'', [0x40]) \<and> well_typed (VString ''x'')"
proof -
  have "from_slice [0xa1, 1, 0x78, 0x40] = Inr (VString ''x'', [0x40])"
    by code_simp
  then show ?thesis using decoded_value_well_typed [of "[0xa1, 1, 0x78, 0x40]"] by blast
qed

end
