(* ===== verification/Link_Attach.thy ===== *)
theory Link_Attach
  imports Session_Engine Receiver_Link
begin

text \<open>
  The attach exchange of both link roles: what a link offers in its attach
  (fe2o3-amqp/src/link/mod.rs), how the termini of the peer are verified (link/source.rs,
  link/target_archetype.rs), how the attach of the peer is taken (link/sender_link.rs,
  link/receiver_link.rs), and what becomes of deliveries that were unsettled when the link was
  detached (link/resumption.rs). The type parameter of a link, \<open>Target\<close> or \<open>Coordinator\<close>, is an
  argument, and so is \<open>order\<close>, the keys of the unsettled map in the order of the index map that
  holds it.
\<close>

section \<open>Errors\<close>

datatype illegal_link_state_error = IlsIllegalState | IlsSessionStopped session_stop_reason

datatype sender_attach_error = SaSessionStopped session_stop_reason | SaSessionNotMapped
  | SaDuplicatedLinkName | SaIllegalState | SaNonAttachFrameReceived | SaExpectImmediateDetach
  | SaIncomingTargetIsNone | SaCoordinatorIsNotImplemented | SaSndSettleModeNotSupported
  | SaTargetAddressIsNoneWhenDynamicIsTrue | SaSourceAddressIsSomeWhenDynamicIsTrue
  | SaDynamicNodePropertiesIsSomeWhenDynamicIsFalse | SaDesireTxnCapabilitiesNotSupported
  | SaRemoteClosedWithError amqp_error

datatype receiver_attach_error = RaSessionStopped session_stop_reason | RaSessionNotMapped
  | RaDuplicatedLinkName | RaIllegalState | RaNonAttachFrameReceived | RaExpectImmediateDetach
  | RaIncomingSourceIsNone | RaCoordinatorIsNotImplemented | RaInitialDeliveryCountIsNone
  | RaTargetAddressIsSomeWhenDynamicIsTrue | RaSourceAddressIsNoneWhenDynamicIsTrue
  | RaDynamicNodePropertiesIsSomeWhenDynamicIsFalse | RaRemoteClosedWithError amqp_error
  | RaDesiredFilterNotSupported "symbol list"

definition illegal_or_stopped :: "session_stop_reason option \<Rightarrow> illegal_link_state_error" where
  "illegal_or_stopped r = (case r of Some reason \<Rightarrow> IlsSessionStopped reason | None \<Rightarrow> IlsIllegalState)"

fun sender_attach_error_of_state :: "illegal_link_state_error \<Rightarrow> sender_attach_error" where
  "sender_attach_error_of_state IlsIllegalState = SaIllegalState"
| "sender_attach_error_of_state (IlsSessionStopped reason) = SaSessionStopped reason"

fun receiver_attach_error_of_state :: "illegal_link_state_error \<Rightarrow> receiver_attach_error" where
  "receiver_attach_error_of_state IlsIllegalState = RaIllegalState"
| "receiver_attach_error_of_state (IlsSessionStopped reason) = RaSessionStopped reason"

fun sender_attach_error_of_alloc :: "alloc_link_error \<Rightarrow> sender_attach_error" where
  "sender_attach_error_of_alloc SessionNotMapped = SaSessionNotMapped"
| "sender_attach_error_of_alloc (SessionStopped reason) = SaSessionStopped reason"
| "sender_attach_error_of_alloc DuplicatedLinkName = SaDuplicatedLinkName"

fun receiver_attach_error_of_alloc :: "alloc_link_error \<Rightarrow> receiver_attach_error" where
  "receiver_attach_error_of_alloc SessionNotMapped = RaSessionNotMapped"
| "receiver_attach_error_of_alloc (SessionStopped reason) = RaSessionStopped reason"
| "receiver_attach_error_of_alloc DuplicatedLinkName = RaDuplicatedLinkName"

fun sender_attach_error_of_detach :: "detach_error \<Rightarrow> sender_attach_error option" where
  "sender_attach_error_of_detach DeIllegalState = Some SaIllegalState"
| "sender_attach_error_of_detach (DeSessionStopped reason) = Some (SaSessionStopped reason)"
| "sender_attach_error_of_detach (DeRemoteDetachedWithError e) = Some (SaRemoteClosedWithError e)"
| "sender_attach_error_of_detach (DeRemoteClosedWithError e) = Some (SaRemoteClosedWithError e)"
| "sender_attach_error_of_detach DeClosedByRemote = None"
| "sender_attach_error_of_detach DeDetachedByRemote = None"

fun receiver_attach_error_of_detach :: "detach_error \<Rightarrow> receiver_attach_error option" where
  "receiver_attach_error_of_detach DeIllegalState = Some RaIllegalState"
| "receiver_attach_error_of_detach (DeSessionStopped reason) = Some (RaSessionStopped reason)"
| "receiver_attach_error_of_detach (DeRemoteDetachedWithError e) = Some (RaRemoteClosedWithError e)"
| "receiver_attach_error_of_detach (DeRemoteClosedWithError e) = Some (RaRemoteClosedWithError e)"
| "receiver_attach_error_of_detach DeClosedByRemote = None"
| "receiver_attach_error_of_detach DeDetachedByRemote = None"

text \<open>
  The error sent to the peer for an attach error, \<open>None\<close> where the conversion fails. The argument
  \<open>debug\<close> is the output of the derived \<open>Debug\<close>.
\<close>

fun error_of_sender_attach :: "(sender_attach_error \<Rightarrow> string) \<Rightarrow> sender_attach_error \<Rightarrow> amqp_error option" where
  "error_of_sender_attach debug e =
     map_option (\<lambda>c. condition_error c (Some (debug e)))
       (case e of
          SaSessionStopped _ \<Rightarrow> Some (AmqpError AmqpIllegalState)
        | SaDuplicatedLinkName \<Rightarrow> Some (SessionError SeHandleInUse)
        | SaIllegalState \<Rightarrow> Some (AmqpError AmqpIllegalState)
        | SaNonAttachFrameReceived \<Rightarrow> Some (AmqpError NotAllowed)
        | SaExpectImmediateDetach \<Rightarrow> Some (AmqpError NotAllowed)
        | SaCoordinatorIsNotImplemented \<Rightarrow> Some (AmqpError NotImplemented)
        | SaDynamicNodePropertiesIsSomeWhenDynamicIsFalse \<Rightarrow> Some (AmqpError InvalidField)
        | SaTargetAddressIsNoneWhenDynamicIsTrue \<Rightarrow> Some (AmqpError InvalidField)
        | SaSourceAddressIsSomeWhenDynamicIsTrue \<Rightarrow> Some (AmqpError InvalidField)
        | _ \<Rightarrow> None)"

fun error_of_receiver_attach :: "(receiver_attach_error \<Rightarrow> string) \<Rightarrow> receiver_attach_error \<Rightarrow> amqp_error option" where
  "error_of_receiver_attach debug e =
     map_option (\<lambda>c. condition_error c (Some (debug e)))
       (case e of
          RaSessionStopped _ \<Rightarrow> Some (AmqpError AmqpIllegalState)
        | RaDuplicatedLinkName \<Rightarrow> Some (SessionError SeHandleInUse)
        | RaIllegalState \<Rightarrow> Some (AmqpError AmqpIllegalState)
        | RaNonAttachFrameReceived \<Rightarrow> Some (AmqpError NotAllowed)
        | RaExpectImmediateDetach \<Rightarrow> Some (AmqpError NotAllowed)
        | RaCoordinatorIsNotImplemented \<Rightarrow> Some (AmqpError NotImplemented)
        | RaInitialDeliveryCountIsNone \<Rightarrow> Some (AmqpError InvalidField)
        | RaTargetAddressIsSomeWhenDynamicIsTrue \<Rightarrow> Some (AmqpError InvalidField)
        | RaSourceAddressIsNoneWhenDynamicIsTrue \<Rightarrow> Some (AmqpError InvalidField)
        | RaDynamicNodePropertiesIsSomeWhenDynamicIsFalse \<Rightarrow> Some (AmqpError InvalidField)
        | _ \<Rightarrow> None)"

section \<open>The attach a link sends\<close>

text \<open>The entries of a map in the order of its index map.\<close>

definition entries_in :: "'k list \<Rightarrow> ('k \<rightharpoonup> 'v) \<Rightarrow> ('k \<times> 'v) list" where
  "entries_in order m = List.map_filter (\<lambda>k. map_option (Pair k) (m k)) order"

definition get_unsettled_map ::
    "('m \<Rightarrow> delivery_state option) \<Rightarrow> delivery_tag list \<Rightarrow> ('m, 'x) link_scheme \<Rightarrow> bool \<Rightarrow> nat \<Rightarrow>
     (delivery_tag \<times> delivery_state option) list option" where
  "get_unsettled_map as_delivery_state order l is_reattaching partial_unsettled =
     (if is_reattaching then None
      else case l_unsettled l of
        None \<Rightarrow> None
      | Some m \<Rightarrow>
          (let entries = map (\<lambda>(tag, v). (tag, as_delivery_state v)) (entries_in order m) in
           if length entries = 0 then None
           else if partial_unsettled \<le> 1 then Some entries
           else Some (take (length entries div partial_unsettled) entries)))"

definition as_attach_inner ::
    "role \<Rightarrow> ('m \<Rightarrow> delivery_state option) \<Rightarrow> delivery_tag list \<Rightarrow> ('m, 'x) link_scheme \<Rightarrow> u32 \<Rightarrow> bool \<Rightarrow>
     nat \<Rightarrow> attach" where
  "as_attach_inner role as_delivery_state order l handle is_reattaching partial_unsettled =
     \<lparr>at_name = l_name l, at_handle = handle, at_role = role,
      at_snd_settle_mode = l_snd_settle_mode l, at_rcv_settle_mode = l_rcv_settle_mode l,
      at_source = l_source l, at_target = l_target l,
      at_unsettled = get_unsettled_map as_delivery_state order l is_reattaching partial_unsettled,
      at_incomplete_unsettled = (\<not> partial_unsettled \<le> 1),
      at_initial_delivery_count = Some (initial_delivery_count (l_flow_state l)),
      at_max_message_size = (if l_max_message_size l = 0 then None else Some (l_max_message_size l)),
      at_offered_capabilities = l_offered_capabilities l,
      at_desired_capabilities = l_desired_capabilities l,
      at_properties = properties (l_flow_state l)\<rparr>"

text \<open>
  The loop of \<open>as_maybe_incomplete_attach\<close>: \<open>mk\<close> makes the attach for a denominator. \<open>None\<close> means that
  the loop does not end.
\<close>

partial_function (option) shrink_attach ::
    "(nat \<Rightarrow> attach) \<Rightarrow> nat \<Rightarrow> nat \<Rightarrow> (illegal_link_state_error + attach) option" where
  "shrink_attach mk max_frame_size denominator =
     (case field_size (attach_composite (mk denominator)) of
        Inl _ \<Rightarrow> Some (Inl IlsIllegalState)
      | Inr n \<Rightarrow>
          if max_frame_size < n then shrink_attach mk max_frame_size (denominator * 2 mod 2 ^ 64)
          else Some (Inr (mk denominator)))"

definition as_maybe_incomplete_attach ::
    "role \<Rightarrow> ('m \<Rightarrow> delivery_state option) \<Rightarrow> delivery_tag list \<Rightarrow> ('m, 'x) link_scheme \<Rightarrow> nat \<Rightarrow> u32 \<Rightarrow> bool \<Rightarrow>
     (illegal_link_state_error + attach) option" where
  "as_maybe_incomplete_attach role as_delivery_state order l max_frame_size handle is_reattaching =
     shrink_attach (as_attach_inner role as_delivery_state order l handle is_reattaching) max_frame_size 1"

definition send_attach_inner ::
    "role \<Rightarrow> ('m \<Rightarrow> delivery_state option) \<Rightarrow> delivery_tag list \<Rightarrow> ('m, 'x) link_scheme \<Rightarrow> link_frame chan \<Rightarrow>
     bool \<Rightarrow> (('m, 'x) link_scheme \<times> link_frame chan \<times> (illegal_link_state_error + unit)) option" where
  "send_attach_inner role as_delivery_state order l w is_reattaching =
     (case l_output_handle l of
        None \<Rightarrow> Some (l, w, Inl IlsIllegalState)
      | Some handle \<Rightarrow>
          (let l1 = (if is_reattaching then l\<lparr>l_unsettled := None\<rparr> else l);
               made = (case l_unsettled l1 of
                         Some m \<Rightarrow>
                           if entries_in order m = []
                           then Some (Inr (as_attach_inner role as_delivery_state order l1 handle is_reattaching 1))
                           else as_maybe_incomplete_attach role as_delivery_state order l1 (l_max_frame_size l1)
                                  handle is_reattaching
                       | None \<Rightarrow> Some (Inr (as_attach_inner role as_delivery_state order l1 handle is_reattaching 1)));
               go = (\<lambda>a complete incomplete.
                       case chan_send w (LfAttach a) of
                         None \<Rightarrow> (l1, w, Inl (illegal_or_stopped (l_session_stop_reason l1)))
                       | Some w1 \<Rightarrow>
                           (l1\<lparr>l_local_state := if at_incomplete_unsettled a then incomplete else complete\<rparr>, w1, Inr ()))
           in case made of
                None \<Rightarrow> None
              | Some (Inl e) \<Rightarrow> Some (l1, w, Inl e)
              | Some (Inr a) \<Rightarrow> Some
                  (case l_local_state l1 of
                     LkUnattached \<Rightarrow> go a LkAttachSent LkIncompleteAttachSent
                   | LkDetached \<Rightarrow> go a LkAttachSent LkIncompleteAttachSent
                   | LkDetachSent \<Rightarrow> go a LkAttachSent LkIncompleteAttachSent
                   | LkAttachReceived \<Rightarrow> go a LkAttached LkIncompleteAttachExchanged
                   | _ \<Rightarrow> (l1, w, Inl IlsIllegalState))))"

section \<open>Verification of the termini\<close>

definition verify_source_as_sender :: "source \<Rightarrow> source \<Rightarrow> sender_attach_error + unit" where
  "verify_source_as_sender mine other =
     (if src_dynamic other \<and> src_address other \<noteq> None then Inl SaSourceAddressIsSomeWhenDynamicIsTrue
      else if \<not> src_dynamic other \<and> src_dynamic_node_properties other \<noteq> None
      then Inl SaDynamicNodePropertiesIsSomeWhenDynamicIsFalse
      else Inr ())"

definition verify_filter :: "fields option \<Rightarrow> fields option \<Rightarrow> symbol list + unit" where
  "verify_filter desired supported =
     (case desired of
        None \<Rightarrow> Inr ()
      | Some d \<Rightarrow>
          (let missing = filter (\<lambda>key. case Option.bind supported (\<lambda>m. map_of m key) of
                                         None \<Rightarrow> True | Some v \<Rightarrow> v = VNull) (map fst d)
           in if missing = [] then Inr () else Inl missing))"

definition verify_source_as_receiver :: "source \<Rightarrow> source \<Rightarrow> receiver_attach_error + unit" where
  "verify_source_as_receiver mine other =
     (case verify_filter (src_filter mine) (src_filter other) of
        Inl missing \<Rightarrow> Inl (RaDesiredFilterNotSupported missing)
      | Inr _ \<Rightarrow>
          if src_dynamic other \<and> src_address other = None then Inl RaSourceAddressIsNoneWhenDynamicIsTrue
          else if \<not> src_dynamic other \<and> src_dynamic_node_properties other \<noteq> None
          then Inl RaDynamicNodePropertiesIsSomeWhenDynamicIsFalse
          else Inr ())"

definition verify_capabilities :: "txn_capability list option \<Rightarrow> txn_capability list option \<Rightarrow> bool" where
  "verify_capabilities desired provided =
     (case desired of
        None \<Rightarrow> True
      | Some ds \<Rightarrow> (case provided of Some ps \<Rightarrow> list_all (\<lambda>c. c \<in> set ps) ds | None \<Rightarrow> ds = []))"

text \<open>Both termini of a link have the type of the link, so the mixed cases do not occur.\<close>

fun verify_target_as_sender :: "target_archetype \<Rightarrow> target_archetype \<Rightarrow> sender_attach_error + unit" where
  "verify_target_as_sender (ATarget _) (ATarget other) =
     (if tgt_dynamic other \<and> tgt_address other = None then Inl SaTargetAddressIsNoneWhenDynamicIsTrue
      else if \<not> tgt_dynamic other \<and> tgt_dynamic_node_properties other \<noteq> None
      then Inl SaDynamicNodePropertiesIsSomeWhenDynamicIsFalse
      else Inr ())"
| "verify_target_as_sender (ACoordinator desired) (ACoordinator provided) =
     (if verify_capabilities desired provided then Inr () else Inl SaDesireTxnCapabilitiesNotSupported)"
| "verify_target_as_sender _ _ = Inr ()"

fun verify_target_as_receiver :: "target_archetype \<Rightarrow> target_archetype \<Rightarrow> receiver_attach_error + unit" where
  "verify_target_as_receiver (ATarget _) (ATarget other) =
     (if tgt_dynamic other \<and> tgt_address other \<noteq> None then Inl RaTargetAddressIsSomeWhenDynamicIsTrue
      else if \<not> tgt_dynamic other \<and> tgt_dynamic_node_properties other \<noteq> None
      then Inl RaDynamicNodePropertiesIsSomeWhenDynamicIsFalse
      else Inr ())"
| "verify_target_as_receiver _ _ = Inr ()"

datatype target_type = TypeTarget | TypeCoordinator

fun target_try_from :: "target_type \<Rightarrow> target_archetype \<Rightarrow> target_archetype option" where
  "target_try_from TypeTarget (ATarget t) = Some (ATarget t)"
| "target_try_from TypeCoordinator (ACoordinator c) = Some (ACoordinator c)"
| "target_try_from _ _ = None"

section \<open>Resuming deliveries\<close>

text \<open>
  The \<open>oneshot\<close> of a delivery is the entry of \<open>sl_resolved\<close> under its tag; the flag of \<open>RdAbort\<close> says
  whether there is one.
\<close>

datatype resuming_delivery = RdAbort u32 bool | RdResend unsettled_message | RdResume unsettled_message
  | RdRestateOutcome payload delivery_state u32

fun split_loop :: "nat \<Rightarrow> nat \<Rightarrow> nat \<Rightarrow> nat option \<Rightarrow> nat \<Rightarrow> bytes \<Rightarrow> nat option" where
  "split_loop section_number offset i counter last_index (b0 # b1 # b2 # bs) =
     (let header = is_section_header b0 b1 b2;
          counter1 = (if header then (case counter of Some v \<Rightarrow> Some (v + 1) | None \<Rightarrow> Some 0) else counter);
          last1 = (if header then i else last_index)
      in if counter1 = Some section_number \<and> i - last1 = offset then Some i
         else split_loop section_number offset (Suc i) counter1 last1 (b1 # b2 # bs))"
| "split_loop section_number offset i counter last_index _ = None"

definition split_off_at_section_and_offset :: "payload \<Rightarrow> nat \<Rightarrow> nat \<Rightarrow> payload option" where
  "split_off_at_section_and_offset payload section_number offset =
     map_option (\<lambda>i. drop i payload) (split_loop section_number offset 0 None 0 payload)"

definition resume_at :: "unsettled_message \<Rightarrow> u32 \<Rightarrow> u64 \<Rightarrow> resuming_delivery" where
  "resume_at u number offset =
     RdResume (u\<lparr>um_payload :=
       (case split_off_at_section_and_offset (um_payload u) (unat number) (unat offset) of
          Some remaining \<Rightarrow> remaining
        | None \<Rightarrow> um_payload u)\<rparr>)"

fun is_transactional :: "delivery_state \<Rightarrow> bool" where
  "is_transactional (Declared _) = True"
| "is_transactional (TransactionalState _ _) = True"
| "is_transactional _ = False"

definition transactional :: "delivery_state option \<Rightarrow> bool" where
  "transactional s = (case s of Some st \<Rightarrow> is_transactional st | None \<Rightarrow> False)"

fun same_outcome :: "delivery_state \<Rightarrow> delivery_state \<Rightarrow> bool" where
  "same_outcome Accepted Accepted = True"
| "same_outcome (Modified _) (Modified _) = True"
| "same_outcome (Rejected _) (Rejected _) = True"
| "same_outcome Released Released = True"
| "same_outcome _ _ = False"

text \<open>Either the delivery is settled, with what its \<open>oneshot\<close> gets, or it has to be resumed.\<close>

definition resume_delivery ::
    "unsettled_message \<Rightarrow> delivery_state option option \<Rightarrow> resolution + resuming_delivery" where
  "resume_delivery u remote =
     (let remote_state = map_option (\<lambda>inner. case inner of Some st \<Rightarrow> st | None \<Rightarrow> Received 0 0) remote;
          abort = Inr (RdAbort (um_message_format u) True)
      in if transactional remote_state \<or> transactional (um_state u) then abort
         else case (um_state u, remote_state) of
           (None, None) \<Rightarrow> Inr (RdResend u)
         | (None, Some (Received number offset)) \<Rightarrow> Inr (resume_at u number offset)
         | (None, Some st) \<Rightarrow> Inl (Inr (Some st))
         | (Some (Received _ _), None) \<Rightarrow> Inr (RdResend u)
         | (Some (Received n off), Some (Received number offset)) \<Rightarrow>
             if n < number \<or> n = number \<and> off \<le> offset then Inr (resume_at u number offset) else abort
         | (Some (Received _ _), Some st) \<Rightarrow> Inl (Inr (Some st))
         | (Some st, None) \<Rightarrow> Inl (Inr (Some st))
         | (Some st, Some (Received _ _)) \<Rightarrow> abort
         | (Some st, Some st') \<Rightarrow>
             if same_outcome st st' then Inl (Inr (Some st))
             else Inr (RdRestateOutcome (um_payload u) st (um_message_format u)))"

datatype sender_attach_exchange = SaeComplete
  | SaeIncompleteUnsettled "(delivery_tag \<times> resuming_delivery) list"
  | SaeResume "(delivery_tag \<times> resuming_delivery) list"

text \<open>\<open>swap_remove\<close> of an index map: the last entry takes the place of the one that is removed.\<close>

definition swap_remove :: "('k \<times> 'v) list \<Rightarrow> 'k \<Rightarrow> ('k \<times> 'v) list \<times> 'v option" where
  "swap_remove m k =
     (case map_of m k of
        None \<Rightarrow> (m, None)
      | Some v \<Rightarrow> (butlast (m[length (takeWhile (\<lambda>e. fst e \<noteq> k) m) := last m]), Some v))"

text \<open>The local deliveries one by one: those to resume, those settled, and what is left of the remote map.\<close>

fun resume_locals ::
    "(delivery_tag \<times> unsettled_message) list \<Rightarrow> (delivery_tag \<times> delivery_state option) list \<Rightarrow>
     (delivery_tag \<times> resuming_delivery) list \<times> (delivery_tag \<times> resolution) list
       \<times> (delivery_tag \<times> delivery_state option) list" where
  "resume_locals [] remote = ([], [], remote)"
| "resume_locals ((tag, u) # us) remote =
     (case swap_remove remote tag of
        (remote1, r) \<Rightarrow>
          (case resume_locals us remote1 of
             (resuming, settled, rest) \<Rightarrow>
               (case resume_delivery u r of
                  Inl res \<Rightarrow> (resuming, (tag, res) # settled, rest)
                | Inr d \<Rightarrow> ((tag, d) # resuming, settled, rest))))"

definition MESSAGE_FORMAT :: u32 where
  "MESSAGE_FORMAT = 0"

definition abort_unknown ::
    "(delivery_tag \<times> delivery_state option) list \<Rightarrow> (delivery_tag \<times> resuming_delivery) list" where
  "abort_unknown remote = map (\<lambda>(tag, _). (tag, RdAbort MESSAGE_FORMAT False)) remote"

definition sender_handle_unsettled_in_attach ::
    "delivery_tag list \<Rightarrow> sender_link \<Rightarrow> (delivery_tag \<times> delivery_state option) list option \<Rightarrow>
     sender_link \<times> sender_attach_exchange" where
  "sender_handle_unsettled_in_attach order l remote_unsettled =
     (let l1 = l\<lparr>l_unsettled := None\<rparr>;
          exchange = (\<lambda>v. if l_local_state l1 \<in> {LkIncompleteAttachReceived, LkIncompleteAttachSent,
                              LkIncompleteAttachExchanged}
                          then SaeIncompleteUnsettled v else SaeResume v);
          settle = (\<lambda>settled. l1\<lparr>sl_resolved := sl_resolved l1 ++ map_of settled\<rparr>)
      in case (map_option (entries_in order) (l_unsettled l), remote_unsettled) of
           (None, None) \<Rightarrow> (l1, SaeComplete)
         | (None, Some remote) \<Rightarrow>
             if remote = [] then (l1, SaeComplete) else (l1, exchange (abort_unknown remote))
         | (Some mine, None) \<Rightarrow>
             if mine = [] then (l1, SaeComplete)
             else (case resume_locals mine [] of
                     (resuming, settled, _) \<Rightarrow> (settle settled, exchange resuming))
         | (Some mine, Some remote) \<Rightarrow>
             if mine = [] \<and> remote = [] then (l1, SaeComplete)
             else (case resume_locals mine remote of
                     (resuming, settled, rest) \<Rightarrow>
                       (settle settled, exchange (resuming @ abort_unknown rest))))"

section \<open>The attach of the peer\<close>

definition attach_received_state :: "link_state \<Rightarrow> bool \<Rightarrow> link_state option" where
  "attach_received_state st incomplete =
     (case st of
        LkAttachSent \<Rightarrow> Some (if incomplete then LkIncompleteAttachExchanged else LkAttached)
      | LkIncompleteAttachSent \<Rightarrow> Some LkIncompleteAttachExchanged
      | LkUnattached \<Rightarrow> Some (if incomplete then LkIncompleteAttachReceived else LkAttachReceived)
      | LkDetached \<Rightarrow> Some (if incomplete then LkIncompleteAttachReceived else LkAttachReceived)
      | _ \<Rightarrow> None)"

definition extend_properties :: "fields option \<Rightarrow> fields option \<Rightarrow> fields option" where
  "extend_properties mine remote =
     (case remote of
        None \<Rightarrow> mine
      | Some r \<Rightarrow> Some (foldl (\<lambda>m (k, v). index_map_insert m k v) (case mine of Some m \<Rightarrow> m | None \<Rightarrow> []) r))"

definition try_targets ::
    "target_type \<Rightarrow> target_archetype option \<Rightarrow> target_archetype option option" where
  "try_targets ty remote =
     (case remote of None \<Rightarrow> Some None | Some t \<Rightarrow> map_option Some (target_try_from ty t))"

definition sender_on_incoming_attach ::
    "target_type \<Rightarrow> delivery_tag list \<Rightarrow> sender_link \<Rightarrow> attach \<Rightarrow>
     sender_link \<times> (sender_attach_error + sender_attach_exchange)" where
  "sender_on_incoming_attach ty order l a =
     (case attach_received_state (l_local_state l) (at_incomplete_unsettled a) of
        None \<Rightarrow> (l, Inl SaIllegalState)
      | Some st \<Rightarrow>
          (let l1 = l\<lparr>l_local_state := st, l_input_handle := Some (at_handle a)\<rparr>;
               source = (case (l_source l1, at_source a) of
                           (Some mine, Some remote) \<Rightarrow>
                             if l_verify_incoming_source l1 then verify_source_as_sender mine remote else Inr ()
                         | _ \<Rightarrow> Inr ())
           in case source of
                Inl e \<Rightarrow> (l1, Inl e)
              | Inr _ \<Rightarrow>
                  (case try_targets ty (at_target a) of
                     None \<Rightarrow> (l1, Inl SaCoordinatorIsNotImplemented)
                   | Some None \<Rightarrow> (l1, Inl SaIncomingTargetIsNone)
                   | Some (Some remote) \<Rightarrow>
                       (case (case l_target l1 of
                                Some mine \<Rightarrow>
                                  if l_verify_incoming_target l1 then verify_target_as_sender mine remote else Inr ()
                              | None \<Rightarrow> Inr ()) of
                          Inl e \<Rightarrow> (l1, Inl e)
                        | Inr _ \<Rightarrow>
                            (let l2 = l1\<lparr>l_target := Some remote, l_rcv_settle_mode := at_rcv_settle_mode a\<rparr> in
                             if (l_snd_settle_mode l2, at_snd_settle_mode a) \<in> {(Settled, Unsettled), (Unsettled, Settled)}
                             then (l2, Inl SaSndSettleModeNotSupported)
                             else
                               (let l3 = l2\<lparr>l_max_message_size :=
                                      get_max_message_size (l_max_message_size l2) (at_max_message_size a),
                                      l_flow_state := (l_flow_state l2)\<lparr>properties :=
                                        extend_properties (properties (l_flow_state l2)) (at_properties a)\<rparr>\<rparr>
                                in case sender_handle_unsettled_in_attach order l3 (at_unsettled a) of
                                     (l4, x) \<Rightarrow> (l4, Inr x)))))))"

datatype receiver_attach_exchange = RaeComplete | RaeIncompleteUnsettled | RaeResume

definition receiver_handle_unsettled_in_attach ::
    "link_state \<Rightarrow> (delivery_tag \<times> delivery_state option) list option \<Rightarrow> receiver_attach_exchange" where
  "receiver_handle_unsettled_in_attach st remote_unsettled =
     (if remote_unsettled = None \<or> remote_unsettled = Some [] then RaeComplete
      else if st \<in> {LkIncompleteAttachReceived, LkIncompleteAttachSent, LkIncompleteAttachExchanged}
      then RaeIncompleteUnsettled
      else RaeResume)"

definition receiver_on_incoming_attach ::
    "target_type \<Rightarrow> receiver_link \<Rightarrow> attach \<Rightarrow>
     receiver_link \<times> (receiver_attach_error + receiver_attach_exchange)" where
  "receiver_on_incoming_attach ty l a =
     (case attach_received_state (l_local_state l) (at_incomplete_unsettled a) of
        None \<Rightarrow> (l, Inl RaIllegalState)
      | Some st \<Rightarrow>
          (let l1 = l\<lparr>l_local_state := st, l_input_handle := Some (at_handle a)\<rparr> in
           case at_source a of
             None \<Rightarrow> (l1, Inl RaIncomingSourceIsNone)
           | Some remote_source \<Rightarrow>
               (case (case l_source l1 of
                        Some mine \<Rightarrow>
                          if l_verify_incoming_source l1 then verify_source_as_receiver mine remote_source else Inr ()
                      | None \<Rightarrow> Inr ()) of
                  Inl e \<Rightarrow> (l1, Inl e)
                | Inr _ \<Rightarrow>
                    (let l2 = l1\<lparr>l_source := Some remote_source, l_snd_settle_mode := at_snd_settle_mode a\<rparr> in
                     case at_initial_delivery_count a of
                       None \<Rightarrow> (l2, Inl RaInitialDeliveryCountIsNone)
                     | Some initial \<Rightarrow>
                         (case try_targets ty (at_target a) of
                            None \<Rightarrow> (l2, Inl RaCoordinatorIsNotImplemented)
                          | Some remote_target \<Rightarrow>
                              (case (case (l_target l2, remote_target) of
                                       (Some mine, Some remote) \<Rightarrow>
                                         if l_verify_incoming_target l2 then verify_target_as_receiver mine remote
                                         else Inr ()
                                     | _ \<Rightarrow> Inr ()) of
                                 Inl e \<Rightarrow> (l2, Inl e)
                               | Inr _ \<Rightarrow>
                                   (let l3 = l2\<lparr>l_max_message_size :=
                                          get_max_message_size (l_max_message_size l2) (at_max_message_size a),
                                          l_flow_state := (l_flow_state l2)\<lparr>initial_delivery_count := initial,
                                            delivery_count := initial, properties :=
                                            extend_properties (properties (l_flow_state l2)) (at_properties a)\<rparr>\<rparr>
                                    in (l3, Inr (receiver_handle_unsettled_in_attach (l_local_state l3)
                                              (at_unsettled a))))))))))"

section \<open>The exchange\<close>

text \<open>
  \<open>reader\<close> is what the session will still forward to the link, the empty list a closed channel. The
  result is the link, the writer, the rest of the reader and the outcome.
\<close>

definition sender_exchange_attach ::
    "target_type \<Rightarrow> delivery_tag list \<Rightarrow> sender_link \<Rightarrow> link_frame chan \<Rightarrow> link_frame list \<Rightarrow> bool \<Rightarrow>
     (sender_link \<times> link_frame chan \<times> link_frame list \<times> (sender_attach_error + sender_attach_exchange)) option" where
  "sender_exchange_attach ty order l w reader is_reattaching =
     (case send_attach_inner Sender um_state order l w is_reattaching of
        None \<Rightarrow> None
      | Some (l1, w1, Inl e) \<Rightarrow> Some (l1, w1, reader, Inl (sender_attach_error_of_state e))
      | Some (l1, w1, Inr _) \<Rightarrow> Some
          (case reader of
             [] \<Rightarrow> (l1, w1, [], Inl (sender_attach_error_of_state (illegal_or_stopped (l_session_stop_reason l1))))
           | LfAttach a # rest \<Rightarrow>
               (case sender_on_incoming_attach ty order l1 a of (l2, r) \<Rightarrow> (l2, w1, rest, r))
           | _ # rest \<Rightarrow> (l1, w1, rest, Inl SaNonAttachFrameReceived)))"

definition receiver_exchange_attach ::
    "target_type \<Rightarrow> delivery_tag list \<Rightarrow> receiver_link \<Rightarrow> link_frame chan \<Rightarrow> link_frame list \<Rightarrow> bool \<Rightarrow>
     (receiver_link \<times> link_frame chan \<times> link_frame list
       \<times> (receiver_attach_error + receiver_attach_exchange)) option" where
  "receiver_exchange_attach ty order l w reader is_reattaching =
     (case send_attach_inner Receiver id order l w is_reattaching of
        None \<Rightarrow> None
      | Some (l1, w1, Inl e) \<Rightarrow> Some (l1, w1, reader, Inl (receiver_attach_error_of_state e))
      | Some (l1, w1, Inr _) \<Rightarrow> Some
          (case reader of
             [] \<Rightarrow> (l1, w1, [], Inl (receiver_attach_error_of_state (illegal_or_stopped (l_session_stop_reason l1))))
           | LfAttach a # rest \<Rightarrow>
               (case receiver_on_incoming_attach ty l1 a of (l2, r) \<Rightarrow> (l2, w1, rest, r))
           | _ # rest \<Rightarrow> (l1, w1, rest, Inl RaNonAttachFrameReceived)))"

text \<open>\<open>recv_detach\<close> of both roles: the reply to the detach just sent.\<close>

definition recv_detach ::
    "(illegal_link_state_error \<Rightarrow> 'e) \<Rightarrow> (detach_error \<Rightarrow> 'e option) \<Rightarrow> 'e \<Rightarrow>
     ('m, 'x) link_scheme \<Rightarrow> link_frame list \<Rightarrow> 'e \<Rightarrow> ('m, 'x) link_scheme \<times> link_frame list \<times> 'e" where
  "recv_detach of_state of_detach non_attach l reader err =
     (case reader of
        [] \<Rightarrow> (l, [], of_state (illegal_or_stopped (l_session_stop_reason l)))
      | LfDetach d # rest \<Rightarrow>
          (case on_detach_reply l d of
             (l1, Inr _) \<Rightarrow> (l1, rest, err)
           | (l1, Inl e) \<Rightarrow> (l1, rest, case of_detach e of Some x \<Rightarrow> x | None \<Rightarrow> err))
      | _ # rest \<Rightarrow> (l, rest, non_attach))"

definition try_detach_with_error ::
    "(sender_attach_error \<Rightarrow> string) \<Rightarrow> sender_link \<Rightarrow> link_frame chan \<Rightarrow> link_frame list \<Rightarrow> sender_attach_error \<Rightarrow>
     sender_link \<times> link_frame chan \<times> link_frame list \<times> sender_attach_error" where
  "try_detach_with_error debug l w reader attach_error =
     (case error_of_sender_attach debug attach_error of
        None \<Rightarrow> (l, w, reader, attach_error)
      | Some err \<Rightarrow>
          (case send_detach l w True (Some err) of
             (l1, w1, Inl _) \<Rightarrow>
               (l1, w1, reader, sender_attach_error_of_state (illegal_or_stopped (l_session_stop_reason l1)))
           | (l1, w1, Inr _) \<Rightarrow>
               (case reader of
                  [] \<Rightarrow> (l1, w1, [], sender_attach_error_of_state (illegal_or_stopped (l_session_stop_reason l1)))
                | LfDetach d # rest \<Rightarrow> (fst (on_detach_reply l1 d), w1, rest, attach_error)
                | _ # rest \<Rightarrow> (l1, w1, rest, SaNonAttachFrameReceived))))"

definition end_for_duplicate ::
    "session_control chan \<Rightarrow> session_control chan option" where
  "end_for_duplicate session =
     chan_send session (ScEnd (Some (condition_error (SessionError SeHandleInUse) (Some ''Link name is in use''))))"

definition sender_handle_attach_error ::
    "(sender_attach_error \<Rightarrow> string) \<Rightarrow> sender_link \<Rightarrow> link_frame chan \<Rightarrow> link_frame list \<Rightarrow> session_control chan \<Rightarrow>
     sender_attach_error \<Rightarrow>
     sender_link \<times> link_frame chan \<times> link_frame list \<times> session_control chan \<times> sender_attach_error" where
  "sender_handle_attach_error debug l w reader session attach_error =
     (let stopped = (\<lambda>l. sender_attach_error_of_state (illegal_or_stopped (l_session_stop_reason l)));
          try_detach = (case try_detach_with_error debug l w reader attach_error of
                          (l1, w1, rest, e) \<Rightarrow> (l1, w1, rest, session, e))
      in case attach_error of
           SaSessionStopped _ \<Rightarrow> (l, w, reader, session, attach_error)
         | SaSessionNotMapped \<Rightarrow> (l, w, reader, session, attach_error)
         | SaIllegalState \<Rightarrow> (l, w, reader, session, attach_error)
         | SaNonAttachFrameReceived \<Rightarrow> (l, w, reader, session, attach_error)
         | SaExpectImmediateDetach \<Rightarrow> (l, w, reader, session, attach_error)
         | SaRemoteClosedWithError _ \<Rightarrow> (l, w, reader, session, attach_error)
         | SaDuplicatedLinkName \<Rightarrow>
             (case end_for_duplicate session of
                Some session1 \<Rightarrow> (l, w, reader, session1, attach_error)
              | None \<Rightarrow> (l, w, reader, session, stopped l))
         | SaSndSettleModeNotSupported \<Rightarrow>
             (case send_detach l w True None of
                (l1, w1, r) \<Rightarrow>
                  (case recv_detach sender_attach_error_of_state sender_attach_error_of_detach SaNonAttachFrameReceived
                          l1 reader (case r of Inr _ \<Rightarrow> attach_error | Inl _ \<Rightarrow> stopped l1) of
                     (l2, rest, e) \<Rightarrow> (l2, w1, rest, session, e)))
         | SaIncomingTargetIsNone \<Rightarrow>
             (case send_detach l w True None of
                (l1, w1, r) \<Rightarrow>
                  (case recv_detach sender_attach_error_of_state sender_attach_error_of_detach SaNonAttachFrameReceived
                          l1 reader (case r of Inr _ \<Rightarrow> attach_error | Inl _ \<Rightarrow> stopped l1) of
                     (l2, rest, e) \<Rightarrow> (l2, w1, rest, session, e)))
         | SaCoordinatorIsNotImplemented \<Rightarrow> try_detach
         | SaSourceAddressIsSomeWhenDynamicIsTrue \<Rightarrow> try_detach
         | SaTargetAddressIsNoneWhenDynamicIsTrue \<Rightarrow> try_detach
         | SaDynamicNodePropertiesIsSomeWhenDynamicIsFalse \<Rightarrow> try_detach
         | SaDesireTxnCapabilitiesNotSupported \<Rightarrow> try_detach)"

definition receiver_handle_attach_error ::
    "(receiver_attach_error \<Rightarrow> string) \<Rightarrow> receiver_link \<Rightarrow> link_frame chan \<Rightarrow> link_frame list \<Rightarrow>
     session_control chan \<Rightarrow> receiver_attach_error \<Rightarrow>
     receiver_link \<times> link_frame chan \<times> link_frame list \<times> session_control chan \<times> receiver_attach_error" where
  "receiver_handle_attach_error debug l w reader session attach_error =
     (let stopped = (\<lambda>l. receiver_attach_error_of_state (illegal_or_stopped (l_session_stop_reason l)));
          receive = recv_detach receiver_attach_error_of_state receiver_attach_error_of_detach RaNonAttachFrameReceived
      in if attach_error = RaDuplicatedLinkName then
           (case end_for_duplicate session of
              Some session1 \<Rightarrow> (l, w, reader, session1, attach_error)
            | None \<Rightarrow> (l, w, reader, session, stopped l))
         else if attach_error = RaIncomingSourceIsNone then
           (case send_detach l w True None of
              (l1, w1, r) \<Rightarrow>
                (case receive l1 reader (case r of Inr _ \<Rightarrow> attach_error | Inl _ \<Rightarrow> stopped l1) of
                   (l2, rest, e) \<Rightarrow> (l2, w1, rest, session, e)))
         else if attach_error \<in> {RaCoordinatorIsNotImplemented, RaInitialDeliveryCountIsNone,
              RaSourceAddressIsNoneWhenDynamicIsTrue, RaTargetAddressIsSomeWhenDynamicIsTrue,
              RaDynamicNodePropertiesIsSomeWhenDynamicIsFalse} then
           (case error_of_receiver_attach debug attach_error of
              None \<Rightarrow> (l, w, reader, session, attach_error)
            | Some err \<Rightarrow>
                (case send_detach l w True (Some err) of
                   (l1, w1, Inl _) \<Rightarrow> (l1, w1, reader, session, stopped l1)
                 | (l1, w1, Inr _) \<Rightarrow>
                     (case receive l1 reader attach_error of (l2, rest, e) \<Rightarrow> (l2, w1, rest, session, e))))
         else (l, w, reader, session, attach_error))"

end
