(* ===== verification/Link_Resumption.thy ===== *)
theory Link_Resumption
  imports Link_Attach
begin

text \<open>
  Detaching, closing and resuming a link: fe2o3-amqp/src/link/shared_inner.rs for both roles and the
  resumption of a sender in link/sender.rs and of a receiver in link/receiver.rs. \<open>ln_incoming\<close> is what
  the session will still forward to the link, the empty list a closed channel. \<open>ln_answers\<close> holds the
  answers of the session to the requests for a handle still to come, each with the frames it then
  forwards and the order of the unsettled map at that time; \<open>ln_waits\<close> tells for each wait for credit
  whether credit or a frame comes first. A result \<open>None\<close> means that the code does not return.
\<close>

section \<open>State\<close>

datatype credit_wait = CwCredit "(link_flow \<times> u32) list" | CwFrame

record 'l link_inner =
  ln_link :: 'l
  ln_session :: "session_control chan"
  ln_outgoing :: "link_frame chan"
  ln_incoming :: "link_frame list"
  ln_order :: "delivery_tag list"
  ln_answers :: "((alloc_link_error + u32) \<times> link_frame list \<times> delivery_tag list) list"
  ln_waits :: "credit_wait list"

section \<open>Reattaching\<close>

definition alloc_stopped :: "session_stop_reason option \<Rightarrow> alloc_link_error" where
  "alloc_stopped r = SessionStopped (case r of Some reason \<Rightarrow> reason | None \<Rightarrow> Ended)"

definition reallocate_output_handle ::
    "(link_frame chan \<Rightarrow> ('m, 'x) link_scheme \<Rightarrow> unit link_relay) \<Rightarrow> ('m, 'x) link_scheme link_inner \<Rightarrow>
     ('m, 'x) link_scheme link_inner \<times> (alloc_link_error + unit)" where
  "reallocate_output_handle as_new_link_relay n =
     (let l = ln_link n;
          request = ScAllocateLink (l_name l) (as_new_link_relay \<lparr>rx_alive = True, sent = []\<rparr> l) True;
          stopped = Inl (alloc_stopped (l_session_stop_reason l))
      in case chan_send (ln_session n) request of
           None \<Rightarrow> (n\<lparr>ln_incoming := []\<rparr>, stopped)
         | Some c \<Rightarrow>
             (case ln_answers n of
                [] \<Rightarrow> (n\<lparr>ln_session := c, ln_incoming := []\<rparr>, stopped)
              | (answer, frames, order) # rest \<Rightarrow>
                  (let n1 = n\<lparr>ln_session := c, ln_incoming := frames, ln_order := order, ln_answers := rest\<rparr> in
                   case answer of
                     Inl e \<Rightarrow> (n1\<lparr>ln_incoming := []\<rparr>, Inl e)
                   | Inr h \<Rightarrow> (n1\<lparr>ln_link := l\<lparr>l_output_handle := Some h\<rparr>\<rparr>, Inr ()))))"

definition sender_as_new_link_relay :: "link_frame chan \<Rightarrow> sender_link \<Rightarrow> unit link_relay" where
  "sender_as_new_link_relay tx l = SenderRelay \<lparr>sr_tx = tx, sr_output_handle = (), sr_flow_state = l_flow_state l,
     sr_unsettled = l_unsettled l, sr_resolved = sl_resolved l, sr_receiver_settle_mode = l_rcv_settle_mode l\<rparr>"

definition receiver_as_new_link_relay :: "link_frame chan \<Rightarrow> receiver_link \<Rightarrow> unit link_relay" where
  "receiver_as_new_link_relay tx l = new_receiver tx (l_flow_state l) (l_unsettled l) (l_rcv_settle_mode l)"

definition sender_exchange ::
    "target_type \<Rightarrow> sender_link link_inner \<Rightarrow> bool \<Rightarrow>
     (sender_link link_inner \<times> (sender_attach_error + sender_attach_exchange)) option" where
  "sender_exchange ty n is_reattaching =
     map_option (\<lambda>(l, w, rest, r). (n\<lparr>ln_link := l, ln_outgoing := w, ln_incoming := rest\<rparr>, r))
       (sender_exchange_attach ty (ln_order n) (ln_link n) (ln_outgoing n) (ln_incoming n) is_reattaching)"

definition receiver_exchange ::
    "target_type \<Rightarrow> receiver_link link_inner \<Rightarrow> bool \<Rightarrow>
     (receiver_link link_inner \<times> (receiver_attach_error + receiver_attach_exchange)) option" where
  "receiver_exchange ty n is_reattaching =
     map_option (\<lambda>(l, w, rest, r). (n\<lparr>ln_link := l, ln_outgoing := w, ln_incoming := rest\<rparr>, r))
       (receiver_exchange_attach ty (ln_order n) (ln_link n) (ln_outgoing n) (ln_incoming n) is_reattaching)"

definition sender_attach_failed ::
    "(sender_attach_error \<Rightarrow> string) \<Rightarrow> sender_link link_inner \<Rightarrow> sender_attach_error \<Rightarrow>
     sender_link link_inner \<times> sender_attach_error" where
  "sender_attach_failed debug n e =
     (case sender_handle_attach_error debug (ln_link n) (ln_outgoing n) (ln_incoming n) (ln_session n) e of
        (l, w, rest, session, e1) \<Rightarrow>
          (n\<lparr>ln_link := l, ln_outgoing := w, ln_incoming := rest, ln_session := session\<rparr>, e1))"

definition receiver_attach_failed ::
    "(receiver_attach_error \<Rightarrow> string) \<Rightarrow> receiver_link link_inner \<Rightarrow> receiver_attach_error \<Rightarrow>
     receiver_link link_inner \<times> receiver_attach_error" where
  "receiver_attach_failed debug n e =
     (case receiver_handle_attach_error debug (ln_link n) (ln_outgoing n) (ln_incoming n) (ln_session n) e of
        (l, w, rest, session, e1) \<Rightarrow>
          (n\<lparr>ln_link := l, ln_outgoing := w, ln_incoming := rest, ln_session := session\<rparr>, e1))"

definition sender_reattach_inner ::
    "target_type \<Rightarrow> (sender_attach_error \<Rightarrow> string) \<Rightarrow> sender_link link_inner \<Rightarrow>
     (sender_link link_inner \<times> (sender_attach_error + unit)) option" where
  "sender_reattach_inner ty debug n =
     (case reallocate_output_handle sender_as_new_link_relay n of
        (n1, Inl e) \<Rightarrow> Some (n1, Inl (sender_attach_error_of_alloc e))
      | (n1, Inr _) \<Rightarrow>
          (case sender_exchange ty n1 True of
             None \<Rightarrow> None
           | Some (n2, Inr SaeComplete) \<Rightarrow> Some (n2, Inr ())
           | Some (n2, Inr _) \<Rightarrow> Some (n2, Inl SaIllegalState)
           | Some (n2, Inl e) \<Rightarrow> (case sender_attach_failed debug n2 e of (n3, e1) \<Rightarrow> Some (n3, Inl e1))))"

definition receiver_reattach_inner ::
    "target_type \<Rightarrow> (receiver_attach_error \<Rightarrow> string) \<Rightarrow> receiver_link link_inner \<Rightarrow>
     (receiver_link link_inner \<times> (receiver_attach_error + unit)) option" where
  "receiver_reattach_inner ty debug n =
     (case reallocate_output_handle receiver_as_new_link_relay n of
        (n1, Inl e) \<Rightarrow> Some (n1, Inl (receiver_attach_error_of_alloc e))
      | (n1, Inr _) \<Rightarrow>
          (case receiver_exchange ty n1 True of
             None \<Rightarrow> None
           | Some (n2, Inr RaeComplete) \<Rightarrow> Some (n2, Inr ())
           | Some (n2, Inr _) \<Rightarrow> Some (n2, Inl RaIllegalState)
           | Some (n2, Inl e) \<Rightarrow> (case receiver_attach_failed debug n2 e of (n3, e1) \<Rightarrow> Some (n3, Inl e1))))"

section \<open>Detaching and closing\<close>

text \<open>
  The functions of shared_inner.rs are generic over the role; \<open>reattach\<close> is \<open>reattach_inner\<close> of the
  role.
\<close>

definition detach_error_from_stop_reason :: "session_stop_reason option \<Rightarrow> detach_error" where
  "detach_error_from_stop_reason r = (case r of Some reason \<Rightarrow> DeSessionStopped reason | None \<Rightarrow> DeIllegalState)"

fun skip_to_detach :: "link_frame list \<Rightarrow> link_frame list \<times> detach option" where
  "skip_to_detach [] = ([], None)"
| "skip_to_detach (LfDetach d # frs) = (frs, Some d)"
| "skip_to_detach (_ # frs) = skip_to_detach frs"

definition recv_remote_detach ::
    "('m, 'x) link_scheme link_inner \<Rightarrow> ('m, 'x) link_scheme link_inner \<times> (detach_error + detach)" where
  "recv_remote_detach n =
     (case skip_to_detach (ln_incoming n) of
        (rest, None) \<Rightarrow>
          (n\<lparr>ln_incoming := rest\<rparr>, Inl (detach_error_from_stop_reason (l_session_stop_reason (ln_link n))))
      | (rest, Some d) \<Rightarrow> (n\<lparr>ln_incoming := rest\<rparr>, Inr d))"

definition inner_send_detach ::
    "('m, 'x) link_scheme link_inner \<Rightarrow> bool \<Rightarrow> amqp_error option \<Rightarrow>
     ('m, 'x) link_scheme link_inner \<times> (detach_error + unit)" where
  "inner_send_detach n closed error =
     (case send_detach (ln_link n) (ln_outgoing n) closed error of
        (l, w, r) \<Rightarrow> (n\<lparr>ln_link := l, ln_outgoing := w\<rparr>, r))"

definition inner_on_detach_reply ::
    "('m, 'x) link_scheme link_inner \<Rightarrow> detach \<Rightarrow> ('m, 'x) link_scheme link_inner \<times> (detach_error + unit)" where
  "inner_on_detach_reply n d =
     (case on_detach_reply (ln_link n) d of (l, r) \<Rightarrow> (n\<lparr>ln_link := l\<rparr>, r))"

definition apply_remote_detach ::
    "('m, 'x) link_scheme link_inner \<Rightarrow> detach \<Rightarrow> ('m, 'x) link_scheme link_inner" where
  "apply_remote_detach n d = n\<lparr>ln_link := fst (apply_remote_detach_outcome (ln_link n) d)\<rparr>"

definition reattach_then_close ::
    "(('m, 'x) link_scheme link_inner \<Rightarrow> (('m, 'x) link_scheme link_inner \<times> ('e + unit)) option) \<Rightarrow>
     ('m, 'x) link_scheme link_inner \<Rightarrow> (('m, 'x) link_scheme link_inner \<times> (detach_error + unit)) option" where
  "reattach_then_close reattach n =
     (case reattach n of
        None \<Rightarrow> None
      | Some (n1, Inl _) \<Rightarrow>
          Some (n1, Inl (detach_error_from_stop_reason (l_session_stop_reason (ln_link n1))))
      | Some (n1, Inr _) \<Rightarrow> Some
          (case inner_send_detach n1 True None of
             (n2, Inl e) \<Rightarrow> (n2, Inl e)
           | (n2, Inr _) \<Rightarrow>
               (case recv_remote_detach n2 of
                  (n3, Inl e) \<Rightarrow> (n3, Inl e)
                | (n3, Inr d) \<Rightarrow> inner_on_detach_reply n3 d)))"

text \<open>Reattach and close, then report \<open>r\<close>.\<close>

definition crossed ::
    "(('m, 'x) link_scheme link_inner \<Rightarrow> (('m, 'x) link_scheme link_inner \<times> ('e + unit)) option) \<Rightarrow>
     ('m, 'x) link_scheme link_inner \<Rightarrow> detach_error + unit \<Rightarrow>
     (('m, 'x) link_scheme link_inner \<times> (detach_error + unit)) option" where
  "crossed reattach n r =
     (case reattach_then_close reattach n of
        None \<Rightarrow> None
      | Some (n1, Inl e) \<Rightarrow> Some (n1, Inl e)
      | Some (n1, Inr _) \<Rightarrow> Some (n1, r))"

definition await_detach ::
    "(('m, 'x) link_scheme link_inner \<Rightarrow> (('m, 'x) link_scheme link_inner \<times> ('e + unit)) option) \<Rightarrow>
     ('m, 'x) link_scheme link_inner \<Rightarrow> (('m, 'x) link_scheme link_inner \<times> (detach_error + unit)) option" where
  "await_detach reattach n =
     (case recv_remote_detach n of
        (n1, Inl e) \<Rightarrow> Some (n1, Inl e)
      | (n1, Inr d) \<Rightarrow>
          if de_closed d then crossed reattach n1 (Inl DeClosedByRemote)
          else Some (inner_on_detach_reply n1 d))"

definition detach_with_error ::
    "(('m, 'x) link_scheme link_inner \<Rightarrow> (('m, 'x) link_scheme link_inner \<times> ('e + unit)) option) \<Rightarrow>
     ('m, 'x) link_scheme link_inner \<Rightarrow> amqp_error option \<Rightarrow>
     (('m, 'x) link_scheme link_inner \<times> (detach_error + unit)) option" where
  "detach_with_error reattach n error =
     (case l_local_state (ln_link n) of
        LkDetachSent \<Rightarrow> await_detach reattach n
      | LkDetached \<Rightarrow> Some (n, Inr ())
      | LkCloseSent \<Rightarrow>
          (case recv_remote_detach n of
             (n1, Inl e) \<Rightarrow> Some (n1, Inl e)
           | (n1, Inr d) \<Rightarrow>
               if de_closed d then
                 (case inner_on_detach_reply n1 d of
                    (n2, Inl e) \<Rightarrow> Some (n2, Inl e)
                  | (n2, Inr _) \<Rightarrow> Some (n2, Inl DeClosedByRemote))
               else crossed reattach (apply_remote_detach n1 d) (Inl DeClosedByRemote))
      | LkClosed \<Rightarrow> Some (n, Inl DeClosedByRemote)
      | _ \<Rightarrow>
          (case inner_send_detach n False error of
             (n1, Inl e) \<Rightarrow> Some (n1, Inl e)
           | (n1, Inr _) \<Rightarrow> await_detach reattach n1))"

definition await_close ::
    "(('m, 'x) link_scheme link_inner \<Rightarrow> (('m, 'x) link_scheme link_inner \<times> ('e + unit)) option) \<Rightarrow>
     ('m, 'x) link_scheme link_inner \<Rightarrow> (('m, 'x) link_scheme link_inner \<times> (detach_error + unit)) option" where
  "await_close reattach n =
     (case recv_remote_detach n of
        (n1, Inl e) \<Rightarrow> Some (n1, Inl e)
      | (n1, Inr d) \<Rightarrow>
          if de_closed d then Some (inner_on_detach_reply n1 d)
          else crossed reattach (apply_remote_detach n1 d) (Inr ()))"

definition close_with_error ::
    "(('m, 'x) link_scheme link_inner \<Rightarrow> (('m, 'x) link_scheme link_inner \<times> ('e + unit)) option) \<Rightarrow>
     ('m, 'x) link_scheme link_inner \<Rightarrow> amqp_error option \<Rightarrow>
     (('m, 'x) link_scheme link_inner \<times> (detach_error + unit)) option" where
  "close_with_error reattach n error =
     (case l_local_state (ln_link n) of
        LkDetachSent \<Rightarrow>
          (case recv_remote_detach n of
             (n1, Inl e) \<Rightarrow> Some (n1, Inl e)
           | (n1, Inr d) \<Rightarrow>
               if de_closed d then crossed reattach n1 (Inl DeClosedByRemote)
               else Some (case apply_remote_detach_outcome (ln_link n1) d of
                            (l, Inl e) \<Rightarrow> (n1\<lparr>ln_link := l\<rparr>, Inl (detach_error_of_apply e))
                          | (l, Inr _) \<Rightarrow> (n1\<lparr>ln_link := l\<rparr>, Inr ())))
      | LkDetached \<Rightarrow> Some (n, Inr ())
      | LkCloseSent \<Rightarrow> await_close reattach n
      | LkClosed \<Rightarrow> Some (n, Inr ())
      | _ \<Rightarrow>
          (case inner_send_detach n True error of
             (n1, Inl _) \<Rightarrow>
               Some (n1, Inl (detach_error_from_stop_reason (l_session_stop_reason (ln_link n1))))
           | (n1, Inr _) \<Rightarrow> await_close reattach n1))"

section \<open>Resuming a sender\<close>

definition switch_session ::
    "('m, 'x) link_scheme link_inner \<Rightarrow> bool \<Rightarrow> session_control chan \<Rightarrow> link_frame chan \<Rightarrow> nat \<Rightarrow>
     ('m, 'x) link_scheme link_inner \<times> bool" where
  "switch_session n same_channel control outgoing max_frame_size =
     (n\<lparr>ln_session := control, ln_outgoing := outgoing, ln_link := (ln_link n)\<lparr>l_max_frame_size := max_frame_size\<rparr>\<rparr>,
      \<not> same_channel)"

definition resuming_transfer ::
    "u32 \<Rightarrow> delivery_tag \<Rightarrow> u32 \<Rightarrow> bool option \<Rightarrow> delivery_state option \<Rightarrow> bool \<Rightarrow> transfer" where
  "resuming_transfer handle tag message_format settled state aborted =
     \<lparr>tr_handle = handle, tr_delivery_id = None, tr_delivery_tag = Some tag,
      tr_message_format = Some message_format, tr_settled = settled, tr_more = False,
      tr_rcv_settle_mode = None, tr_state = state, tr_resume = True, tr_aborted = aborted, tr_batchable = False\<rparr>"

definition resolve :: "sender_link link_inner \<Rightarrow> delivery_tag \<Rightarrow> resolution \<Rightarrow> sender_link link_inner" where
  "resolve n tag r = n\<lparr>ln_link := (ln_link n)\<lparr>sl_resolved := (sl_resolved (ln_link n))(tag \<mapsto> r)\<rparr>\<rparr>"

definition sender_abort ::
    "sender_link link_inner \<Rightarrow> delivery_tag \<Rightarrow> u32 \<Rightarrow> bool \<Rightarrow>
     (sender_link link_inner \<times> (link_state_error + unit)) option" where
  "sender_abort n tag message_format has_sender =
     (case l_output_handle (ln_link n) of
        None \<Rightarrow> Some (n, Inl LseIllegalState)
      | Some handle \<Rightarrow>
          (case send_transfer_without_modifying_unsettled_map (ln_link n) (ln_outgoing n)
                  (resuming_transfer handle tag message_format None None True) [] of
             None \<Rightarrow> None
           | Some (w, Inl e) \<Rightarrow> Some (n\<lparr>ln_outgoing := w\<rparr>, Inl e)
           | Some (w, Inr _) \<Rightarrow>
               (let n1 = n\<lparr>ln_outgoing := w\<rparr> in
                Some (if has_sender then resolve n1 tag (Inr None) else n1, Inr ()))))"

definition send_transfer_with_outcome ::
    "sender_link link_inner \<Rightarrow> transfer \<Rightarrow> delivery_tag \<Rightarrow> unsettled_message \<Rightarrow>
     (sender_link link_inner \<times> (link_state_error + unit)) option" where
  "send_transfer_with_outcome n t tag u =
     (if is_settled_on_send (ln_link n) t then
        (case send_transfer_without_modifying_unsettled_map (ln_link n) (ln_outgoing n) t (um_payload u) of
           None \<Rightarrow> None
         | Some (w, Inl e) \<Rightarrow> Some (n\<lparr>ln_outgoing := w\<rparr>, Inl e)
         | Some (w, Inr _) \<Rightarrow> Some (resolve (n\<lparr>ln_outgoing := w\<rparr>) tag (Inr (um_state u)), Inr ()))
      else
        (case send_unsettled_transfer (ln_link n) (ln_outgoing n) t (um_payload u) tag u of
           None \<Rightarrow> None
         | Some (l, w, Inl e) \<Rightarrow> Some (n\<lparr>ln_link := l, ln_outgoing := w\<rparr>, Inl e)
         | Some (l, w, Inr _) \<Rightarrow>
             Some (n\<lparr>ln_link := l, ln_outgoing := w, ln_order := removeAll tag (ln_order n) @ [tag]\<rparr>, Inr ())))"

definition sender_resume ::
    "sender_link link_inner \<Rightarrow> delivery_tag \<Rightarrow> unsettled_message \<Rightarrow>
     (sender_link link_inner \<times> (link_state_error + unit)) option" where
  "sender_resume n tag u =
     (case l_output_handle (ln_link n) of
        None \<Rightarrow> Some (n, Inl LseIllegalState)
      | Some handle \<Rightarrow>
          send_transfer_with_outcome n
            (resuming_transfer handle tag (um_message_format u)
               (Some (l_snd_settle_mode (ln_link n) = Settled)) (um_state u) False) tag u)"

definition restate_outcome ::
    "sender_link link_inner \<Rightarrow> delivery_tag \<Rightarrow> u32 \<Rightarrow> delivery_state \<Rightarrow> payload \<Rightarrow>
     (sender_link link_inner \<times> (link_state_error + unit)) option" where
  "restate_outcome n tag message_format state payload =
     (case l_output_handle (ln_link n) of
        None \<Rightarrow> Some (n, Inl LseIllegalState)
      | Some handle \<Rightarrow>
          send_transfer_with_outcome n
            (resuming_transfer handle tag message_format (Some False) (Some state) False) tag
            \<lparr>um_payload = payload, um_state = None, um_message_format = message_format\<rparr>)"

text \<open>A delivery that is sent again gets a new tag, under which its \<open>oneshot\<close> is found from then on.\<close>

definition resend ::
    "sender_link link_inner \<Rightarrow> unsettled_message \<Rightarrow>
     (sender_link link_inner \<times> (link_state_error + unit)) option" where
  "resend n u =
     (case ln_waits n of
        [] \<Rightarrow> None
      | first # waits \<Rightarrow>
          (let (wait, incoming) = (case first of
                  CwCredit flows \<Rightarrow> (WaitCredit flows, ln_incoming n)
                | CwFrame \<Rightarrow> (case ln_incoming n of
                                [] \<Rightarrow> (WaitFrame None, [])
                              | fr # rest \<Rightarrow> (WaitFrame (Some fr), rest)))
           in case get_delivery_tag_or_detached (ln_link n) wait of
                (l, r) \<Rightarrow>
                  (let n1 = n\<lparr>ln_link := l, ln_incoming := incoming, ln_waits := waits\<rparr> in
                   case r of
                     None \<Rightarrow> None
                   | Some (Inl e) \<Rightarrow> Some (n1, Inl e)
                   | Some (Inr tag) \<Rightarrow>
                       (case generate_non_resuming_transfer_performative l tag (um_message_format u) None None False of
                          Inl e \<Rightarrow> Some (n1, Inl e)
                        | Inr t \<Rightarrow> send_transfer_with_outcome n1 t tag u))))"

fun handle_resuming_delivery ::
    "sender_link link_inner \<Rightarrow> delivery_tag \<Rightarrow> resuming_delivery \<Rightarrow> unsettled_message list \<Rightarrow>
     (sender_link link_inner \<times> unsettled_message list \<times> (link_state_error + unit)) option" where
  "handle_resuming_delivery n tag (RdAbort message_format has_sender) buf =
     map_option (\<lambda>(n1, r). (n1, buf, r)) (sender_abort n tag message_format has_sender)"
| "handle_resuming_delivery n tag (RdResend u) buf = Some (n, buf @ [u], Inr ())"
| "handle_resuming_delivery n tag (RdResume u) buf = map_option (\<lambda>(n1, r). (n1, buf, r)) (sender_resume n tag u)"
| "handle_resuming_delivery n tag (RdRestateOutcome payload state message_format) buf =
     map_option (\<lambda>(n1, r). (n1, buf, r)) (restate_outcome n tag message_format state payload)"

fun handle_resuming_deliveries ::
    "sender_link link_inner \<Rightarrow> (delivery_tag \<times> resuming_delivery) list \<Rightarrow> unsettled_message list \<Rightarrow>
     (sender_link link_inner \<times> unsettled_message list \<times> (link_state_error + unit)) option" where
  "handle_resuming_deliveries n [] buf = Some (n, buf, Inr ())"
| "handle_resuming_deliveries n ((tag, d) # ds) buf =
     (case handle_resuming_delivery n tag d buf of
        None \<Rightarrow> None
      | Some (n1, buf1, Inl e) \<Rightarrow> Some (n1, buf1, Inl e)
      | Some (n1, buf1, Inr _) \<Rightarrow> handle_resuming_deliveries n1 ds buf1)"

fun resend_all ::
    "sender_link link_inner \<Rightarrow> unsettled_message list \<Rightarrow>
     (sender_link link_inner \<times> (link_state_error + unit)) option" where
  "resend_all n [] = Some (n, Inr ())"
| "resend_all n (u # us) =
     (case resend n u of
        None \<Rightarrow> None
      | Some (n1, Inl e) \<Rightarrow> Some (n1, Inl e)
      | Some (n1, Inr _) \<Rightarrow> resend_all n1 us)"

datatype sender_resume_error = SreAttach sender_attach_error | SreSend link_state_error | SreDetach detach_error

text \<open>The exchange of one round: with the attach of the peer when it is already there.\<close>

definition resume_exchange ::
    "sender_link link_inner \<Rightarrow> attach option \<Rightarrow> bool \<Rightarrow>
     (sender_link link_inner \<times> (sender_attach_error + sender_attach_exchange)) option" where
  "resume_exchange n initial_remote_attach is_reattaching =
     (case initial_remote_attach of
        None \<Rightarrow> sender_exchange TypeTarget n is_reattaching
      | Some a \<Rightarrow>
          (case send_attach_inner Sender um_state (ln_order n) (ln_link n) (ln_outgoing n) is_reattaching of
             None \<Rightarrow> None
           | Some (l, w, Inl e) \<Rightarrow> Some (n\<lparr>ln_link := l, ln_outgoing := w\<rparr>, Inl (sender_attach_error_of_state e))
           | Some (l, w, Inr _) \<Rightarrow>
               (case sender_on_incoming_attach TypeTarget (ln_order n) l a of
                  (l1, r) \<Rightarrow> Some (n\<lparr>ln_link := l1, ln_outgoing := w\<rparr>, r))))"

text \<open>
  What follows an exchange that resumes deliveries: the resumed ones, those sent again, and the
  detach before the next round. The map is taken by the exchange, so the order starts anew.
\<close>

definition resume_round ::
    "(sender_attach_error \<Rightarrow> string) \<Rightarrow> sender_link link_inner \<Rightarrow> (delivery_tag \<times> resuming_delivery) list \<Rightarrow>
     unsettled_message list \<Rightarrow> (sender_link link_inner \<times> (sender_resume_error + unit)) option" where
  "resume_round debug n ds buf =
     (case handle_resuming_deliveries (n\<lparr>ln_order := []\<rparr>) ds buf of
        None \<Rightarrow> None
      | Some (n1, _, Inl e) \<Rightarrow> Some (n1, Inl (SreSend e))
      | Some (n1, buf1, Inr _) \<Rightarrow>
          (case resend_all n1 buf1 of
             None \<Rightarrow> None
           | Some (n2, Inl e) \<Rightarrow> Some (n2, Inl (SreSend e))
           | Some (n2, Inr _) \<Rightarrow>
               (case detach_with_error (sender_reattach_inner TypeTarget debug) n2 None of
                  None \<Rightarrow> None
                | Some (n3, Inl e) \<Rightarrow> Some (n3, Inl (SreDetach e))
                | Some (n3, Inr _) \<Rightarrow>
                    (case reallocate_output_handle sender_as_new_link_relay n3 of
                       (n4, Inl e) \<Rightarrow> Some (n4, Inl (SreAttach (sender_attach_error_of_alloc e)))
                     | (n4, Inr _) \<Rightarrow> Some (n4, Inr ())))))"

partial_function (option) resume_loop ::
    "(sender_attach_error \<Rightarrow> string) \<Rightarrow> bool \<Rightarrow> sender_link link_inner \<Rightarrow> attach option \<Rightarrow> unsettled_message list \<Rightarrow>
     (sender_link link_inner \<times> (sender_resume_error + unit)) option" where
  "resume_loop debug is_reattaching n initial_remote_attach buf =
     (case resume_exchange n initial_remote_attach is_reattaching of
        None \<Rightarrow> None
      | Some (n1, Inl e) \<Rightarrow> Some (n1, Inl (SreAttach e))
      | Some (n1, Inr x) \<Rightarrow>
          (case x of
             SaeComplete \<Rightarrow> Some (n1, Inr ())
           | SaeIncompleteUnsettled ds \<Rightarrow>
               (case handle_resuming_deliveries (n1\<lparr>ln_order := []\<rparr>) ds buf of
                  None \<Rightarrow> None
                | Some (n2, buf1, r) \<Rightarrow>
                    (case r of
                       Inl e \<Rightarrow> Some (n2, Inl (SreSend e))
                     | Inr _ \<Rightarrow> resume_loop debug is_reattaching n2 None buf1))
           | SaeResume ds \<Rightarrow>
               (case resume_round debug n1 ds buf of
                  None \<Rightarrow> None
                | Some (n2, r) \<Rightarrow>
                    (case r of
                       Inl e \<Rightarrow> Some (n2, Inl e)
                     | Inr _ \<Rightarrow> resume_loop debug is_reattaching n2 None []))))"

definition sender_resume_incoming_attach ::
    "(sender_attach_error \<Rightarrow> string) \<Rightarrow> sender_link link_inner \<Rightarrow> attach option \<Rightarrow> bool \<Rightarrow>
     (sender_link link_inner \<times> (sender_resume_error + unit)) option" where
  "sender_resume_incoming_attach debug n initial_remote_attach is_reattaching =
     (case reallocate_output_handle sender_as_new_link_relay n of
        (n1, Inl e) \<Rightarrow> Some (n1, Inl (SreAttach (sender_attach_error_of_alloc e)))
      | (n1, Inr _) \<Rightarrow> resume_loop debug is_reattaching n1 initial_remote_attach [])"

section \<open>Resuming a receiver\<close>

datatype receiver_resume_error = RreAttach receiver_attach_error | RreFlow link_state_error

text \<open>The link of the receiver is the link of \<open>n\<close>, which holds the channels around it.\<close>

definition receiver_resume_incoming_attach ::
    "receiver_inner \<Rightarrow> receiver_link link_inner \<Rightarrow> attach option \<Rightarrow> bool \<Rightarrow>
     (receiver_inner \<times> receiver_link link_inner \<times> (receiver_resume_error + receiver_attach_exchange)) option" where
  "receiver_resume_incoming_attach r n initial_remote_attach is_reattaching =
     (case reallocate_output_handle receiver_as_new_link_relay n of
        (n1, Inl e) \<Rightarrow> Some (r\<lparr>ri_link := ln_link n1\<rparr>, n1, Inl (RreAttach (receiver_attach_error_of_alloc e)))
      | (n1, Inr _) \<Rightarrow>
          (case (case initial_remote_attach of
                   None \<Rightarrow> receiver_exchange TypeTarget n1 is_reattaching
                 | Some a \<Rightarrow>
                     (case send_attach_inner Receiver id (ln_order n1) (ln_link n1) (ln_outgoing n1) is_reattaching of
                        None \<Rightarrow> None
                      | Some (l, w, Inl e) \<Rightarrow>
                          Some (n1\<lparr>ln_link := l, ln_outgoing := w\<rparr>, Inl (receiver_attach_error_of_state e))
                      | Some (l, w, Inr _) \<Rightarrow>
                          (case receiver_on_incoming_attach TypeTarget l a of
                             (l1, x) \<Rightarrow> Some (n1\<lparr>ln_link := l1, ln_outgoing := w\<rparr>, x)))) of
             None \<Rightarrow> None
           | Some (n2, x) \<Rightarrow>
               (let r1 = r\<lparr>ri_link := ln_link n2, ri_outgoing := ln_outgoing n2\<rparr> in
                case x of
                  Inl e \<Rightarrow> Some (r1, n2, Inl (RreAttach e))
                | Inr exchange \<Rightarrow>
                    (case set_credit r1 (link_credit (l_flow_state (ri_link r1))) of
                       (r2, res) \<Rightarrow>
                         Some (r2, n2\<lparr>ln_link := ri_link r2, ln_outgoing := ri_outgoing r2\<rparr>,
                               case res of Inl e \<Rightarrow> Inl (RreFlow e) | Inr _ \<Rightarrow> Inr exchange)))))"

end
