(* ===== verification/Link_Handshake.thy ===== *)
theory Link_Handshake
  imports Link_Resumption
begin

text \<open>
  The handshakes of a link: the attach that is cut until it fits into a frame, closing a link while
  the peer suspends it, and the resumption of a link whose unsettled map does not fit.
\<close>

section \<open>The attach that fits\<close>

lemma attach_denominator_0: "as_attach_inner role f order l h re 0 = as_attach_inner role f order l h re 1"
  by (simp add: as_attach_inner_def get_unsettled_map_def Let_def split: option.split)

lemma attach_unsettled:
  "at_unsettled (as_attach_inner role f order l h False d) =
     (case l_unsettled l of
        None \<Rightarrow> None
      | Some m \<Rightarrow>
          (let es = map (\<lambda>(tag, v). (tag, f v)) (entries_in order m) in
           if es = [] then None else Some (if d \<le> 1 then es else take (length es div d) es)))"
  by (auto simp: as_attach_inner_def get_unsettled_map_def Let_def split: option.split)

lemma shrink_attach_fits:
  assumes "\<And>d. field_size (attach_composite (mk d)) = Inr (sz d)" and "j < 64" and "sz (2 ^ j) \<le> max_size"
    and "\<forall>i. k \<le> i \<and> i < j \<longrightarrow> max_size < sz (2 ^ i)" and "k \<le> j"
  shows "shrink_attach mk max_size (2 ^ k) = Some (Inr (mk (2 ^ j)))"
  using assms(4,5)
proof (induction "j - k" arbitrary: k)
  case 0
  then show ?case using assms(1,3) by (subst shrink_attach.simps) simp
next
  case (Suc x)
  then have "(2 :: nat) ^ Suc k \<le> 2 ^ 63" using assms(2) by (intro power_increasing) auto
  then have "2 ^ k * 2 mod 2 ^ 64 = (2 :: nat) ^ Suc k" by simp
  moreover have "max_size < sz (2 ^ k)" using Suc by auto
  moreover have "shrink_attach mk max_size (2 ^ Suc k) = Some (Inr (mk (2 ^ j)))" using Suc by (intro Suc.hyps(1)) auto
  ultimately show ?case using assms(1) by (subst shrink_attach.simps) simp
qed

text \<open>A set of denominators that is closed under doubling and in which nothing fits is never left.\<close>

lemma shrink_attach_hangs:
  assumes D: "\<And>d. d \<in> D \<Longrightarrow> \<exists>n. field_size (attach_composite (mk d)) = Inr n \<and> max_size < n \<and> d * 2 mod 2 ^ 64 \<in> D"
    and "d \<in> D"
  shows "shrink_attach mk max_size d = None"
proof (rule ccontr)
  assume "shrink_attach mk max_size d \<noteq> None"
  then obtain r where "shrink_attach mk max_size d = Some r" by blast
  then have "mk = mk \<and> max_size = max_size \<longrightarrow> d \<notin> D"
  proof (rule shrink_attach.raw_induct [where P = "\<lambda>mk' max' d r. mk' = mk \<and> max' = max_size \<longrightarrow> d \<notin> D", rotated])
    fix f mk' max' d' r'
    assume IH: "\<And>mk' max' d r. f mk' max' d = Some r \<Longrightarrow> mk' = mk \<and> max' = max_size \<longrightarrow> d \<notin> D"
      and r: "(case field_size (attach_composite (mk' d')) of Inl _ \<Rightarrow> Some (Inl IlsIllegalState)
         | Inr n \<Rightarrow> if max' < n then f mk' max' (d' * 2 mod 2 ^ 64) else Some (Inr (mk' d'))) = Some r'"
    show "mk' = mk \<and> max' = max_size \<longrightarrow> d' \<notin> D"
    proof (intro impI notI)
      assume "mk' = mk \<and> max' = max_size" "d' \<in> D"
      with D [of d'] r obtain n where "f mk max_size (d' * 2 mod 2 ^ 64) = Some r'" "d' * 2 mod 2 ^ 64 \<in> D" by auto
      with IH show False by blast
    qed
  qed
  then show False using assms(2) by simp
qed

text \<open>
  C20: A link with unsettled deliveries offers the largest part of its map that fits into a frame when
  the part is halved again and again, marks the attach as incomplete exactly when it is cut, and
  keeps the order of the map. The search returns exactly when one of the 64 parts fits: when not even
  the attach with an empty map does, it never returns.
\<close>

theorem attach_is_cut_to_the_frame:
  assumes "\<And>d. field_size (attach_composite (as_attach_inner role f order l h False d)) = Inr (sz d)"
    and "l_unsettled l = Some m" and "es = map (\<lambda>(tag, v). (tag, f v)) (entries_in order m)" and "es \<noteq> []"
  shows "(as_maybe_incomplete_attach role f order l max_size h False = None \<longleftrightarrow> (\<forall>j<64. max_size < sz (2 ^ j))) \<and>
    (\<forall>r. as_maybe_incomplete_attach role f order l max_size h False = Some r \<longrightarrow>
       (\<exists>a j. r = Inr a \<and> j < 64 \<and> field_size (attach_composite a) = Inr (sz (2 ^ j)) \<and> sz (2 ^ j) \<le> max_size \<and>
          (\<forall>i<j. max_size < sz (2 ^ i)) \<and> at_unsettled a = Some (take (length es div 2 ^ j) es) \<and>
          (at_incomplete_unsettled a \<longleftrightarrow> 0 < j)))"
proof (cases "\<exists>j<64. sz (2 ^ j) \<le> max_size")
  case True
  define j where "j = (LEAST j. sz (2 ^ j) \<le> max_size)"
  obtain j0 where j0: "j0 < 64" "sz (2 ^ j0) \<le> max_size" using True by blast
  then have j: "sz (2 ^ j) \<le> max_size" "j < 64" "\<forall>i<j. max_size < sz (2 ^ i)"
    unfolding j_def by (auto intro: LeastI Least_le le_less_trans dest: not_less_Least)
  let ?a = "as_attach_inner role f order l h False (2 ^ j)"
  have cut: "\<not> 2 * 2 ^ n \<le> Suc 0" for n by (induction n) simp_all
  have made: "as_maybe_incomplete_attach role f order l max_size h False = Some (Inr ?a)"
    using shrink_attach_fits [of "as_attach_inner role f order l h False" sz, OF assms(1) j(2,1), of 0] j(3) by (simp add: as_maybe_incomplete_attach_def)
  have "at_unsettled ?a = Some (take (length es div 2 ^ j) es)"
    using assms(2-4) attach_unsettled [of role f order l h "2 ^ j"] cut by (cases j) (simp_all add: Let_def)
  moreover have "at_incomplete_unsettled ?a \<longleftrightarrow> 0 < j"
    using cut by (cases j) (simp_all add: as_attach_inner_def)
  ultimately have "j < 64 \<and> field_size (attach_composite ?a) = Inr (sz (2 ^ j)) \<and> sz (2 ^ j) \<le> max_size \<and>
      (\<forall>i<j. max_size < sz (2 ^ i)) \<and> at_unsettled ?a = Some (take (length es div 2 ^ j) es) \<and>
      (at_incomplete_unsettled ?a \<longleftrightarrow> 0 < j)"
    using j assms(1) by simp
  moreover have "\<not> (\<forall>j<64. max_size < sz (2 ^ j))" using j by (meson not_le)
  ultimately show ?thesis unfolding made by (simp only: option.inject option.distinct) blast
next
  case False
  then have big: "max_size < sz (2 ^ j)" if "j < 64" for j using that by (meson not_le)
  define D where "D = insert (0 :: nat) ((\<lambda>j. 2 ^ j) ` {..<64 :: nat})"
  have one: "1 \<in> D" unfolding D_def by (rule insertI2, rule image_eqI [of _ _ 0]) simp_all
  have "d * 2 mod 2 ^ 64 \<in> D \<and> max_size < sz d" if d: "d \<in> D" for d
  proof (cases "d = 0")
    case True
    then show ?thesis using big [of 0] assms(1) [of 0] assms(1) [of 1] attach_denominator_0 [of role f order l h False]
      by (simp add: D_def)
  next
    case False
    then obtain j where j: "j < 64" "d = 2 ^ j" using d by (auto simp: D_def)
    have "d * 2 mod 2 ^ 64 \<in> D"
    proof (cases "j = 63")
      case False
      then have "Suc j < 64" using j by simp
      moreover from this have "(2 :: nat) ^ Suc j < 2 ^ 64" by (intro power_strict_increasing) auto
      then have "d * 2 mod 2 ^ 64 = 2 ^ Suc j" using j by simp
      ultimately show ?thesis unfolding D_def by blast
    qed (use j in \<open>simp add: D_def\<close>)
    then show ?thesis using big j by simp
  qed
  then have "shrink_attach (as_attach_inner role f order l h False) max_size 1 = None"
    using assms(1) one by (intro shrink_attach_hangs [of D]) simp_all
  then have "as_maybe_incomplete_attach role f order l max_size h False = None"
    by (simp add: as_maybe_incomplete_attach_def)
  then show ?thesis using big by simp
qed

section \<open>Closing\<close>

definition properly_closed ::
    "amqp_error option \<Rightarrow> ('m, 'x) link_scheme link_inner \<Rightarrow> ('m, 'x) link_scheme link_inner \<Rightarrow> bool" where
  "properly_closed err n n' \<longleftrightarrow>
    l_local_state (ln_link n') = LkClosed \<and> l_output_handle (ln_link n') = None \<and>
    (\<exists>h rest. l_output_handle (ln_link n) = Some h \<and>
       sent (ln_outgoing n') = sent (ln_outgoing n) @ LfDetach \<lparr>de_handle = h, de_closed = True, de_error = err\<rparr> # rest \<and>
       (rest = [] \<or> (\<exists>a. at_unsettled a = None \<and>
          rest = [LfAttach a, LfDetach \<lparr>de_handle = at_handle a, de_closed = True, de_error = None\<rparr>])))"

text \<open>
  What closing relies on: a reattach that succeeds has sent one attach, without unsettled deliveries
  and for the handle the link now has.
\<close>

locale reattachable =
  fixes reattach :: "('m, 'x) link_scheme link_inner \<Rightarrow> (('m, 'x) link_scheme link_inner \<times> ('e + unit)) option"
  assumes reattached: "reattach n = Some (n', Inr ()) \<Longrightarrow>
    \<exists>a. sent (ln_outgoing n') = sent (ln_outgoing n) @ [LfAttach a] \<and> at_unsettled a = None \<and>
      l_output_handle (ln_link n') = Some (at_handle a)"
begin

lemma detach_sent:
  assumes "inner_send_detach n closed err = (n', Inr ())"
  shows "\<exists>h. l_output_handle (ln_link n) = Some h \<and> l_output_handle (ln_link n') = None \<and>
    l_local_state (ln_link n') = (if closed then LkCloseSent else LkDetachSent) \<and>
    sent (ln_outgoing n') = sent (ln_outgoing n) @ [LfDetach \<lparr>de_handle = h, de_closed = closed, de_error = err\<rparr>]"
  using assms
  by (auto simp: inner_send_detach_def send_detach_def Let_def chan_send_def split: if_splits option.splits prod.splits)

lemma detach_received:
  "recv_remote_detach n = (n', r) \<Longrightarrow> ln_link n' = ln_link n \<and> ln_outgoing n' = ln_outgoing n"
  by (auto simp: recv_remote_detach_def split: prod.splits option.splits)

lemma reply_closes:
  assumes "inner_on_detach_reply n d = (n', Inr ())"
  shows "l_local_state (ln_link n') = (if de_closed d then LkClosed else LkDetached) \<and>
    l_output_handle (ln_link n') = None \<and> ln_outgoing n' = ln_outgoing n \<and>
    (l_local_state (ln_link n) = LkCloseSent \<longrightarrow> de_closed d)"
  using assms
  by (auto simp: inner_on_detach_reply_def on_detach_reply_def apply_remote_detach_outcome_def
      split: if_splits option.splits prod.splits sum.splits)

lemma reattach_then_close_closes:
  assumes "reattach_then_close reattach n = Some (n', Inr ())"
  shows "l_local_state (ln_link n') = LkClosed \<and> l_output_handle (ln_link n') = None \<and>
    (\<exists>a. at_unsettled a = None \<and> sent (ln_outgoing n') = sent (ln_outgoing n) @
      [LfAttach a, LfDetach \<lparr>de_handle = at_handle a, de_closed = True, de_error = None\<rparr>])"
proof -
  obtain n1 n2 n3 d where s: "reattach n = Some (n1, Inr ())" "inner_send_detach n1 True None = (n2, Inr ())"
      "recv_remote_detach n2 = (n3, Inr d)" "inner_on_detach_reply n3 d = (n', Inr ())"
    using assms by (auto simp: reattach_then_close_def split: option.splits prod.splits sum.splits)
  show ?thesis
    using reattached [OF s(1)] detach_sent [OF s(2)] detach_received [OF s(3)] reply_closes [OF s(4)] by auto
qed

lemma crossed_closes:
  assumes "crossed reattach n r = Some (n', r')" and "r' = Inr () \<or> r' = Inl DeClosedByRemote \<and> reattach_then_close reattach n = Some (n', Inr ())"
  shows "l_local_state (ln_link n') = LkClosed \<and> l_output_handle (ln_link n') = None \<and>
    (\<exists>a. at_unsettled a = None \<and> sent (ln_outgoing n') = sent (ln_outgoing n) @
      [LfAttach a, LfDetach \<lparr>de_handle = at_handle a, de_closed = True, de_error = None\<rparr>])"
  using assms reattach_then_close_closes [of n n']
  by (auto simp: crossed_def split: option.splits prod.splits sum.splits)

lemma close_closes:
  assumes "l_local_state (ln_link n) = LkAttached" and "close_with_error reattach n err = Some (n', Inr ())"
  shows "properly_closed err n n'"
proof -
  obtain n1 where s: "inner_send_detach n True err = (n1, Inr ())" "await_close reattach n1 = Some (n', Inr ())"
    using assms by (auto simp: close_with_error_def split: prod.splits sum.splits)
  obtain n2 d where d: "recv_remote_detach n1 = (n2, Inr d)"
    using s(2) by (auto simp: await_close_def split: prod.splits sum.splits)
  have kept: "ln_outgoing (apply_remote_detach n2 d) = ln_outgoing n1"
    using detach_received [OF d] by (simp add: apply_remote_detach_def)
  note sent = detach_sent [OF s(1)] detach_received [OF d]
  show ?thesis
  proof (cases "de_closed d")
    case True
    then have "inner_on_detach_reply n2 d = (n', Inr ())" using s(2) d by (simp add: await_close_def)
    then show ?thesis using sent reply_closes [of n2 d n'] True by (auto simp: properly_closed_def)
  next
    case False
    then have "crossed reattach (apply_remote_detach n2 d) (Inr ()) = Some (n', Inr ())"
      using s(2) d by (simp add: await_close_def)
    then show ?thesis using sent crossed_closes [of "apply_remote_detach n2 d" "Inr ()" n' "Inr ()"] kept
      by (auto simp: properly_closed_def)
  qed
qed

end

lemma reattach_sent:
  assumes "send_attach_inner role f order l w True = Some (l', w', Inr ())"
  shows "\<exists>a. sent w' = sent w @ [LfAttach a] \<and> at_unsettled a = None \<and> l_output_handle l' = Some (at_handle a)"
  using assms
  by (auto simp: send_attach_inner_def Let_def chan_send_def as_attach_inner_def get_unsettled_map_def
      split: option.splits link_state.splits if_splits)

lemma unsettled_keeps:
  "sender_handle_unsettled_in_attach order l remote = (l', x) \<Longrightarrow>
   l_output_handle l' = l_output_handle l \<and> l_local_state l' = l_local_state l"
  by (auto simp: sender_handle_unsettled_in_attach_def Let_def split: option.splits if_splits prod.splits)

lemma sender_incoming_attach_handle:
  "sender_on_incoming_attach ty order l a = (l', x) \<Longrightarrow> l_output_handle l' = l_output_handle l"
  by (auto simp: sender_on_incoming_attach_def Let_def split: option.splits sum.splits prod.splits if_splits
      dest!: unsettled_keeps)

lemma receiver_incoming_attach_handle:
  "receiver_on_incoming_attach ty l a = (l', x) \<Longrightarrow> l_output_handle l' = l_output_handle l"
  by (auto simp: receiver_on_incoming_attach_def Let_def split: option.splits sum.splits prod.splits if_splits)

lemma reallocated:
  "reallocate_output_handle relay n = (n', r) \<Longrightarrow> ln_outgoing n' = ln_outgoing n \<and>
   l_local_state (ln_link n') = l_local_state (ln_link n)"
  by (auto simp: reallocate_output_handle_def Let_def split: option.splits list.splits prod.splits sum.splits)

lemma sender_exchange_Inr:
  assumes "sender_exchange ty n re = Some (n', Inr x)"
  obtains l1 w1 a rest where
    "send_attach_inner Sender um_state (ln_order n) (ln_link n) (ln_outgoing n) re = Some (l1, w1, Inr ())"
    "ln_incoming n = LfAttach a # rest" "sender_on_incoming_attach ty (ln_order n) l1 a = (ln_link n', Inr x)"
    "ln_outgoing n' = w1"
  using assms
  by (auto simp: sender_exchange_def sender_exchange_attach_def
      split: option.splits prod.splits sum.splits list.splits link_frame.splits)

lemma receiver_exchange_Inr:
  assumes "receiver_exchange ty n re = Some (n', Inr x)"
  obtains l1 w1 a rest where
    "send_attach_inner Receiver id (ln_order n) (ln_link n) (ln_outgoing n) re = Some (l1, w1, Inr ())"
    "ln_incoming n = LfAttach a # rest" "receiver_on_incoming_attach ty l1 a = (ln_link n', Inr x)"
    "ln_outgoing n' = w1"
  using assms
  by (auto simp: receiver_exchange_def receiver_exchange_attach_def
      split: option.splits prod.splits sum.splits list.splits link_frame.splits)

interpretation sender_close: reattachable "sender_reattach_inner ty debug" for ty debug
proof unfold_locales
  fix n n' assume "sender_reattach_inner ty debug n = Some (n', Inr ())"
  then obtain n1 where n1: "reallocate_output_handle sender_as_new_link_relay n = (n1, Inr ())"
      "sender_exchange ty n1 True = Some (n', Inr SaeComplete)"
    by (auto simp: sender_reattach_inner_def
        split: option.splits prod.splits sum.splits sender_attach_exchange.splits)
  then show "\<exists>a. sent (ln_outgoing n') = sent (ln_outgoing n) @ [LfAttach a] \<and> at_unsettled a = None \<and>
      l_output_handle (ln_link n') = Some (at_handle a)"
    using reallocated [OF n1(1)]
    by (auto elim!: sender_exchange_Inr dest!: reattach_sent sender_incoming_attach_handle)
qed

interpretation receiver_close: reattachable "receiver_reattach_inner ty debug" for ty debug
proof unfold_locales
  fix n n' assume "receiver_reattach_inner ty debug n = Some (n', Inr ())"
  then obtain n1 where n1: "reallocate_output_handle receiver_as_new_link_relay n = (n1, Inr ())"
      "receiver_exchange ty n1 True = Some (n', Inr RaeComplete)"
    by (auto simp: receiver_reattach_inner_def
        split: option.splits prod.splits sum.splits receiver_attach_exchange.splits)
  then show "\<exists>a. sent (ln_outgoing n') = sent (ln_outgoing n) @ [LfAttach a] \<and> at_unsettled a = None \<and>
      l_output_handle (ln_link n') = Some (at_handle a)"
    using reallocated [OF n1(1)]
    by (auto elim!: receiver_exchange_Inr dest!: reattach_sent receiver_incoming_attach_handle)
qed


section \<open>Resuming with an incomplete map\<close>

text \<open>No attach can be sent in these states.\<close>

definition incomplete_state :: "link_state \<Rightarrow> bool" where
  "incomplete_state st \<longleftrightarrow> st \<in> {LkIncompleteAttachReceived, LkIncompleteAttachSent, LkIncompleteAttachExchanged}"

lemma no_attach_when_incomplete:
  "incomplete_state (l_local_state l) \<Longrightarrow> send_attach_inner role f order l w re \<noteq> Some (l', w', Inr ())"
  by (cases "l_local_state l"; cases re)
    (simp_all add: send_attach_inner_def incomplete_state_def Let_def split: option.split sum.split)

lemma incoming_incomplete:
  assumes "sender_on_incoming_attach ty order l a = (l', Inr (SaeIncompleteUnsettled ds))"
  shows "incomplete_state (l_local_state l')"
proof -
  obtain l3 where h: "sender_handle_unsettled_in_attach order l3 (at_unsettled a) = (l', SaeIncompleteUnsettled ds)"
    using assms by (auto simp: sender_on_incoming_attach_def Let_def
        split: option.splits sum.splits prod.splits if_splits)
  show ?thesis
    using h unsettled_keeps [OF h]
    by (auto simp: sender_handle_unsettled_in_attach_def incomplete_state_def Let_def
        split: option.splits prod.splits if_splits)
qed

lemma exchange_incomplete:
  assumes "resume_exchange n a re = Some (n', Inr (SaeIncompleteUnsettled ds))"
  shows "incomplete_state (l_local_state (ln_link n'))"
  using assms
  by (auto simp: resume_exchange_def split: option.splits prod.splits sum.splits
      elim!: sender_exchange_Inr dest: incoming_incomplete)

lemma transfer_keeps_state:
  "send_transfer_with_outcome n t tag u = Some (n', r) \<Longrightarrow> l_local_state (ln_link n') = l_local_state (ln_link n)"
  by (auto simp: send_transfer_with_outcome_def send_unsettled_transfer_def resolve_def Let_def
      split: if_splits option.splits prod.splits sum.splits)

lemma resuming_keeps_state:
  "handle_resuming_deliveries n ds buf = Some (n', buf', r) \<Longrightarrow> l_local_state (ln_link n') = l_local_state (ln_link n)"
proof (induction n ds buf rule: handle_resuming_deliveries.induct)
  case (2 n tag d ds buf)
  have one: "l_local_state (ln_link n1) = l_local_state (ln_link n)"
    if "handle_resuming_delivery n tag d buf = Some (n1, buf1, r1)" for n1 buf1 r1
    using that
    by (cases d) (auto simp: sender_abort_def sender_resume_def restate_outcome_def resolve_def Let_def
        split: option.splits prod.splits sum.splits if_splits dest!: transfer_keeps_state)
  show ?case
    using 2 by (auto split: option.splits prod.splits sum.splits dest!: one)
qed simp


section \<open>Examples\<close>

definition example_suspended :: sender_link where
  "example_suspended = \<lparr>l_local_state = LkDetached, l_name = ''q'', l_output_handle = Some 3, l_input_handle = Some 7,
     l_snd_settle_mode = Mixed, l_rcv_settle_mode = First, l_source = None, l_target = None, l_max_message_size = 0,
     l_offered_capabilities = None, l_desired_capabilities = None,
     l_flow_state = \<lparr>initial_delivery_count = 0, delivery_count = 0, link_credit = 1, available = 0,
        drain = False, properties = None\<rparr>,
     l_unsettled = Some [[1] \<mapsto> \<lparr>um_payload = [], um_state = None, um_message_format = 0\<rparr>],
     l_session_stop_reason = None, l_max_frame_size = 512,
     l_verify_incoming_source = True, l_verify_incoming_target = True, sl_resolved = Map.empty\<rparr>"

lemma example_attach_size:
  "field_size (attach_composite (as_attach_inner Sender um_state [[1]] example_suspended 3 False d)) =
     Inr (if d \<le> 1 then 25 else 21)"
proof (cases "d \<le> 1")
  case True
  then have "d = 0 \<or> d = 1" by linarith
  then have "as_attach_inner Sender um_state [[1]] example_suspended 3 False d =
      as_attach_inner Sender um_state [[1]] example_suspended 3 False 1"
    using attach_denominator_0 [of Sender um_state "[[1]]" example_suspended 3 False] by auto
  moreover have "field_size (attach_composite (as_attach_inner Sender um_state [[1]] example_suspended 3 False 1)) = Inr 25"
    by code_simp
  ultimately show ?thesis using True by simp
next
  case False
  then have "as_attach_inner Sender um_state [[1]] example_suspended 3 False d =
      as_attach_inner Sender um_state [[1]] example_suspended 3 False 2"
    by (simp add: as_attach_inner_def get_unsettled_map_def example_suspended_def entries_in_def map_filter_simps)
  moreover have "field_size (attach_composite (as_attach_inner Sender um_state [[1]] example_suspended 3 False 2)) = Inr 21"
    by code_simp
  ultimately show ?thesis using False by simp
qed

theorem attach_is_cut_to_the_frame_witness:
  "\<exists>a. as_maybe_incomplete_attach Sender um_state [[1]] example_suspended 24 3 False = Some (Inr a) \<and>
     at_unsettled a = Some [] \<and> at_incomplete_unsettled a"
proof -
  let ?es = "[([1], None)] :: (delivery_tag \<times> delivery_state option) list"
  let ?m = "[[1] \<mapsto> \<lparr>um_payload = [], um_state = None, um_message_format = 0\<rparr>]"
  let ?r = "as_maybe_incomplete_attach Sender um_state [[1]] example_suspended 24 3 False"
  let ?sz = "\<lambda>d. if d \<le> (1 :: nat) then 25 else (21 :: nat)"
  have es: "?es = map (\<lambda>(tag, v). (tag, um_state v)) (entries_in [[1]] ?m)"
    by (simp add: entries_in_def map_filter_simps)
  note cut = attach_is_cut_to_the_frame [of Sender um_state "[[1]]" example_suspended 3 ?sz ?m ?es 24,
      OF example_attach_size _ es]
  have m: "l_unsettled example_suspended = Some ?m" by (simp add: example_suspended_def)
  have "\<not> (\<forall>j<64. 24 < ?sz (2 ^ j))" by (auto intro!: exI [of _ "1 :: nat"])
  then obtain r where r: "?r = Some r" using cut m by auto
  obtain a j where a: "r = Inr a" "?sz (2 ^ j) \<le> 24" "\<forall>i<j. 24 < ?sz (2 ^ i)"
      "at_unsettled a = Some (take (length ?es div 2 ^ j) ?es)" "at_incomplete_unsettled a \<longleftrightarrow> 0 < j"
    using cut m r by auto
  have "0 < j" using a(2) by (cases j) auto
  then have "length ?es div 2 ^ j = 0" using one_less_power [of "2 :: nat" j] by simp
  then show ?thesis using a(1,4,5) r \<open>0 < j\<close> by simp
qed

definition example_attach :: attach where
  "example_attach = \<lparr>at_name = ''q'', at_handle = 9, at_role = Receiver, at_snd_settle_mode = Mixed,
     at_rcv_settle_mode = First, at_source = None,
     at_target = Some (ATarget \<lparr>tgt_address = None, tgt_durable = DurNone, tgt_expiry_policy = SessionEnd,
       tgt_timeout = 0, tgt_dynamic = False, tgt_dynamic_node_properties = None, tgt_capabilities = None\<rparr>),
     at_unsettled = None, at_incomplete_unsettled = False, at_initial_delivery_count = Some 0,
     at_max_message_size = None, at_offered_capabilities = None, at_desired_capabilities = None,
     at_properties = None\<rparr>"

text \<open>A sender that closes while its peer suspends the link, and a receiver that just closes.\<close>

definition example_closing :: "sender_link link_inner" where
  "example_closing = \<lparr>ln_link = example_suspended\<lparr>l_local_state := LkAttached\<rparr>,
     ln_session = \<lparr>rx_alive = True, sent = []\<rparr>, ln_outgoing = \<lparr>rx_alive = True, sent = []\<rparr>,
     ln_incoming = [LfDetach \<lparr>de_handle = 9, de_closed = False, de_error = None\<rparr>], ln_order = [[1]],
     ln_answers = [(Inr 4, [LfAttach example_attach, LfDetach \<lparr>de_handle = 9, de_closed = True, de_error = None\<rparr>], [])],
     ln_waits = []\<rparr>"

definition example_closing_receiver :: "receiver_link link_inner" where
  "example_closing_receiver = \<lparr>ln_link = \<lparr>l_local_state = LkAttached, l_name = ''q'', l_output_handle = Some 3,
       l_input_handle = Some 7, l_snd_settle_mode = Mixed, l_rcv_settle_mode = First, l_source = None, l_target = None,
       l_max_message_size = 0, l_offered_capabilities = None, l_desired_capabilities = None,
       l_flow_state = \<lparr>initial_delivery_count = 0, delivery_count = 0, link_credit = 1, available = 0,
          drain = False, properties = None\<rparr>,
       l_unsettled = None, l_session_stop_reason = None, l_max_frame_size = 512,
       l_verify_incoming_source = True, l_verify_incoming_target = True\<rparr>,
     ln_session = \<lparr>rx_alive = True, sent = []\<rparr>, ln_outgoing = \<lparr>rx_alive = True, sent = []\<rparr>,
     ln_incoming = [LfDetach \<lparr>de_handle = 9, de_closed = True, de_error = None\<rparr>], ln_order = [],
     ln_answers = [], ln_waits = []\<rparr>"

lemmas handshake_defs = close_with_error_def await_close_def crossed_def reattach_then_close_def
  inner_send_detach_def send_detach_def recv_remote_detach_def inner_on_detach_reply_def on_detach_reply_def
  apply_remote_detach_def apply_remote_detach_outcome_def sender_reattach_inner_def reallocate_output_handle_def
  sender_exchange_def sender_exchange_attach_def send_attach_inner_def sender_on_incoming_attach_def
  attach_received_state_def try_targets_def sender_handle_unsettled_in_attach_def as_attach_inner_def
  get_unsettled_map_def chan_send_def Let_def


text \<open>A peer whose own map does not fit.\<close>

definition example_incomplete :: "sender_link link_inner" where
  "example_incomplete = example_closing\<lparr>ln_link := example_suspended\<lparr>l_unsettled := None\<rparr>,
     ln_answers := [(Inr 4, [LfAttach (example_attach\<lparr>at_unsettled := Some [([2], None)], at_incomplete_unsettled := True\<rparr>)], [])]\<rparr>"


end
