(* ===== verification/Link_Recovery.thy ===== *)
theory Link_Recovery
  imports Link_Handshake Receiver_Delivery
begin

text \<open>
  The deliveries of a link that is resumed: the position at which a delivery is taken up again, what
  becomes of every unsettled delivery, and a delivery that does not survive.
\<close>

section \<open>Where a delivery is resumed\<close>

text \<open>The positions at which the sections of a message start, and the byte a section number and an
  offset stand for.\<close>

fun header_here :: "bytes \<Rightarrow> bool" where
  "header_here (b0 # b1 # b2 # bs) = is_section_header b0 b1 b2"
| "header_here _ = False"

fun starts_from :: "nat \<Rightarrow> bytes \<Rightarrow> nat list" where
  "starts_from i [] = []"
| "starts_from i (b # bs) = (if header_here (b # bs) then [i] else []) @ starts_from (Suc i) bs"

definition section_starts :: "bytes \<Rightarrow> nat list" where
  "section_starts p = starts_from 0 p"

definition section_position :: "bytes \<Rightarrow> nat \<Rightarrow> nat \<Rightarrow> nat option" where
  "section_position p s off =
     (let starts = section_starts p @ [length p] in
      if Suc s < length starts \<and> starts ! s + off < starts ! Suc s then Some (starts ! s + off) else None)"

lemma starts_from_bounds: "x \<in> set (starts_from i bs) \<Longrightarrow> i \<le> x \<and> x + 2 < i + length bs"
proof (induction bs arbitrary: i)
  case (Cons b bs)
  have "2 < length (b # bs)" if "header_here (b # bs)"
    using that by (cases "b # bs" rule: header_here.cases) simp_all
  then show ?case using Cons.IH [of "Suc i"] Cons.prems by (auto split: if_splits)
qed simp

lemma starts_from_short: "length bs \<le> 2 \<Longrightarrow> starts_from i bs = []"
proof (rule ccontr)
  assume "length bs \<le> 2" "starts_from i bs \<noteq> []"
  then obtain x where "x \<in> set (starts_from i bs)" by (cases "starts_from i bs") auto
  then show False using starts_from_bounds \<open>length bs \<le> 2\<close> by fastforce
qed

text \<open>What the loop finds from index \<open>i\<close> on, the starts before \<open>i\<close> being \<open>H\<close>.\<close>

definition found_from :: "nat list \<Rightarrow> nat \<Rightarrow> nat \<Rightarrow> nat \<Rightarrow> bytes \<Rightarrow> nat option" where
  "found_from H s off i bs =
     (let G = H @ starts_from i bs in
      if s < length G \<and> i \<le> G ! s + off \<and> G ! s + off + 2 < i + length bs
         \<and> (Suc s < length G \<longrightarrow> G ! s + off < G ! Suc s)
      then Some (G ! s + off) else None)"

lemma found_from_step:
  assumes "2 < length (b # bs)" and "\<forall>x\<in>set H. x < i"
    and "H' = H @ (if header_here (b # bs) then [i] else [])"
  shows "found_from H s off i (b # bs) =
    (if H' \<noteq> [] \<and> s = length H' - 1 \<and> i = H' ! s + off then Some i else found_from H' s off (Suc i) bs)"
proof -
  have G: "H @ starts_from i (b # bs) = H' @ starts_from (Suc i) bs" using assms(3) by simp
  have later: "\<forall>x\<in>set (starts_from (Suc i) bs). i < x" using starts_from_bounds by fastforce
  have upto: "\<forall>x\<in>set H'. x \<le> i" using assms(2,3) by auto
  define g where "g = H' @ starts_from (Suc i) bs"
  have low: "g ! j \<le> i" if "j < length H'" for j using that upto by (simp add: g_def nth_append)
  have high: "i < g ! j" if "\<not> j < length H'" "j < length g" for j
  proof -
    have "g ! j = starts_from (Suc i) bs ! (j - length H')" using that(1) by (simp add: g_def nth_append)
    moreover have "j - length H' < length (starts_from (Suc i) bs)" using that by (simp add: g_def)
    ultimately show ?thesis using later by (metis nth_mem)
  qed
  have unfolded:
    "found_from H s off i (b # bs) =
      (if s < length g \<and> i \<le> g ! s + off \<and> g ! s + off < i + length bs - 1 \<and> (Suc s < length g \<longrightarrow> g ! s + off < g ! Suc s)
       then Some (g ! s + off) else None)"
    "found_from H' s off (Suc i) bs =
      (if s < length g \<and> i < g ! s + off \<and> g ! s + off < i + length bs - 1 \<and> (Suc s < length g \<longrightarrow> g ! s + off < g ! Suc s)
       then Some (g ! s + off) else None)"
    using G assms(1) unfolding found_from_def g_def Let_def by auto
  have last: "g ! s = H' ! s" "s < length g" if "s < length H'" using that by (simp_all add: g_def nth_append)
  have len: "0 < length bs - 1" using assms(1) by simp
  consider "Suc s < length H'" | "H' \<noteq> []" "s = length H' - 1" | "\<not> s < length H'" by fastforce
  then show ?thesis
  proof cases
    case 1
    then have "g ! Suc s \<le> i" "Suc s < length g" using low by (simp_all add: g_def)
    then show ?thesis using 1 unfolding unfolded by auto
  next
    case 2
    then have "\<not> Suc s < length H'" "s < length H'" by auto
    then show ?thesis using 2 last high [of "Suc s"] len unfolding unfolded by auto
  next
    case 3
    then show ?thesis using high [of s] unfolding unfolded by auto
  qed
qed

lemma split_loop_found:
  assumes "\<forall>x\<in>set H. x < i" and "counter = (if H = [] then None else Some (length H - 1))"
    and "H \<noteq> [] \<Longrightarrow> last_index = last H"
  shows "split_loop s off i counter last_index bs = found_from H s off i bs"
  using assms
proof (induction bs arbitrary: H i counter last_index)
  case (Cons b0 rest)
  show ?case
  proof (cases "2 < length (b0 # rest)")
    case True
    then obtain b1 b2 bs where rest: "rest = b1 # b2 # bs" by (cases rest; cases "tl rest") auto
    define H' where "H' = H @ (if header_here (b0 # b1 # b2 # bs) then [i] else [])"
    define counter1 where "counter1 = (if H' = [] then None else Some (length H' - 1))"
    define last1 where "last1 = (if is_section_header b0 b1 b2 then i else last_index)"
    have inv: "\<forall>x\<in>set H'. x < Suc i" "H' \<noteq> [] \<Longrightarrow> last1 = last H'"
      using Cons.prems(1,3) by (auto simp: H'_def last1_def)
    have counter1: "(if is_section_header b0 b1 b2 then (case counter of Some v \<Rightarrow> Some (v + 1) | None \<Rightarrow> Some 0)
        else counter) = counter1"
      using Cons.prems(2) by (simp add: counter1_def H'_def)
    have found: "counter1 = Some s \<and> i - last1 = off \<longleftrightarrow> H' \<noteq> [] \<and> s = length H' - 1 \<and> i = H' ! s + off"
    proof (cases "H' = []")
      case False
      then have "H' ! (length H' - 1) = last1" "last1 \<le> i"
        using inv by (auto simp: last_conv_nth less_Suc_eq_le)
      then show ?thesis using False by (auto simp: counter1_def)
    qed (simp add: counter1_def)
    have "split_loop s off i counter last_index (b0 # b1 # b2 # bs) =
        (if counter1 = Some s \<and> i - last1 = off then Some i
         else split_loop s off (Suc i) counter1 last1 (b1 # b2 # bs))"
      by (simp add: Let_def counter1 last1_def rest cong: if_cong)
    also have "\<dots> = found_from H s off i (b0 # b1 # b2 # bs)"
      using found_from_step [OF _ Cons.prems(1) H'_def, of s off] Cons.IH [OF inv(1) counter1_def inv(2)] found True by (simp add: rest)
    finally show ?thesis by (simp add: rest)
  next
    case False
    then have "split_loop s off i counter last_index (b0 # rest) = None" by (cases rest; cases "tl rest") simp_all
    then show ?thesis using False starts_from_short [of "b0 # rest" i] by (simp add: found_from_def Let_def)
  qed
qed (simp add: found_from_def Let_def)

lemma split_off_position:
  "split_off_at_section_and_offset p s off =
     (case section_position p s off of
        Some i \<Rightarrow> if i + 2 < length p then Some (drop i p) else None
      | None \<Rightarrow> None)"
proof -
  define starts where "starts = section_starts p"
  have le: "starts ! s + 2 < length p" if "s < length starts" for s
    using that starts_from_bounds [of "starts ! s" 0 p] by (simp add: starts_def section_starts_def)
  have "split_loop s off 0 None 0 p =
      (if s < length starts \<and> starts ! s + off + 2 < length p \<and> (Suc s < length starts \<longrightarrow> starts ! s + off < starts ! Suc s)
       then Some (starts ! s + off) else None)"
    using split_loop_found [of "[]" 0 None 0 s off p]
    by (simp add: found_from_def Let_def starts_def section_starts_def)
  moreover have "section_position p s off =
      (if s < length starts \<and> starts ! s + off < length p \<and> (Suc s < length starts \<longrightarrow> starts ! s + off < starts ! Suc s)
       then Some (starts ! s + off) else None)"
    using le [of "Suc s"] by (auto simp: section_position_def starts_def [symmetric] Let_def nth_append not_less less_Suc_eq)
  ultimately show ?thesis by (auto simp: split_off_at_section_and_offset_def)
qed

text \<open>
  C21: A sender that is told a section number and an offset, the first section being number zero,
  resumes with exactly the bytes from that position on, whatever the message; unless the position is
  one of its last two bytes or does not exist: then nothing is split off.
\<close>

theorem split_off_is_section_position:
  "split_off_at_section_and_offset p s off =
     (case section_position p s off of
        Some i \<Rightarrow> if i + 2 < length p then Some (drop i p) else None
      | None \<Rightarrow> None)"
  by (rule split_off_position)

lemma starts_from_take: "starts_from i (take k bs) = filter (\<lambda>x. x + 2 < i + k) (starts_from i bs)"
proof (induction bs arbitrary: i k)
  case (Cons b bs)
  have "header_here (b # take k bs) \<longleftrightarrow> header_here (b # bs) \<and> 2 < Suc k" for k
    by (cases "b # bs" rule: header_here.cases; cases k; cases "k - 1") auto
  moreover have "filter (\<lambda>x. x + 2 < i) (starts_from j xs) = []" if "i \<le> j" for j xs
    using starts_from_bounds [of _ j xs] that by (fastforce simp: filter_empty_conv)
  ultimately show ?case using Cons.IH [of "Suc i"] by (cases k) auto
qed simp

lemma count_sections_starts:
  "count_sections i n last_pos bs =
     (n + word_of_nat (length (starts_from i bs)), last (last_pos # starts_from i bs))"
proof (induction i n last_pos bs rule: count_sections.induct)
  case (1 i n last_pos b0 b1 b2 bs)
  then show ?case by (auto simp: algebra_simps split: if_splits)
qed (simp_all add: starts_from_short)


section \<open>What becomes of every unsettled delivery\<close>

lemma distinct_fst_map_filter:
  "distinct (map fst kvs) \<Longrightarrow> distinct (map fst (List.map_filter (\<lambda>(k, v). map_option (Pair k) (g k v)) kvs))"
  by (induction kvs) (auto simp: map_filter_simps image_iff map_filter_def split: option.splits)

lemma map_of_map_filter:
  "distinct (map fst kvs) \<Longrightarrow>
   map_of (List.map_filter (\<lambda>(k, v). map_option (Pair k) (g k v)) kvs) k = Option.bind (map_of kvs k) (g k)"
proof (induction kvs)
  case (Cons kv kvs)
  obtain k0 v0 where kv: "kv = (k0, v0)" by (cases kv)
  have "map_of kvs k0 = None" using Cons.prems kv by (simp add: map_of_eq_None_iff)
  then show ?case using Cons kv by (cases "g k0 v0") (auto simp: map_filter_simps)
qed (simp add: map_filter_simps)

lemma entries_in_map: "map_of (entries_in order m) = m |` set order"
proof
  show "map_of (entries_in order m) k = (m |` set order) k" for k
    by (induction order) (auto simp: entries_in_def map_filter_simps restrict_map_def split: option.splits)
qed

lemma entries_in_keys: "distinct order \<Longrightarrow> distinct (map fst (entries_in order m)) \<and> fst ` set (entries_in order m) = set order \<inter> dom m"
  by (induction order) (auto simp: entries_in_def map_filter_simps split: option.splits)

lemma swap_remove_split:
  assumes "k \<notin> fst ` set xs"
  shows "swap_remove (xs @ (k, v) # ys) k = (xs @ (if ys = [] then [] else last ys # butlast ys), Some v)"
proof -
  have "takeWhile (\<lambda>e. fst e \<noteq> k) (xs @ (k, v) # ys) = xs"
    using assms by (subst takeWhile_append2) auto
  moreover have "map_of xs k = None" using assms by (simp add: map_of_eq_None_iff)
  ultimately show ?thesis by (auto simp: swap_remove_def butlast_append map_add_def)
qed

lemma swap_remove_map:
  assumes "distinct (map fst m)"
  shows "snd (swap_remove m k) = map_of m k \<and> map_of (fst (swap_remove m k)) = (map_of m)(k := None)
    \<and> distinct (map fst (fst (swap_remove m k)))"
proof (cases "map_of m k")
  case None
  then have "swap_remove m k = (m, None)" by (simp add: swap_remove_def)
  then show ?thesis using None assms by (auto simp: fun_eq_iff)
next
  case (Some v)
  then obtain xs ys where m: "m = xs @ (k, v) # ys" using split_list [OF map_of_SomeD] by metis
  then have k: "k \<notin> fst ` set xs" "k \<notin> fst ` set ys" using assms by auto
  define ys' where "ys' = (if ys = [] then [] else last ys # butlast ys)"
  have "ys = [] \<and> ys' = [] \<or> (\<exists>zs z. ys = zs @ [z] \<and> ys' = z # zs)"
    by (cases ys rule: rev_cases) (simp_all add: ys'_def)
  then have ys': "set ys' = set ys" "distinct (map fst ys') \<longleftrightarrow> distinct (map fst ys)" by auto
  have s: "swap_remove m k = (xs @ ys', Some v)" using swap_remove_split [OF k(1)] m by (simp add: ys'_def)
  have d: "distinct (map fst (xs @ ys'))" using assms m ys' by simp
  have "map_of ys' = map_of ys"
    using assms m d ys'(1) by (intro map_of_inject_set [THEN iffD2]) auto
  then have "map_of (xs @ ys') = (map_of m)(k := None)"
    using m k [folded map_of_eq_None_iff] by (auto simp: fun_eq_iff map_add_def split: option.splits)
  then show ?thesis using s d Some by simp
qed

text \<open>The decision on one delivery, and the deliveries to resume and those settled as filters.\<close>

abbreviation decision ::
    "(delivery_tag \<rightharpoonup> delivery_state option) \<Rightarrow> delivery_tag \<Rightarrow> unsettled_message \<Rightarrow> resolution + resuming_delivery" where
  "decision remote tag u \<equiv> resume_delivery u (remote tag)"

definition left_of :: "'a + 'b \<Rightarrow> 'a option" where
  "left_of x = (case x of Inl a \<Rightarrow> Some a | Inr _ \<Rightarrow> None)"

definition right_of :: "'a + 'b \<Rightarrow> 'b option" where
  "right_of x = (case x of Inl _ \<Rightarrow> None | Inr b \<Rightarrow> Some b)"

lemma left_right_simps [simp]:
  "left_of (Inl a) = Some a" "left_of (Inr b) = None" "right_of (Inl a) = None" "right_of (Inr b) = Some b"
  by (simp_all add: left_of_def right_of_def)

lemma map_filter_cong_key:
  "(\<And>k v. (k, v) \<in> set kvs \<Longrightarrow> g k v = h k v) \<Longrightarrow>
   List.map_filter (\<lambda>(k, v). map_option (Pair k) (g k v)) kvs = List.map_filter (\<lambda>(k, v). map_option (Pair k) (h k v)) kvs"
  by (induction kvs) (auto simp: map_filter_simps split: option.split)

lemma resume_locals_filter:
  assumes "distinct (map fst us)" and "distinct (map fst remote)"
    and "resume_locals us remote = (resuming, settled, rest)"
  shows "resuming = List.map_filter (\<lambda>(tag, u). map_option (Pair tag) (right_of (decision (map_of remote) tag u))) us \<and>
    settled = List.map_filter (\<lambda>(tag, u). map_option (Pair tag) (left_of (decision (map_of remote) tag u))) us \<and>
    map_of rest = map_of remote |` (- fst ` set us) \<and> distinct (map fst rest)"
  using assms
proof (induction us arbitrary: remote resuming settled rest)
  case (Cons tu us)
  obtain tag u where tu: "tu = (tag, u)" by (cases tu)
  obtain remote1 r where sw: "swap_remove remote tag = (remote1, r)" by fastforce
  obtain resuming1 settled1 rest1 where rec: "resume_locals us remote1 = (resuming1, settled1, rest1)"
    by (cases "resume_locals us remote1") auto
  have sr: "r = map_of remote tag" "map_of remote1 = (map_of remote)(tag := None)" "distinct (map fst remote1)"
    using swap_remove_map [OF Cons.prems(2), of tag] sw by simp_all
  have other: "k \<noteq> tag" if "(k, v) \<in> set us" for k v using that Cons.prems(1) tu by force
  note ih = Cons.IH [OF _ sr(3) rec] sr(2)
  have filters:
    "List.map_filter (\<lambda>(k, v). map_option (Pair k) (right_of (decision (map_of remote1) k v))) us =
     List.map_filter (\<lambda>(k, v). map_option (Pair k) (right_of (decision (map_of remote) k v))) us"
    "List.map_filter (\<lambda>(k, v). map_option (Pair k) (left_of (decision (map_of remote1) k v))) us =
     List.map_filter (\<lambda>(k, v). map_option (Pair k) (left_of (decision (map_of remote) k v))) us"
    by (rule map_filter_cong_key; use sr(2) other in auto)+
  have "map_of rest1 = map_of remote |` (- fst ` set (tu # us))"
    using ih Cons.prems(1) tu by (auto simp: fun_eq_iff restrict_map_def)
  then show ?case
    using Cons.prems ih tu sw rec sr(1) filters
    by (cases "decision (map_of remote) tag u") (auto simp: map_filter_simps)
qed (auto simp: map_filter_simps)

text \<open>The deliveries an exchange names.\<close>

fun exchanged :: "sender_attach_exchange \<Rightarrow> (delivery_tag \<times> resuming_delivery) list" where
  "exchanged SaeComplete = []"
| "exchanged (SaeIncompleteUnsettled ds) = ds"
| "exchanged (SaeResume ds) = ds"

lemma handle_unsettled_lists:
  assumes "l_unsettled l = Some m" and "distinct order" and "set order = dom m" and "distinct (map fst remote)"
    and "sender_handle_unsettled_in_attach order l (Some remote) = (l', x)"
  obtains rest where
    "exchanged x = List.map_filter (\<lambda>(tag, u). map_option (Pair tag) (right_of (decision (map_of remote) tag u)))
       (entries_in order m) @ abort_unknown rest"
    "sl_resolved l' = sl_resolved l ++ map_of (List.map_filter
       (\<lambda>(tag, u). map_option (Pair tag) (left_of (decision (map_of remote) tag u))) (entries_in order m))"
    "map_of rest = map_of remote |` (- dom m)" "distinct (map fst rest)" "l_unsettled l' = None"
proof -
  have keys: "distinct (map fst (entries_in order m))" "fst ` set (entries_in order m) = dom m"
    using entries_in_keys [OF assms(2), of m] assms(3) by simp_all
  obtain resuming settled rest where r: "resume_locals (entries_in order m) remote = (resuming, settled, rest)"
    by (cases "resume_locals (entries_in order m) remote") auto
  note f = resume_locals_filter [OF keys(1) assms(4) r]
  show thesis
  proof (cases "entries_in order m = [] \<and> remote = []")
    case True
    then have "m = Map.empty" using keys(2) by auto
    then show ?thesis
      using that [of "[]"] assms(1,5) True
      by (auto simp: sender_handle_unsettled_in_attach_def map_filter_simps abort_unknown_def)
  next
    case False
    then show ?thesis
      using that [of rest] assms(1,5) f r keys(2)
      by (auto simp: sender_handle_unsettled_in_attach_def Let_def split: if_splits)
  qed
qed



text \<open>A message of one section, of which four bytes have arrived.\<close>

definition example_message :: bytes where
  "example_message = [0x00, 0x53, 0x77, 0xa1, 1, 0x78]"

definition example_first :: transfer where
  "example_first = \<lparr>tr_handle = 9, tr_delivery_id = Some 0, tr_delivery_tag = Some [1], tr_message_format = Some 0,
     tr_settled = Some False, tr_more = True, tr_rcv_settle_mode = None, tr_state = None, tr_resume = False,
     tr_aborted = False, tr_batchable = False\<rparr>"

definition example_assembling :: "incomplete_transfer \<Rightarrow> receiver_inner" where
  "example_assembling it = \<lparr>ri_link = ln_link example_closing_receiver, ri_credit_mode = Manual, ri_processed = 0,
     ri_auto_accept = False, ri_outgoing = \<lparr>rx_alive = True, sent = []\<rparr>, ri_incomplete_transfer = Some it\<rparr>"


end
