(* ===== verification/Transaction_Session.thy ===== *)
theory Transaction_Session
  imports Session_Engine
begin

text \<open>
  The resource side of transactions: the transaction manager of a session (transaction/manager.rs) and
  the session that wraps the session endpoint and holds transactional work back until its transaction
  is discharged (transaction/session.rs). Identifiers come from the uuid crate, whose results are an
  argument; the attach of a control link starts a task of its own, so the session only records it.
\<close>

section \<open>State\<close>

datatype txn_work_frame = Post transfer payload | Retire disposition

record resource_transaction =
  rt_frames :: "txn_work_frame list"

record transaction_manager =
  tm_control_link_outgoing :: "link_frame chan"
  tm_txns :: "bytes \<rightharpoonup> resource_transaction"

record txn_session =
  ts_control :: "session_control chan"
  ts_session :: session
  ts_txn_manager :: transaction_manager
  ts_max_frame_size :: nat
  ts_control_attaches :: "attach list"

definition resource_transaction_new :: resource_transaction where
  "resource_transaction_new = \<lparr>rt_frames = []\<rparr>"

abbreviation txns :: "txn_session \<Rightarrow> bytes \<rightharpoonup> resource_transaction" where
  "txns ts \<equiv> tm_txns (ts_txn_manager ts)"

definition set_txn :: "txn_session \<Rightarrow> bytes \<Rightarrow> resource_transaction option \<Rightarrow> txn_session" where
  "set_txn ts tid txn =
     ts\<lparr>ts_txn_manager := (ts_txn_manager ts)\<lparr>tm_txns := (txns ts)(tid := txn)\<rparr>\<rparr>"

section \<open>Declaring\<close>

text \<open>
  \<open>uuids\<close> are the identifiers \<open>Uuid::new_v4\<close> returns one after the other. The loop draws until one is
  unused; the result is the identifier and how many were drawn.
\<close>

partial_function (option) draw_txn_id :: "(nat \<Rightarrow> bytes) \<Rightarrow> bytes set \<Rightarrow> nat \<Rightarrow> (bytes \<times> nat) option" where
  "draw_txn_id uuids used n =
     (if uuids n \<notin> used then Some (uuids n, Suc n) else draw_txn_id uuids used (Suc n))"

definition allocate_transaction_id :: "(nat \<Rightarrow> bytes) \<Rightarrow> nat \<Rightarrow> txn_session \<Rightarrow> (txn_session \<times> bytes \<times> nat) option" where
  "allocate_transaction_id uuids n ts =
     (case draw_txn_id uuids (dom (txns ts)) n of
        None \<Rightarrow> None
      | Some (tid, n1) \<Rightarrow> Some (set_txn ts tid (Some resource_transaction_new), tid, n1))"

section \<open>Work\<close>

text \<open>The presumptive outcome of a delivery posted in a transaction is \<open>Accepted\<close>.\<close>

definition on_incoming_post ::
    "resource_transaction \<Rightarrow> bytes \<Rightarrow> transfer \<Rightarrow> payload \<Rightarrow> resource_transaction \<times> disposition option" where
  "on_incoming_post txn tid t p =
     (txn\<lparr>rt_frames := rt_frames txn @ [Post t p]\<rparr>,
      if tr_settled t = Some True then None
      else map_option (\<lambda>delivery_id.
             \<lparr>di_role = Receiver, di_first = delivery_id, di_last = None, di_settled = True,
              di_state = Some (TransactionalState tid (Some OAccepted)), di_batchable = False\<rparr>) (tr_delivery_id t))"

definition lift_session :: "txn_session \<Rightarrow> session \<times> 'r \<Rightarrow> txn_session \<times> 'r" where
  "lift_session ts sr = (case sr of (s, r) \<Rightarrow> (ts\<lparr>ts_session := s\<rparr>, r))"

definition txn_on_incoming_transfer ::
    "txn_session \<Rightarrow> transfer \<Rightarrow> payload \<Rightarrow> txn_session \<times> (session_inner_error + disposition option)" where
  "txn_on_incoming_transfer ts t p =
     (case tr_state t of
        Some (TransactionalState tid _) \<Rightarrow>
          (case txns ts tid of
             None \<Rightarrow> (ts, Inl UnknownTxnId)
           | Some txn \<Rightarrow>
               (case on_incoming_post txn tid t p of (txn1, reply) \<Rightarrow> (set_txn ts tid (Some txn1), Inr reply)))
      | _ \<Rightarrow> lift_session ts (on_incoming_transfer (ts_session ts) t p))"

definition txn_on_incoming_disposition ::
    "txn_session \<Rightarrow> disposition \<Rightarrow> txn_session \<times> (session_inner_error + disposition list option)" where
  "txn_on_incoming_disposition ts d =
     (case di_state d of
        Some (TransactionalState tid _) \<Rightarrow>
          (case txns ts tid of
             None \<Rightarrow> (ts, Inl UnknownTxnId)
           | Some txn \<Rightarrow> (set_txn ts tid (Some (txn\<lparr>rt_frames := rt_frames txn @ [Retire d]\<rparr>)), Inr None))
      | _ \<Rightarrow> (case on_incoming_disposition (ts_session ts) d of (s, ds) \<Rightarrow> (ts\<lparr>ts_session := s\<rparr>, Inr ds)))"

fun is_coordinator :: "target_archetype \<Rightarrow> bool" where
  "is_coordinator (ATarget _) = False"
| "is_coordinator (ACoordinator _) = True"

definition on_incoming_control_attach :: "txn_session \<Rightarrow> attach \<Rightarrow> txn_session \<times> (session_inner_error + unit)" where
  "on_incoming_control_attach ts a = (ts\<lparr>ts_control_attaches := ts_control_attaches ts @ [a]\<rparr>, Inr ())"

definition txn_on_incoming_attach :: "txn_session \<Rightarrow> attach \<Rightarrow> txn_session \<times> (session_inner_error + unit)" where
  "txn_on_incoming_attach ts a =
     (if map_option is_coordinator (at_target a) = Some True then on_incoming_control_attach ts a
      else lift_session ts (on_incoming_attach (ts_session ts) a))"

section \<open>Discharging\<close>

fun delivery_state_of_outcome :: "outcome \<Rightarrow> delivery_state" where
  "delivery_state_of_outcome OAccepted = Accepted"
| "delivery_state_of_outcome (ORejected e) = Rejected e"
| "delivery_state_of_outcome OReleased = Released"
| "delivery_state_of_outcome (OModified m) = Modified m"
| "delivery_state_of_outcome (ODeclared tid) = Declared tid"

definition discharged_state :: "delivery_state option \<Rightarrow> delivery_state option" where
  "discharged_state state =
     (case state of Some (TransactionalState _ out) \<Rightarrow> map_option delivery_state_of_outcome out | _ \<Rightarrow> state)"

fun send_controls :: "txn_session \<Rightarrow> disposition list \<Rightarrow> txn_session \<times> (session_inner_error + unit)" where
  "send_controls ts [] = (ts, Inr ())"
| "send_controls ts (d # ds) =
     (case chan_send (ts_control ts) (ScDisposition d) of
        None \<Rightarrow> (ts, Inl IllegalState)
      | Some c \<Rightarrow> send_controls (ts\<lparr>ts_control := c\<rparr>) ds)"

fun commit_frame :: "txn_session \<Rightarrow> txn_work_frame \<Rightarrow> txn_session \<times> (session_inner_error + unit)" where
  "commit_frame ts (Post t p) =
     (case lift_session ts (on_incoming_transfer (ts_session ts) (t\<lparr>tr_state := discharged_state (tr_state t)\<rparr>) p) of
        (ts1, Inl e) \<Rightarrow> (ts1, Inl e)
      | (ts1, Inr None) \<Rightarrow> (ts1, Inr ())
      | (ts1, Inr (Some d)) \<Rightarrow> send_controls ts1 [d])"
| "commit_frame ts (Retire d) =
     (case on_incoming_disposition (ts_session ts) (d\<lparr>di_state := discharged_state (di_state d), di_settled := True\<rparr>) of
        (s, None) \<Rightarrow> (ts\<lparr>ts_session := s\<rparr>, Inr ())
      | (s, Some ds) \<Rightarrow> send_controls (ts\<lparr>ts_session := s\<rparr>) ds)"

fun commit_frames :: "txn_session \<Rightarrow> txn_work_frame list \<Rightarrow> txn_session \<times> (session_inner_error + unit)" where
  "commit_frames ts [] = (ts, Inr ())"
| "commit_frames ts (f # fs) =
     (case commit_frame ts f of
        (ts1, Inl e) \<Rightarrow> (ts1, Inl e)
      | (ts1, Inr _) \<Rightarrow> commit_frames ts1 fs)"

definition commit_transaction ::
    "txn_session \<Rightarrow> bytes \<Rightarrow> txn_session \<times> (session_inner_error + (transaction_error + unit))" where
  "commit_transaction ts tid =
     (case txns ts tid of
        None \<Rightarrow> (ts, Inr (Inl UnknownId))
      | Some txn \<Rightarrow>
          (case commit_frames (set_txn ts tid None) (rt_frames txn) of
             (ts1, Inl e) \<Rightarrow> (ts1, Inl e)
           | (ts1, Inr _) \<Rightarrow> (ts1, Inr (Inr ()))))"

definition rollback_transaction ::
    "txn_session \<Rightarrow> bytes \<Rightarrow> txn_session \<times> (session_inner_error + (transaction_error + unit))" where
  "rollback_transaction ts tid =
     (case txns ts tid of
        None \<Rightarrow> (ts, Inr (Inl UnknownId))
      | Some _ \<Rightarrow> (set_txn ts tid None, Inr (Inr ())))"

end
