(* ===== verification/Transaction_Atomicity.thy ===== *)
theory Transaction_Atomicity
  imports Transaction_Session Session_Windows
begin

text \<open>
  Transactions of a session are atomic: over any interleaving with other transactions and with work
  outside transactions, a rolled back transaction leaves nothing behind and a committed one has the
  effect of its work applied at the moment of the commit.
\<close>

section \<open>Runs of a session\<close>

text \<open>
  What a session does between two points in time. \<open>TeDelegated\<close> is any operation the transactional
  session hands to the endpoint it wraps.
\<close>

datatype txn_event =
    TeDeclare "nat \<Rightarrow> bytes" nat
  | TeTransfer transfer payload
  | TeDisposition disposition
  | TeAttach attach
  | TeCommit bytes
  | TeRollback bytes
  | TeDelegated "session \<Rightarrow> session \<times> (session_inner_error + unit)"

definition drop_result :: "'a \<times> ('e + 'b) \<Rightarrow> ('a \<times> ('e + unit)) option" where
  "drop_result xr = Some (case xr of (x, Inl e) \<Rightarrow> (x, Inl e) | (x, Inr _) \<Rightarrow> (x, Inr ()))"

fun txn_step :: "txn_session \<Rightarrow> txn_event \<Rightarrow> (txn_session \<times> (session_inner_error + unit)) option" where
  "txn_step ts (TeDeclare uuids n) =
     map_option (\<lambda>(ts1, _, _). (ts1, Inr ())) (allocate_transaction_id uuids n ts)"
| "txn_step ts (TeTransfer t p) = drop_result (txn_on_incoming_transfer ts t p)"
| "txn_step ts (TeDisposition d) = drop_result (txn_on_incoming_disposition ts d)"
| "txn_step ts (TeAttach a) = drop_result (txn_on_incoming_attach ts a)"
| "txn_step ts (TeCommit tid) = drop_result (commit_transaction ts tid)"
| "txn_step ts (TeRollback tid) = drop_result (rollback_transaction ts tid)"
| "txn_step ts (TeDelegated f) = Some (lift_session ts (f (ts_session ts)))"

fun txn_run :: "txn_session \<Rightarrow> txn_event list \<Rightarrow> (txn_session \<times> (session_inner_error + unit)) option" where
  "txn_run ts [] = Some (ts, Inr ())"
| "txn_run ts (ev # evs) =
     (case txn_step ts ev of
        None \<Rightarrow> None
      | Some (ts1, Inl e) \<Rightarrow> Some (ts1, Inl e)
      | Some (ts1, Inr _) \<Rightarrow> txn_run ts1 evs)"

lemma txn_run_append:
  "txn_run ts (xs @ ys) =
     (case txn_run ts xs of
        None \<Rightarrow> None | Some (ts1, Inl e) \<Rightarrow> Some (ts1, Inl e) | Some (ts1, Inr _) \<Rightarrow> txn_run ts1 ys)"
  by (induction xs arbitrary: ts) (auto split: option.splits sum.splits)

section \<open>The work of a transaction\<close>

definition in_txn :: "bytes \<Rightarrow> delivery_state option \<Rightarrow> bool" where
  "in_txn tid state = (case state of Some (TransactionalState tid' _) \<Rightarrow> tid' = tid | _ \<Rightarrow> False)"

fun work_of :: "bytes \<Rightarrow> txn_event \<Rightarrow> bool" where
  "work_of tid (TeTransfer t _) = in_txn tid (tr_state t)"
| "work_of tid (TeDisposition d) = in_txn tid (di_state d)"
| "work_of tid _ = False"

fun discharges :: "bytes \<Rightarrow> txn_event \<Rightarrow> bool" where
  "discharges tid (TeCommit tid') = (tid' = tid)"
| "discharges tid (TeRollback tid') = (tid' = tid)"
| "discharges tid _ = False"

text \<open>What the work does outside a transaction, with the outcome the commit gives it.\<close>

fun without_txn :: "txn_event \<Rightarrow> txn_event" where
  "without_txn (TeTransfer t p) = TeTransfer (t\<lparr>tr_state := discharged_state (tr_state t)\<rparr>) p"
| "without_txn (TeDisposition d) =
     TeDisposition (d\<lparr>di_state := discharged_state (di_state d), di_settled := True\<rparr>)"
| "without_txn ev = ev"

fun frame_of_work :: "txn_event \<Rightarrow> txn_work_frame list" where
  "frame_of_work (TeTransfer t p) = [Post t p]"
| "frame_of_work (TeDisposition d) = [Retire d]"
| "frame_of_work _ = []"

section \<open>Work waits and the rest goes on\<close>

lemma txns_set_txn [simp]: "txns (set_txn ts tid x) = (txns ts)(tid := x)"
  by (simp add: set_txn_def)

lemma session_set_txn [simp]: "ts_session (set_txn ts tid x) = ts_session ts"
  by (simp add: set_txn_def)

lemma control_set_txn [simp]: "ts_control (set_txn ts tid x) = ts_control ts"
  by (simp add: set_txn_def)

lemma set_txn_same [simp]: "txns ts tid = x \<Longrightarrow> set_txn ts tid x = ts"
  by (auto simp: set_txn_def fun_upd_idem)

lemma set_txn_set_txn [simp]: "set_txn (set_txn ts tid x) tid y = set_txn ts tid y"
  by (simp add: set_txn_def)

lemma set_txn_commute: "tid \<noteq> tid' \<Longrightarrow> set_txn (set_txn ts tid x) tid' y = set_txn (set_txn ts tid' y) tid x"
  by (simp add: set_txn_def fun_upd_twist)

lemma set_txn_session: "(set_txn ts tid x)\<lparr>ts_session := s\<rparr> = set_txn (ts\<lparr>ts_session := s\<rparr>) tid x"
  by (simp add: set_txn_def)

lemma set_txn_control: "(set_txn ts tid x)\<lparr>ts_control := c\<rparr> = set_txn (ts\<lparr>ts_control := c\<rparr>) tid x"
  by (simp add: set_txn_def)

lemma lift_session_set_txn:
  "lift_session (set_txn ts tid x) sr = (set_txn (fst (lift_session ts sr)) tid x, snd (lift_session ts sr))"
  by (auto simp: lift_session_def set_txn_session split: prod.split)

lemma send_controls_set_txn:
  "send_controls (set_txn ts tid x) ds = (set_txn (fst (send_controls ts ds)) tid x, snd (send_controls ts ds))"
  by (induction ds arbitrary: ts) (auto simp: set_txn_control split: option.split)

lemma txns_lift_session [simp]: "txns (fst (lift_session ts sr)) = txns ts"
  by (auto simp: lift_session_def split: prod.split)

lemma txns_send_controls [simp]: "txns (fst (send_controls ts ds)) = txns ts"
  by (induction ds arbitrary: ts) (auto split: option.split)

lemma drop_result_lift:
  "drop_result (lift_session (set_txn ts tid x) sr) =
     map_option (map_prod (\<lambda>ts. set_txn ts tid x) (\<lambda>r. r)) (drop_result (lift_session ts sr))"
  by (auto simp: drop_result_def lift_session_def set_txn_session split: prod.split sum.split)

lemma commit_frame_set_txn:
  "commit_frame (set_txn ts tid x) f = (set_txn (fst (commit_frame ts f)) tid x, snd (commit_frame ts f))"
  by (cases f)
    (auto simp: lift_session_def set_txn_session send_controls_set_txn split: prod.split sum.split option.split
      simp del: send_controls.simps)

lemma txns_commit_frame [simp]: "txns (fst (commit_frame ts f)) = txns ts"
  by (cases f)
    (auto simp: lift_session_def split: prod.split sum.split option.split simp del: send_controls.simps)

lemma commit_frames_set_txn:
  "commit_frames (set_txn ts tid x) fs = (set_txn (fst (commit_frames ts fs)) tid x, snd (commit_frames ts fs))"
  by (induction fs arbitrary: ts) (auto simp: commit_frame_set_txn split: prod.split sum.split)

lemma txns_commit_frames [simp]: "txns (fst (commit_frames ts fs)) = txns ts"
proof (induction fs arbitrary: ts)
  case (Cons f fs)
  obtain ts1 r where "commit_frame ts f = (ts1, r)" by fastforce
  moreover from this have "txns ts1 = txns ts" using txns_commit_frame [of ts f] by simp
  ultimately show ?case using Cons by (auto split: sum.split)
qed simp

lemma draw_txn_id_fresh:
  assumes "draw_txn_id uuids used n = Some y" shows "fst y \<notin> used \<and> n < snd y"
proof (rule draw_txn_id.raw_induct [OF _ assms], goal_cases)
  case (1 draw uuids used n y)
  show ?case using 1(1) [of uuids used "Suc n" y] 1(2) by (auto split: if_splits)
qed

text \<open>An event that is not work of a transaction and does not discharge it does not look at its frames.\<close>

lemma step_frame:
  assumes "txns ts tid = Some txn" and "\<not> work_of tid ev" and "\<not> discharges tid ev"
  shows "txn_step (set_txn ts tid (Some txn')) ev =
      map_option (map_prod (\<lambda>ts. set_txn ts tid (Some txn')) (\<lambda>r. r)) (txn_step ts ev)"
    and "txn_step ts ev = Some (ts1, r) \<Longrightarrow> txns ts1 tid = Some txn"
proof -
  have in_dom: "insert tid (dom (txns ts)) = dom (txns ts)" using assms(1) by auto
  show same: "txn_step (set_txn ts tid (Some txn')) ev =
      map_option (map_prod (\<lambda>ts. set_txn ts tid (Some txn')) (\<lambda>r. r)) (txn_step ts ev)" for txn'
  proof (cases ev)
    case (TeDeclare uuids n)
    have "draw_txn_id uuids (dom (txns ts)) n = Some (tid', n') \<Longrightarrow> tid' \<noteq> tid" for tid' n'
      using draw_txn_id_fresh [of uuids "dom (txns ts)" n "(tid', n')"] assms(1) by auto
    then show ?thesis using in_dom TeDeclare
      by (auto simp: allocate_transaction_id_def set_txn_commute split: option.splits)
  next
    case (TeTransfer t p)
    then show ?thesis using assms(2)
      by (auto simp: txn_on_incoming_transfer_def in_txn_def on_incoming_post_def drop_result_lift set_txn_commute
          split: option.splits delivery_state.splits) (simp_all add: drop_result_def set_txn_commute)
  next
    case (TeDisposition d)
    then show ?thesis using assms(2)
      by (auto simp: txn_on_incoming_disposition_def in_txn_def drop_result_def set_txn_commute set_txn_session
          split: option.splits delivery_state.splits prod.splits)
  next
    case (TeAttach a)
    then show ?thesis
      by (auto simp: txn_on_incoming_attach_def on_incoming_control_attach_def drop_result_lift)
        (simp add: drop_result_def set_txn_def)
  next
    case (TeCommit tid')
    then show ?thesis using assms(3)
      by (auto simp: commit_transaction_def drop_result_def set_txn_commute commit_frames_set_txn
          split: option.splits prod.splits sum.splits)
  next
    case (TeRollback tid')
    then show ?thesis using assms(3)
      by (auto simp: rollback_transaction_def drop_result_def set_txn_commute split: option.splits)
  next
    case (TeDelegated f)
    then show ?thesis by (auto simp: lift_session_def set_txn_session split: prod.split)
  qed
  assume "txn_step ts ev = Some (ts1, r)"
  moreover have "txn_step ts ev = map_option (map_prod (\<lambda>ts. set_txn ts tid (Some txn)) (\<lambda>r. r)) (txn_step ts ev)"
    using same [of txn] assms(1) by simp
  ultimately have "(ts1, r) = (set_txn ts1 tid (Some txn), r)" by simp
  then have "ts1 = set_txn ts1 tid (Some txn)" by blast
  then show "txns ts1 tid = Some txn" by (metis fun_upd_same txns_set_txn)
qed

lemma step_work:
  assumes "txns ts tid = Some txn" and "work_of tid ev"
  shows "txn_step ts ev = Some (set_txn ts tid (Some (txn\<lparr>rt_frames := rt_frames txn @ frame_of_work ev\<rparr>)), Inr ())"
  using assms
  by (cases ev)
    (auto simp: in_txn_def txn_on_incoming_transfer_def txn_on_incoming_disposition_def on_incoming_post_def
      drop_result_def split: option.splits delivery_state.splits)

lemma run_collects:
  assumes "txns ts tid = Some txn" and "txn_run ts evs = Some (ts1, Inr ())" and "\<forall>ev\<in>set evs. \<not> discharges tid ev"
  shows "\<exists>ts2. txn_run (set_txn ts tid (Some txn')) (filter (\<lambda>ev. \<not> work_of tid ev) evs) =
      Some (set_txn ts2 tid (Some txn'), Inr ()) \<and>
    ts1 = set_txn ts2 tid (Some (txn\<lparr>rt_frames := rt_frames txn @ concat (map frame_of_work (filter (work_of tid) evs))\<rparr>))"
  using assms
proof (induction evs arbitrary: ts txn)
  case Nil
  then show ?case by (auto intro!: exI [of _ ts1])
next
  case (Cons ev evs)
  show ?case
  proof (cases "work_of tid ev")
    case True
    let ?txn = "txn\<lparr>rt_frames := rt_frames txn @ frame_of_work ev\<rparr>"
    have "txn_run (set_txn ts tid (Some ?txn)) evs = Some (ts1, Inr ())"
      using Cons.prems step_work [OF Cons.prems(1) True] by simp
    from Cons.IH [OF _ this] Cons.prems(3) True show ?thesis by simp
  next
    case False
    then obtain ts0 where ts0: "txn_step ts ev = Some (ts0, Inr ())" "txn_run ts0 evs = Some (ts1, Inr ())"
      using Cons.prems(2) by (auto split: option.splits sum.splits)
    have not: "\<not> discharges tid ev" using Cons.prems(3) by simp
    have "txns ts0 tid = Some txn" by (rule step_frame(2) [OF Cons.prems(1) False not ts0(1)])
    from Cons.IH [OF this ts0(2)] Cons.prems(3) show ?thesis
      using step_frame(1) [OF Cons.prems(1) False not] ts0(1) False by simp
  qed
qed

section \<open>Committing applies the work\<close>

lemma on_incoming_transfer_reply: "snd (on_incoming_transfer s t p) = Inr r \<Longrightarrow> r = None"
  by (auto simp: on_incoming_transfer_def Let_def split: option.splits sum.splits prod.splits)

lemma discharged_state_outside [simp]: "discharged_state state \<noteq> Some (TransactionalState tid out)"
  by (auto simp: discharged_state_def split: option.splits delivery_state.splits elim!: delivery_state_of_outcome.elims)

lemma commit_frame_step:
  assumes "work_of tid ev" and "frame_of_work ev = [f]"
  shows "txn_step ts (without_txn ev) = Some (commit_frame ts f)"
proof (cases ev)
  case (TeTransfer t p)
  let ?t = "t\<lparr>tr_state := discharged_state (tr_state t)\<rparr>"
  have "txn_on_incoming_transfer ts ?t p = lift_session ts (on_incoming_transfer (ts_session ts) ?t p)"
    by (auto simp: txn_on_incoming_transfer_def split: option.splits delivery_state.splits)
  then show ?thesis using assms TeTransfer on_incoming_transfer_reply [of "ts_session ts" ?t p]
    by (auto simp: drop_result_def lift_session_def split: prod.split sum.split option.split)
next
  case (TeDisposition d)
  let ?d = "d\<lparr>di_state := discharged_state (di_state d), di_settled := True\<rparr>"
  have "txn_on_incoming_disposition ts ?d =
      (case on_incoming_disposition (ts_session ts) ?d of (s, ds) \<Rightarrow> (ts\<lparr>ts_session := s\<rparr>, Inr ds))"
    by (auto simp: txn_on_incoming_disposition_def split: option.splits delivery_state.splits)
  moreover have "snd (on_incoming_disposition (ts_session ts) ?d) = None" by (simp add: on_incoming_disposition_def Let_def)
  ultimately show ?thesis using assms TeDisposition
    by (auto simp: drop_result_def split: prod.split option.split)
qed (use assms in auto)

lemma commit_frames_run:
  assumes "\<forall>ev\<in>set evs. work_of tid ev"
  shows "txn_run ts (map without_txn evs) = Some (commit_frames ts (concat (map frame_of_work evs)))"
  using assms
proof (induction evs arbitrary: ts)
  case (Cons ev evs)
  then obtain f where f: "frame_of_work ev = [f]" by (cases ev) auto
  have "txn_step ts (without_txn ev) = Some (commit_frame ts f)" using Cons.prems f by (intro commit_frame_step) auto
  then show ?case using Cons f by (auto split: prod.split sum.split)
qed simp

section \<open>Atomicity\<close>

text \<open>
  C2: Transactions are atomic. Take any sequence of events of a session in which a transaction, just
  declared, is not discharged: work of this and of other transactions, work outside transactions,
  declarations, discharges of others, links coming and going. If the transaction is rolled back then,
  the session is in the state in which it would be had the work of the transaction never arrived; if
  it is committed, in the state in which it would be had all of its work arrived at the moment of the
  commit, in order, outside any transaction and with the outcomes the transaction gave it.
\<close>

theorem transactions_are_atomic:
  assumes "txns ts tid = Some resource_transaction_new" and "txn_run ts evs = Some (ts1, Inr ())"
    and "\<forall>ev\<in>set evs. \<not> discharges tid ev"
  shows "txn_run ts (evs @ [TeRollback tid]) = txn_run ts (filter (\<lambda>ev. \<not> work_of tid ev) evs @ [TeRollback tid]) \<and>
    txn_run ts (evs @ [TeCommit tid]) =
      txn_run ts (filter (\<lambda>ev. \<not> work_of tid ev) evs @ [TeRollback tid] @ map without_txn (filter (work_of tid) evs))"
proof -
  let ?new = "resource_transaction_new"
  let ?others = "filter (\<lambda>ev. \<not> work_of tid ev) evs" and ?work = "filter (work_of tid) evs"
  let ?txn = "?new\<lparr>rt_frames := concat (map frame_of_work ?work)\<rparr>"
  obtain ts2 where ts2: "txn_run ts ?others = Some (set_txn ts2 tid (Some ?new), Inr ())"
      "ts1 = set_txn ts2 tid (Some ?txn)"
    using run_collects [OF assms, of ?new] assms(1) by (auto simp: resource_transaction_new_def)
  have commit: "drop_result (commit_transaction ts1 tid) = Some (commit_frames (set_txn ts2 tid None) (rt_frames ?txn))"
    unfolding ts2(2)
    by (auto simp: commit_transaction_def drop_result_def split: prod.split sum.split)
  have run: "txn_run (set_txn ts2 tid None) (map without_txn ?work) =
      Some (commit_frames (set_txn ts2 tid None) (rt_frames ?txn))"
    using commit_frames_run [of ?work tid] by simp
  have roll: "drop_result (rollback_transaction (set_txn ts2 tid (Some x)) tid) = Some (set_txn ts2 tid None, Inr ())" for x
    by (simp add: rollback_transaction_def drop_result_def)
  have "txn_run ts (evs @ [TeRollback tid]) = txn_run ts (?others @ [TeRollback tid])"
    using assms(2) ts2 roll by (simp add: txn_run_append)
  moreover have "txn_run ts (evs @ [TeCommit tid]) = txn_run ts (?others @ [TeRollback tid] @ map without_txn ?work)"
    using assms(2) ts2(1) roll commit run by (auto simp: txn_run_append split: prod.split sum.split)
  ultimately show ?thesis by blast
qed

text \<open>A transaction with a delivery posted in it, beside a delivery outside of it.\<close>

definition example_txn_session :: txn_session where
  "example_txn_session = \<lparr>ts_control = \<lparr>rx_alive = True, sent = []\<rparr>,
     ts_session = example_session\<lparr>s_link_by_input_handle := [0 \<mapsto> with_output_handle (new_receiver \<lparr>rx_alive = True, sent = []\<rparr>
       example_state None First) 3]\<rparr>,
     ts_txn_manager = \<lparr>tm_control_link_outgoing = \<lparr>rx_alive = True, sent = []\<rparr>, tm_txns = [[5] \<mapsto> resource_transaction_new]\<rparr>,
     ts_max_frame_size = 512, ts_control_attaches = []\<rparr>"

definition example_post :: transfer where
  "example_post = example_transfer\<lparr>tr_delivery_id := Some 7, tr_state := Some (TransactionalState [5] None)\<rparr>"

definition example_plain :: transfer where
  "example_plain = example_transfer\<lparr>tr_delivery_id := Some 8\<rparr>"

lemmas txn_example_defs = example_txn_session_def example_post_def example_plain_def example_transfer_def
  example_session_def example_state_def txn_on_incoming_transfer_def on_incoming_post_def drop_result_def
  lift_session_def on_incoming_transfer_def relay_on_incoming_transfer.simps relay_send.simps new_receiver_def set_txn_def
  resource_transaction_new_def chan_send_def discharged_state_def Let_def

theorem transactions_are_atomic_witness:
  "txn_run example_txn_session [TeTransfer example_post [1], TeTransfer example_plain [2], TeRollback [5]] =
     txn_run example_txn_session [TeTransfer example_plain [2], TeRollback [5]] \<and>
   txn_run example_txn_session [TeTransfer example_post [1], TeTransfer example_plain [2], TeCommit [5]] =
     txn_run example_txn_session [TeTransfer example_plain [2], TeRollback [5],
       TeTransfer (example_post\<lparr>tr_state := None\<rparr>) [1]] \<and>
   (\<exists>ts. txn_run example_txn_session [TeTransfer example_post [1], TeTransfer example_plain [2], TeCommit [5]] =
      Some (ts, Inr ()) \<and> s_next_incoming_id (ts_session ts) = 2)"
proof -
  let ?evs = "[TeTransfer example_post [1], TeTransfer example_plain [2]]"
  have states: "tr_state example_post = Some (TransactionalState [5] None)" "tr_state example_plain = None"
    by (simp_all add: example_post_def example_plain_def example_transfer_def)
  obtain ts1 where run: "txn_run example_txn_session ?evs = Some (ts1, Inr ())"
    by (simp add: txn_example_defs)
  have "\<exists>ts. txn_run example_txn_session (?evs @ [TeCommit [5]]) = Some (ts, Inr ()) \<and> s_next_incoming_id (ts_session ts) = 2"
    by (simp add: txn_example_defs commit_transaction_def wrapping_add_def)
  then show ?thesis
    using transactions_are_atomic [OF _ run, of "[5]"] states
    by (simp add: example_txn_session_def in_txn_def discharged_state_def)
qed

section \<open>The window of a session with a transaction\<close>

lemma run_posts:
  assumes "txns ts tid = Some txn" and "\<forall>(t, p)\<in>set posts. in_txn tid (tr_state t)"
  shows "\<exists>txn'. txn_run ts (map (\<lambda>(t, p). TeTransfer t p) posts) = Some (set_txn ts tid (Some txn'), Inr ())"
  using assms
proof (induction posts arbitrary: ts txn)
  case Nil
  then show ?case by (intro exI [of _ txn]) simp
next
  case (Cons x posts)
  obtain t p where x: "x = (t, p)" by fastforce
  let ?txn = "txn\<lparr>rt_frames := rt_frames txn @ [Post t p]\<rparr>"
  have step: "txn_step ts (TeTransfer t p) = Some (set_txn ts tid (Some ?txn), Inr ())"
    using step_work [OF Cons.prems(1), of "TeTransfer t p"] Cons.prems(2) x by simp
  obtain txn' where "txn_run (set_txn ts tid (Some ?txn)) (map (\<lambda>(t, p). TeTransfer t p) posts) =
      Some (set_txn (set_txn ts tid (Some ?txn)) tid (Some txn'), Inr ())"
    using Cons.IH [of "set_txn ts tid (Some ?txn)" ?txn] Cons.prems(2) by auto
  then show ?case using step x by (intro exI [of _ txn']) simp
qed

text \<open>
  C39: A transaction that fills the window of its session can never be discharged. The transfers that
  wait in a transaction are not counted by the session: after as many of them as the window has room
  for, the session owes no flow, and a flow it sends all the same announces the window of before the
  transaction, which leaves a peer that has sent them no room. The peer therefore buffers whatever it
  is to send next, the discharge of the transaction included.
\<close>

theorem transaction_fills_the_window:
  assumes "txns ts tid = Some txn" and "\<forall>(t, p)\<in>set posts. in_txn tid (tr_state t)"
    and "length posts = unat (s_incoming_window (ts_session ts))"
    and "s_need_flow_count (ts_session ts) < s_incoming_window (ts_session ts) div 2"
    and "unat (s_next_incoming_id (ts_session ts)) + length posts < 2 ^ 32"
    and "s_next_outgoing_id peer = s_next_incoming_id (ts_session ts) + of_nat (length posts)"
  shows "\<exists>ts' fl. txn_run ts (map (\<lambda>(t, p). TeTransfer t p) posts) = Some (ts', Inr ()) \<and>
    maybe_outgoing_session_flow (ts_session ts') = (ts_session ts', None) \<and>
    sf_body (on_outgoing_session_flow (ts_session ts')) = SfFlow fl \<and>
    on_outgoing_transfer (update_windows peer fl) h t p f =
      ((update_windows peer fl)\<lparr>s_exhausted_buffer := s_exhausted_buffer peer @ [(h, t, p, f)]\<rparr>, Inr None)"
proof -
  obtain txn' where run: "txn_run ts (map (\<lambda>(t, p). TeTransfer t p) posts) = Some (set_txn ts tid (Some txn'), Inr ())"
    using run_posts [OF assms(1,2)] by blast
  let ?s = "ts_session ts"
  obtain fl where fl: "sf_body (on_outgoing_session_flow ?s) = SfFlow fl"
      "fl_next_incoming_id fl = Some (s_next_incoming_id ?s)" "fl_incoming_window fl = s_incoming_window ?s"
    by (simp add: on_outgoing_session_flow_def session_frame_new_def)
  have "unat (s_next_outgoing_id peer) = unat (s_next_incoming_id ?s) + length posts"
    using assms(5,6) by (simp add: unat_word_ariths unat_of_nat take_bit_eq_mod)
  then have "unat (s_remote_incoming_window (update_windows peer fl)) = 0"
    using fl(2,3) assms(3) by (simp add: update_windows_def unat_saturating_sub unat_saturating_add)
  then have "s_remote_incoming_window (update_windows peer fl) = 0" by (simp add: unat_eq_zero)
  then have "on_outgoing_transfer (update_windows peer fl) h t p f =
      ((update_windows peer fl)\<lparr>s_exhausted_buffer := s_exhausted_buffer peer @ [(h, t, p, f)]\<rparr>, Inr None)"
    using fl(2) by (simp add: on_outgoing_transfer_def update_windows_def)
  moreover have "maybe_outgoing_session_flow ?s = (?s, None)"
    using assms(4) by (auto simp: maybe_outgoing_session_flow_def)
  ultimately show ?thesis using run fl(1) by auto
qed

theorem transaction_fills_the_window_witness:
  "\<exists>ts' fl. txn_run example_txn_session (replicate 8 (TeTransfer example_post [1])) = Some (ts', Inr ()) \<and>
     maybe_outgoing_session_flow (ts_session ts') = (ts_session ts', None) \<and>
     sf_body (on_outgoing_session_flow (ts_session ts')) = SfFlow fl \<and>
     snd (on_outgoing_transfer (update_windows (example_session\<lparr>s_next_outgoing_id := 8\<rparr>) fl) 0 example_plain [2] True) = Inr None"
proof -
  let ?posts = "replicate 8 (example_post, [1])"
  have "txns example_txn_session [5] = Some resource_transaction_new" by (simp add: example_txn_session_def)
  moreover have "\<forall>(t, p)\<in>set ?posts. in_txn [5] (tr_state t)" by (simp add: example_post_def in_txn_def)
  moreover have "ts_session example_txn_session = example_session\<lparr>s_link_by_input_handle := s_link_by_input_handle (ts_session example_txn_session)\<rparr>"
    by (simp add: example_txn_session_def)
  then have "s_incoming_window (ts_session example_txn_session) = 8" "s_next_incoming_id (ts_session example_txn_session) = 0"
      "s_need_flow_count (ts_session example_txn_session) = 0"
    by (simp_all add: example_txn_session_def example_session_def)
  ultimately show ?thesis
    using transaction_fills_the_window [of example_txn_session "[5]" resource_transaction_new ?posts
        "example_session\<lparr>s_next_outgoing_id := 8\<rparr>" 0 example_plain "[2]" True]
    by auto
qed

end
