(* ===== verification/Transaction_Coordinator.thy ===== *)
theory Transaction_Coordinator
  imports Transaction_Atomicity Link_Handshake
begin

text \<open>
  The coordinator at the end of a control link (transaction/coordinator.rs), which declares and
  discharges transactions at the transaction manager of its session. A request travels to the session
  over its control channel and the coordinator awaits the answer, so a request is the operation of the
  session; a session that has stopped is \<open>None\<close>. What \<open>recv\<close> of the link yields is an argument of the
  event loop.
\<close>

section \<open>State and errors\<close>

datatype control_message_body = CbDeclare "bytes option" | CbDischarge bytes "bool option"

datatype alloc_txn_id_error = AteNotImplemented | AteInvalidSessionState

datatype discharge_error = DgInvalidSessionState | DgTransactionError transaction_error

datatype coordinator_error = CeGlobalIdNotImplemented | CeInvalidSessionState | CeAllocTxnIdNotImplemented
  | CeTransactionError transaction_error

fun coordinator_error_of_alloc :: "alloc_txn_id_error \<Rightarrow> coordinator_error" where
  "coordinator_error_of_alloc AteNotImplemented = CeAllocTxnIdNotImplemented"
| "coordinator_error_of_alloc AteInvalidSessionState = CeInvalidSessionState"

fun coordinator_error_of_discharge :: "discharge_error \<Rightarrow> coordinator_error" where
  "coordinator_error_of_discharge DgInvalidSessionState = CeInvalidSessionState"
| "coordinator_error_of_discharge (DgTransactionError e) = CeTransactionError e"

text \<open>The link of the coordinator is in both records; the second holds the channels around it.\<close>

record txn_coordinator =
  co_inner :: receiver_inner
  co_channels :: "receiver_link link_inner"
  co_txn_ids :: "bytes set"

text \<open>The session, \<open>None\<close> once it has stopped, and the number of identifiers drawn.\<close>

type_synonym txn_resource = "txn_session option \<times> nat"

section \<open>Requests to the session\<close>

definition request_transaction_id ::
    "(nat \<Rightarrow> bytes) \<Rightarrow> txn_resource \<Rightarrow> (txn_resource \<times> (alloc_txn_id_error + bytes)) option" where
  "request_transaction_id uuids r =
     (case r of
        (None, n) \<Rightarrow> Some (r, Inl AteInvalidSessionState)
      | (Some ts, n) \<Rightarrow>
          map_option (\<lambda>(ts1, tid, n1). ((Some ts1, n1), Inr tid)) (allocate_transaction_id uuids n ts))"

text \<open>An error inside the session stops it before it answers.\<close>

definition request_discharge ::
    "(txn_session \<Rightarrow> bytes \<Rightarrow> txn_session \<times> (session_inner_error + (transaction_error + unit))) \<Rightarrow>
     txn_resource \<Rightarrow> bytes \<Rightarrow> txn_resource \<times> (discharge_error + unit)" where
  "request_discharge operation r tid =
     (case r of
        (None, n) \<Rightarrow> (r, Inl DgInvalidSessionState)
      | (Some ts, n) \<Rightarrow>
          (case operation ts tid of
             (_, Inl _) \<Rightarrow> ((None, n), Inl DgInvalidSessionState)
           | (ts1, Inr (Inl e)) \<Rightarrow> ((Some ts1, n), Inl (DgTransactionError e))
           | (ts1, Inr (Inr _)) \<Rightarrow> ((Some ts1, n), Inr ())))"

section \<open>Declaring and discharging\<close>

definition on_declare ::
    "(nat \<Rightarrow> bytes) \<Rightarrow> txn_coordinator \<Rightarrow> txn_resource \<Rightarrow> bytes option \<Rightarrow>
     (txn_coordinator \<times> txn_resource \<times> (coordinator_error + bytes)) option" where
  "on_declare uuids c r global_id =
     (if global_id \<noteq> None then Some (c, r, Inl CeGlobalIdNotImplemented)
      else case request_transaction_id uuids r of
        None \<Rightarrow> None
      | Some (r1, Inl e) \<Rightarrow> Some (c, r1, Inl (coordinator_error_of_alloc e))
      | Some (r1, Inr tid) \<Rightarrow> Some (c\<lparr>co_txn_ids := insert tid (co_txn_ids c)\<rparr>, r1, Inr tid))"

definition on_discharge ::
    "txn_coordinator \<Rightarrow> txn_resource \<Rightarrow> bytes \<Rightarrow> bool option \<Rightarrow>
     txn_coordinator \<times> txn_resource \<times> (coordinator_error + unit)" where
  "on_discharge c r tid fail =
     (if tid \<notin> co_txn_ids c then (c, r, Inl (CeTransactionError UnknownId))
      else
        (let c1 = c\<lparr>co_txn_ids := co_txn_ids c - {tid}\<rparr>;
             operation = (if fail = Some True then rollback_transaction else commit_transaction)
         in case request_discharge operation r tid of
              (r1, Inl e) \<Rightarrow> (c1, r1, Inl (coordinator_error_of_discharge e))
            | (r1, Inr _) \<Rightarrow> (c1, r1, Inr ())))"

section \<open>Answering on the link\<close>

definition co_dispose ::
    "txn_coordinator \<Rightarrow> delivery_info \<Rightarrow> bool option \<Rightarrow> delivery_state \<Rightarrow> txn_coordinator \<times> (link_state_error + unit)" where
  "co_dispose c info settled state =
     (case dispose (co_inner c) info settled state of
        (inner, x) \<Rightarrow>
          (c\<lparr>co_inner := inner, co_channels := (co_channels c)\<lparr>ln_link := ri_link inner, ln_outgoing := ri_outgoing inner\<rparr>\<rparr>, x))"

definition co_close ::
    "(receiver_attach_error \<Rightarrow> string) \<Rightarrow> txn_coordinator \<Rightarrow> amqp_error option \<Rightarrow> txn_coordinator option" where
  "co_close debug c error =
     map_option (\<lambda>(n, _). c\<lparr>co_channels := n, co_inner := (co_inner c)\<lparr>ri_link := ln_link n, ri_outgoing := ln_outgoing n\<rparr>\<rparr>)
       (close_with_error (receiver_reattach_inner TypeCoordinator debug) (co_channels c) error)"

definition co_close_then_stop ::
    "(receiver_attach_error \<Rightarrow> string) \<Rightarrow> txn_coordinator \<Rightarrow> amqp_error option \<Rightarrow> (txn_coordinator \<times> running) option" where
  "co_close_then_stop debug c error = map_option (\<lambda>c1. (c1, Stop)) (co_close debug c error)"

definition co_reject ::
    "txn_coordinator \<Rightarrow> delivery_info \<Rightarrow> transaction_error \<Rightarrow> string option \<Rightarrow> txn_coordinator \<times> (link_state_error + unit)" where
  "co_reject c info error description =
     co_dispose c info (Some True) (Rejected (Some (condition_error (TransactionError error) description)))"

text \<open>What is sent back: the state of the delivery, or nothing when the session is gone.\<close>

fun disposition_of_result ::
    "txn_coordinator \<Rightarrow> delivery_info \<Rightarrow> coordinator_error + delivery_state \<Rightarrow>
     (txn_coordinator \<times> (link_state_error + unit)) option" where
  "disposition_of_result c info (Inr state) = Some (co_dispose c info (Some True) state)"
| "disposition_of_result c info (Inl CeGlobalIdNotImplemented) =
     Some (co_reject c info UnknownId (Some ''Global transaction ID is not implemented''))"
| "disposition_of_result c info (Inl CeInvalidSessionState) = None"
| "disposition_of_result c info (Inl CeAllocTxnIdNotImplemented) =
     Some (co_reject c info UnknownId (Some ''Allocation of new transaction ID is not implemented''))"
| "disposition_of_result c info (Inl (CeTransactionError e)) = Some (co_reject c info e None)"

definition handle_delivery_result ::
    "(receiver_attach_error \<Rightarrow> string) \<Rightarrow> txn_coordinator \<Rightarrow> delivery_info \<Rightarrow> coordinator_error + delivery_state \<Rightarrow>
     (txn_coordinator \<times> running) option" where
  "handle_delivery_result debug c info result =
     (case disposition_of_result c info result of
        None \<Rightarrow> Some (c, Stop)
      | Some (c1, Inr _) \<Rightarrow> Some (c1, Continue)
      | Some (c1, Inl (LseSessionStopped _)) \<Rightarrow> Some (c1, Stop)
      | Some (c1, Inl _) \<Rightarrow> co_close_then_stop debug c1 (Some (condition_error (AmqpError AmqpIllegalState) None)))"

definition on_delivery ::
    "(nat \<Rightarrow> bytes) \<Rightarrow> (receiver_attach_error \<Rightarrow> string) \<Rightarrow> txn_coordinator \<Rightarrow> txn_resource \<Rightarrow>
     delivery_info \<Rightarrow> control_message_body \<Rightarrow> (txn_coordinator \<times> txn_resource \<times> running) option" where
  "on_delivery uuids debug c r info body =
     (case (case body of
              CbDeclare global_id \<Rightarrow>
                map_option (\<lambda>(c1, r1, x). (c1, r1, map_sum (\<lambda>e. e) Declared x)) (on_declare uuids c r global_id)
            | CbDischarge tid fail \<Rightarrow>
                (case on_discharge c r tid fail of (c1, r1, x) \<Rightarrow> Some (c1, r1, map_sum (\<lambda>e. e) (\<lambda>_. Accepted) x))) of
        None \<Rightarrow> None
      | Some (c1, r1, x) \<Rightarrow> map_option (\<lambda>(c2, running). (c2, r1, running)) (handle_delivery_result debug c1 info x))"

section \<open>The loop\<close>

text \<open>\<open>show\<close> is the debug format of an error.\<close>

fun on_recv_error ::
    "(recv_error \<Rightarrow> string) \<Rightarrow> (receiver_attach_error \<Rightarrow> string) \<Rightarrow> txn_coordinator \<Rightarrow> recv_error \<Rightarrow>
     (txn_coordinator \<times> running) option" where
  "on_recv_error shw debug c (RevLinkStateError LseIllegalState) =
     co_close_then_stop debug c (Some (condition_error (AmqpError AmqpIllegalState) None))"
| "on_recv_error shw debug c (RevLinkStateError (LseSessionStopped _)) = Some (c, Stop)"
| "on_recv_error shw debug c (RevLinkStateError _) = co_close_then_stop debug c None"
| "on_recv_error shw debug c RevTransferLimitExceeded =
     co_close_then_stop debug c (Some (condition_error (LinkError TransferLimitExceeded) None))"
| "on_recv_error shw debug c e =
     co_close_then_stop debug c (Some (condition_error (AmqpError NotAllowed) (Some (shw e))))"

fun on_deliveries ::
    "(nat \<Rightarrow> bytes) \<Rightarrow> (receiver_attach_error \<Rightarrow> string) \<Rightarrow> txn_coordinator \<Rightarrow> txn_resource \<Rightarrow>
     (delivery_info \<times> control_message_body) list \<Rightarrow> (txn_coordinator \<times> txn_resource) option" where
  "on_deliveries uuids debug c r [] = Some (c, r)"
| "on_deliveries uuids debug c r ((info, body) # ds) =
     (case on_delivery uuids debug c r info body of
        None \<Rightarrow> None
      | Some (c1, r1, _) \<Rightarrow> on_deliveries uuids debug c1 r1 ds)"

text \<open>What \<open>recv\<close> yields: a delivery, or an error with the deliveries still queued behind it.\<close>

datatype co_received = CoDelivery delivery_info control_message_body
  | CoError recv_error "(delivery_info \<times> control_message_body) list"

fun co_event ::
    "(nat \<Rightarrow> bytes) \<Rightarrow> (recv_error \<Rightarrow> string) \<Rightarrow> (receiver_attach_error \<Rightarrow> string) \<Rightarrow> txn_coordinator \<Rightarrow> txn_resource \<Rightarrow>
     co_received \<Rightarrow> (txn_coordinator \<times> txn_resource \<times> running) option" where
  "co_event uuids shw debug c r (CoDelivery info body) = on_delivery uuids debug c r info body"
| "co_event uuids shw debug c r (CoError e queued) =
     (case on_deliveries uuids debug c r queued of
        None \<Rightarrow> None
      | Some (c1, r1) \<Rightarrow> map_option (\<lambda>(c2, running). (c2, r1, running)) (on_recv_error shw debug c1 e))"

text \<open>
  \<open>Drop\<close>: the identifiers in the order of the hash set, of which the control channel of the session
  takes as many as it has room for; the session rolls back what it is told to abort.
\<close>

definition abort_transaction :: "txn_session \<Rightarrow> bytes \<Rightarrow> txn_session" where
  "abort_transaction ts tid = fst (rollback_transaction ts tid)"

definition co_drop :: "nat \<Rightarrow> bytes list \<Rightarrow> txn_resource \<Rightarrow> txn_resource" where
  "co_drop room order r =
     (case r of
        (None, n) \<Rightarrow> r
      | (Some ts, n) \<Rightarrow> (Some (foldl abort_transaction ts (take room order)), n))"

text \<open>The loop over what \<open>recv\<close> yields; \<open>None\<close> for the coordinator once it has stopped and is dropped.\<close>

fun co_event_loop ::
    "(nat \<Rightarrow> bytes) \<Rightarrow> (recv_error \<Rightarrow> string) \<Rightarrow> (receiver_attach_error \<Rightarrow> string) \<Rightarrow> nat \<Rightarrow>
     (bytes set \<Rightarrow> bytes list) \<Rightarrow> txn_coordinator \<Rightarrow> txn_resource \<Rightarrow> co_received list \<Rightarrow>
     (txn_coordinator option \<times> txn_resource) option" where
  "co_event_loop uuids shw debug room order c r [] = Some (Some c, r)"
| "co_event_loop uuids shw debug room order c r (received # rest) =
     (case co_event uuids shw debug c r received of
        None \<Rightarrow> None
      | Some (c1, r1, Continue) \<Rightarrow> co_event_loop uuids shw debug room order c1 r1 rest
      | Some (c1, r1, Stop) \<Rightarrow> Some (None, co_drop room (order (co_txn_ids c1)) r1))"

section \<open>What a coordinator relies on\<close>

text \<open>
  The contract of a transaction manager: a new identifier is not in use and is live from then on; a
  discharge ends exactly the transaction it names and refuses the ones it does not know.
\<close>

locale transaction_resource =
  fixes live :: "'s \<Rightarrow> bytes set"
    and alloc :: "'s \<Rightarrow> 's \<Rightarrow> bytes \<Rightarrow> bool"
    and discharge :: "bool \<Rightarrow> 's \<Rightarrow> bytes \<Rightarrow> 's \<times> ('e + (transaction_error + unit))"
  assumes alloc_fresh: "alloc s s' tid \<Longrightarrow> tid \<notin> live s"
    and alloc_live: "alloc s s' tid \<Longrightarrow> live s' = insert tid (live s)"
    and discharge_unknown: "tid \<notin> live s \<Longrightarrow> discharge fail s tid = (s, Inr (Inl UnknownId))"
    and discharge_ends: "tid \<in> live s \<Longrightarrow> discharge fail s tid = (s', x) \<Longrightarrow> live s' = live s - {tid}"
    and discharge_known: "tid \<in> live s \<Longrightarrow> discharge fail s tid = (s', Inr y) \<Longrightarrow> y = Inr ()"
begin

text \<open>The live transactions are those of one client and, apart from them, those of all others.\<close>

definition shared :: "bytes set \<Rightarrow> bytes set \<Rightarrow> 's \<Rightarrow> bool" where
  "shared others mine s \<longleftrightarrow> live s = others \<union> mine \<and> others \<inter> mine = {}"

lemma alloc_shared: "shared others mine s \<Longrightarrow> alloc s s' tid \<Longrightarrow> shared others (insert tid mine) s'"
  using alloc_fresh alloc_live unfolding shared_def by blast

lemma discharge_shared:
  "shared others mine s \<Longrightarrow> tid \<in> mine \<Longrightarrow> discharge fail s tid = (s', x) \<Longrightarrow> shared others (mine - {tid}) s'"
  using discharge_ends [of tid s fail s' x] unfolding shared_def by blast

lemma discharge_mine:
  "shared others mine s \<Longrightarrow> tid \<in> mine \<Longrightarrow> discharge fail s tid = (s', Inr x) \<Longrightarrow> x = Inr ()"
  using discharge_known unfolding shared_def by blast

end

definition manager_alloc :: "txn_session \<Rightarrow> txn_session \<Rightarrow> bytes \<Rightarrow> bool" where
  "manager_alloc ts ts' tid \<longleftrightarrow> (\<exists>uuids n n'. allocate_transaction_id uuids n ts = Some (ts', tid, n'))"

definition manager_discharge ::
    "bool \<Rightarrow> txn_session \<Rightarrow> bytes \<Rightarrow> txn_session \<times> (session_inner_error + (transaction_error + unit))" where
  "manager_discharge fail = (if fail then rollback_transaction else commit_transaction)"

lemma commit_live:
  assumes "tid \<in> dom (txns ts)" and "commit_transaction ts tid = (ts', x)"
  shows "dom (txns ts') = dom (txns ts) - {tid}" and "x = Inr y \<Longrightarrow> y = Inr ()"
proof -
  obtain txn where txn: "txns ts tid = Some txn" using assms(1) by blast
  obtain ts1 r where c: "commit_frames (set_txn ts tid None) (rt_frames txn) = (ts1, r)" by fastforce
  then have "txns ts1 = (txns ts)(tid := None)" using txns_commit_frames [of "set_txn ts tid None" "rt_frames txn"] by simp
  then show "dom (txns ts') = dom (txns ts) - {tid}"
    using assms(2) txn c by (auto simp: commit_transaction_def split: sum.splits if_splits)
  show "x = Inr y \<Longrightarrow> y = Inr ()" using assms(2) txn c by (auto simp: commit_transaction_def split: sum.splits)
qed

interpretation manager: transaction_resource "\<lambda>ts. dom (txns ts)" manager_alloc manager_discharge
proof (unfold_locales, goal_cases)
  case (1 s s' tid)
  then show ?case using draw_txn_id_fresh
    by (fastforce simp: manager_alloc_def allocate_transaction_id_def split: option.splits)
next
  case (2 s s' tid)
  then show ?case by (auto simp: manager_alloc_def allocate_transaction_id_def split: option.splits if_splits)
next
  case (3 tid s fail)
  then show ?case by (auto simp: manager_discharge_def commit_transaction_def rollback_transaction_def split: option.split)
next
  case (4 tid s fail s' x)
  then show ?case using commit_live(1) [of tid s s' x]
    by (auto simp: manager_discharge_def rollback_transaction_def split: option.splits if_splits)
next
  case (5 tid s fail s' x)
  then show ?case using commit_live(2) [of tid s s' "Inr x" x]
    by (auto simp: manager_discharge_def rollback_transaction_def split: option.splits if_splits)
qed

text \<open>As long as the session runs, its transactions are those of a coordinator and of the others.\<close>

definition co_ok :: "bytes set \<Rightarrow> txn_coordinator \<Rightarrow> txn_resource \<Rightarrow> bool" where
  "co_ok others c r \<longleftrightarrow> (\<forall>ts. fst r = Some ts \<longrightarrow> manager.shared others (co_txn_ids c) ts)"

lemma on_declare_ok:
  assumes "on_declare uuids c r global_id = Some (c', r', x)" and "co_ok others c r" shows "co_ok others c' r'"
proof (cases "fst r")
  case None
  then show ?thesis using assms
    by (cases r) (auto simp: on_declare_def request_transaction_id_def co_ok_def split: if_splits)
next
  case (Some ts)
  then obtain n where r: "r = (Some ts, n)" by (cases r) auto
  have "manager.shared others (insert tid (co_txn_ids c)) ts1"
    if "allocate_transaction_id uuids n ts = Some (ts1, tid, n1)" for ts1 tid n1
    using manager.alloc_shared assms(2) r that unfolding co_ok_def manager_alloc_def by fastforce
  then show ?thesis using assms r
    by (auto simp: on_declare_def request_transaction_id_def co_ok_def split: if_splits option.splits sum.splits)
qed

lemma on_discharge_ok:
  assumes "on_discharge c r tid fail = (c', r', x)" and "co_ok others c r"
  shows "co_ok others c' r'"
    and "tid \<in> co_txn_ids c \<Longrightarrow> fst r = Some ts \<Longrightarrow>
      x = Inr () \<and> (\<exists>ts'. fst r' = Some ts' \<and> dom (txns ts') = dom (txns ts) - {tid}) \<or>
      x = Inl CeInvalidSessionState \<and> fst r' = None"
proof -
  let ?op = "manager_discharge (fail = Some True)"
  have op: "(if fail = Some True then rollback_transaction else commit_transaction) = ?op"
    by (simp add: manager_discharge_def)
  have sh: "manager.shared others (co_txn_ids c) ts" if "fst r = Some ts" for ts
    using that assms(2) by (simp add: co_ok_def)
  have ends: "manager.shared others (co_txn_ids c - {tid}) ts'" "dom (txns ts') = dom (txns ts) - {tid}"
    if "fst r = Some ts" "tid \<in> co_txn_ids c" "?op ts tid = (ts', y)" for ts ts' y
  proof -
    show "manager.shared others (co_txn_ids c - {tid}) ts'" by (rule manager.discharge_shared [OF sh [OF that(1)] that(2,3)])
    have "tid \<in> dom (txns ts)" using sh [OF that(1)] that(2) unfolding manager.shared_def by blast
    then show "dom (txns ts') = dom (txns ts) - {tid}" using that(3) by (rule manager.discharge_ends)
  qed
  have accepts: "y = Inr z \<Longrightarrow> z = Inr ()" if "fst r = Some ts" "tid \<in> co_txn_ids c" "?op ts tid = (ts', y)" for ts ts' y z
    using manager.discharge_mine [OF sh [OF that(1)] that(2)] that(3) by simp
  show "co_ok others c' r'"
  proof (cases "tid \<in> co_txn_ids c \<and> fst r \<noteq> None")
    case True
    then obtain ts n where "r = (Some ts, n)" by (cases r) auto
    moreover obtain ts' y where "?op ts tid = (ts', y)" by fastforce
    ultimately show ?thesis using True assms(1) ends(1) [of ts ts' y] accepts [of ts ts' y] op
      by (auto simp: on_discharge_def request_discharge_def co_ok_def Let_def split: sum.splits)
  next
    case False
    then show ?thesis using assms
      by (cases r) (auto simp: on_discharge_def request_discharge_def co_ok_def Let_def split: if_splits)
  qed
  assume mine: "tid \<in> co_txn_ids c" and "fst r = Some ts"
  then obtain n where r: "r = (Some ts, n)" by (cases r) auto
  obtain ts' y where y: "?op ts tid = (ts', y)" by fastforce
  then show "x = Inr () \<and> (\<exists>ts'. fst r' = Some ts' \<and> dom (txns ts') = dom (txns ts) - {tid}) \<or>
      x = Inl CeInvalidSessionState \<and> fst r' = None"
    using assms(1) ends(2) [of ts ts' y] accepts [of ts ts' y] op mine r
    by (auto simp: on_discharge_def request_discharge_def Let_def split: sum.splits)
qed

end
