(* ===== verification/Transaction_System.thy ===== *)
theory Transaction_System
  imports Transaction_Coordinator
begin

text \<open>
  A session with its coordinators: whatever the controllers and the peer do, every transaction that is
  live belongs to exactly one coordinator, which is the only one that can discharge it.
\<close>

section \<open>Coordinators keep the account\<close>

lemma co_ok_ids: "co_txn_ids c' = co_txn_ids c \<Longrightarrow> co_ok others c' r = co_ok others c r"
  by (simp add: co_ok_def)

lemma co_dispose_ids [simp]: "co_txn_ids (fst (co_dispose c info settled state)) = co_txn_ids c"
  by (simp add: co_dispose_def split: prod.split)

lemma disposition_of_result_ids:
  "disposition_of_result c info x = Some (c', y) \<Longrightarrow> co_txn_ids c' = co_txn_ids c"
  by (induction c info x rule: disposition_of_result.induct) (auto simp: co_reject_def, (metis co_dispose_ids fst_conv)+)

lemma co_close_then_stop_ids: "co_close_then_stop debug c e = Some (c', run) \<Longrightarrow> co_txn_ids c' = co_txn_ids c"
  by (auto simp: co_close_then_stop_def co_close_def)

lemma handle_delivery_result_ids:
  assumes "handle_delivery_result debug c info x = Some (c', run)" shows "co_txn_ids c' = co_txn_ids c"
proof (cases "disposition_of_result c info x")
  case None
  then show ?thesis using assms by (simp add: handle_delivery_result_def)
next
  case (Some cy)
  obtain c1 y where cy: "cy = (c1, y)" by fastforce
  then have "co_txn_ids c1 = co_txn_ids c" using disposition_of_result_ids Some by simp
  moreover have "co_txn_ids c' = co_txn_ids c1"
    using assms Some cy by (cases y; cases "projl y") (auto simp: handle_delivery_result_def dest: co_close_then_stop_ids)
  ultimately show ?thesis by simp
qed

lemma on_recv_error_ids: "on_recv_error shw debug c e = Some (c', run) \<Longrightarrow> co_txn_ids c' = co_txn_ids c"
  by (induction shw debug c e rule: on_recv_error.induct) (auto dest: co_close_then_stop_ids)

lemma on_delivery_ok:
  assumes "on_delivery uuids debug c r info body = Some (c', r', run)" and "co_ok others c r"
  shows "co_ok others c' r'"
proof (cases body)
  case (CbDeclare global_id)
  then obtain c1 x where "on_declare uuids c r global_id = Some (c1, r', x)" "co_txn_ids c' = co_txn_ids c1"
    using assms(1) by (auto simp: on_delivery_def dest!: handle_delivery_result_ids split: option.splits)
  then show ?thesis using on_declare_ok assms(2) co_ok_ids by blast
next
  case (CbDischarge tid fail)
  then obtain c1 x where "on_discharge c r tid fail = (c1, r', x)" "co_txn_ids c' = co_txn_ids c1"
    using assms(1) by (auto simp: on_delivery_def dest!: handle_delivery_result_ids split: option.splits prod.splits)
  then show ?thesis using on_discharge_ok(1) assms(2) co_ok_ids by blast
qed

lemma on_deliveries_ok:
  "on_deliveries uuids debug c r ds = Some (c', r') \<Longrightarrow> co_ok others c r \<Longrightarrow> co_ok others c' r'"
  by (induction uuids debug c r ds rule: on_deliveries.induct) (auto dest: on_delivery_ok split: option.splits)

lemma co_event_ok:
  "co_event uuids shw debug c r received = Some (c', r', run) \<Longrightarrow> co_ok others c r \<Longrightarrow> co_ok others c' r'"
proof (cases received)
  case (CoDelivery info body)
  then show "co_event uuids shw debug c r received = Some (c', r', run) \<Longrightarrow> co_ok others c r \<Longrightarrow> co_ok others c' r'"
    using on_delivery_ok by simp
next
  case (CoError e queued)
  assume "co_event uuids shw debug c r received = Some (c', r', run)" and ok: "co_ok others c r"
  then obtain c1 where c1: "on_deliveries uuids debug c r queued = Some (c1, r')" "on_recv_error shw debug c1 e = Some (c', run)"
    using CoError by (auto split: option.splits)
  show "co_ok others c' r'"
    using on_deliveries_ok [OF c1(1) ok] co_ok_ids [OF on_recv_error_ids [OF c1(2)]] by simp
qed

text \<open>A session that has stopped does not start again.\<close>

lemma on_delivery_running:
  "on_delivery uuids debug c r info body = Some (c', r', run) \<Longrightarrow> fst r' \<noteq> None \<Longrightarrow> fst r \<noteq> None"
  by (cases r)
    (auto simp: on_delivery_def on_declare_def on_discharge_def request_transaction_id_def request_discharge_def Let_def
      split: control_message_body.splits option.splits prod.splits if_splits)

lemma on_deliveries_running:
  "on_deliveries uuids debug c r ds = Some (c', r') \<Longrightarrow> fst r' \<noteq> None \<Longrightarrow> fst r \<noteq> None"
proof (induction uuids debug c r ds rule: on_deliveries.induct)
  case (2 uuids debug c r info body ds)
  then obtain c1 r1 run where "on_delivery uuids debug c r info body = Some (c1, r1, run)"
      "on_deliveries uuids debug c1 r1 ds = Some (c', r')"
    by (auto split: option.splits)
  with 2 show ?case using on_delivery_running by metis
qed simp

lemma co_event_running:
  "co_event uuids shw debug c r received = Some (c', r', run) \<Longrightarrow> fst r' \<noteq> None \<longrightarrow> fst r \<noteq> None"
  by (cases received) (auto dest: on_delivery_running on_deliveries_running split: option.splits)

section \<open>Dropping a coordinator\<close>

lemma abort_dom: "dom (txns (abort_transaction ts tid)) = dom (txns ts) - {tid}"
  by (auto simp: abort_transaction_def rollback_transaction_def split: option.split if_splits)

lemma aborts_dom: "dom (txns (foldl abort_transaction ts tids)) = dom (txns ts) - set tids"
  by (induction tids arbitrary: ts) (auto simp: abort_dom)

text \<open>With too little room in the control channel the transactions behind stay live.\<close>

lemma co_drop_leaves:
  "co_drop room order (Some ts, n) = (Some ts', n') \<Longrightarrow> dom (txns ts') = dom (txns ts) - set (take room order)"
  by (auto simp: co_drop_def simp flip: aborts_dom)

section \<open>The system\<close>

fun of_peer :: "txn_event \<Rightarrow> bool" where
  "of_peer (TeDeclare _ _) = False"
| "of_peer (TeCommit _) = False"
| "of_peer (TeRollback _) = False"
| "of_peer _ = True"

text \<open>
  Steps of a session and its coordinators: a control link is accepted, a coordinator handles what it
  receives, stops and is dropped (with room in the control channel for all it has to abort), the
  session handles a frame of the peer, or stops.
\<close>

inductive txn_system_step ::
    "(nat \<Rightarrow> bytes) \<Rightarrow> (recv_error \<Rightarrow> string) \<Rightarrow> (receiver_attach_error \<Rightarrow> string) \<Rightarrow>
     txn_resource \<times> (nat \<rightharpoonup> txn_coordinator) \<Rightarrow> txn_resource \<times> (nat \<rightharpoonup> txn_coordinator) \<Rightarrow> bool"
  for uuids shw debug where
  accept: "cs k = None \<Longrightarrow> co_txn_ids c = {} \<Longrightarrow> txn_system_step uuids shw debug (r, cs) (r, cs(k \<mapsto> c))"
| handle: "cs k = Some c \<Longrightarrow> co_event uuids shw debug c r received = Some (c', r', Continue) \<Longrightarrow>
    txn_system_step uuids shw debug (r, cs) (r', cs(k \<mapsto> c'))"
| stop: "cs k = Some c \<Longrightarrow> co_event uuids shw debug c r received = Some (c', r', Stop) \<Longrightarrow>
    set order = co_txn_ids c' \<Longrightarrow> length order \<le> room \<Longrightarrow>
    txn_system_step uuids shw debug (r, cs) (co_drop room order r', cs(k := None))"
| peer: "of_peer ev \<Longrightarrow> txn_step ts ev = Some (ts', Inr ()) \<Longrightarrow>
    txn_system_step uuids shw debug ((Some ts, n), cs) ((Some ts', n), cs)"
| session_stops: "txn_system_step uuids shw debug ((ts, n), cs) ((None, n), cs)"

inductive txn_reachable ::
    "(nat \<Rightarrow> bytes) \<Rightarrow> (recv_error \<Rightarrow> string) \<Rightarrow> (receiver_attach_error \<Rightarrow> string) \<Rightarrow>
     txn_resource \<times> (nat \<rightharpoonup> txn_coordinator) \<Rightarrow> bool"
  for uuids shw debug where
  start: "txns ts = Map.empty \<Longrightarrow> txn_reachable uuids shw debug ((Some ts, n), Map.empty)"
| step: "txn_reachable uuids shw debug s \<Longrightarrow> txn_system_step uuids shw debug s s' \<Longrightarrow> txn_reachable uuids shw debug s'"

definition owned :: "(nat \<rightharpoonup> txn_coordinator) \<Rightarrow> bytes set" where
  "owned cs = {tid. \<exists>k c. cs k = Some c \<and> tid \<in> co_txn_ids c}"

definition separate :: "(nat \<rightharpoonup> txn_coordinator) \<Rightarrow> bool" where
  "separate cs \<longleftrightarrow> (\<forall>k k' c c'. cs k = Some c \<and> cs k' = Some c' \<and> k \<noteq> k' \<longrightarrow> co_txn_ids c \<inter> co_txn_ids c' = {})"

definition system_ok :: "txn_resource \<times> (nat \<rightharpoonup> txn_coordinator) \<Rightarrow> bool" where
  "system_ok s \<longleftrightarrow> (\<forall>ts. fst (fst s) = Some ts \<longrightarrow> dom (txns ts) = owned (snd s) \<and> separate (snd s))"

lemma owned_split:
  assumes "cs k = Some c" shows "owned cs = owned (cs(k := None)) \<union> co_txn_ids c"
proof -
  have "tid \<in> owned cs \<longleftrightarrow> tid \<in> owned (cs(k := None)) \<or> tid \<in> co_txn_ids c" for tid
    unfolding owned_def mem_Collect_eq fun_upd_apply using assms by (metis option.distinct(1) option.inject)
  then show ?thesis by blast
qed

lemma separate_split:
  assumes "cs k = Some c"
  shows "separate cs \<longleftrightarrow> separate (cs(k := None)) \<and> owned (cs(k := None)) \<inter> co_txn_ids c = {}"
proof
  assume s: "separate cs"
  then have "separate (cs(k := None))" unfolding separate_def fun_upd_apply by (metis option.distinct(1))
  moreover have "tid \<notin> co_txn_ids c" if tid: "tid \<in> owned (cs(k := None))" for tid
  proof -
    obtain k' c' where "cs k' = Some c'" "k' \<noteq> k" "tid \<in> co_txn_ids c'" using tid by (auto simp: owned_def split: if_splits)
    then show ?thesis using s assms unfolding separate_def by blast
  qed
  ultimately show "separate (cs(k := None)) \<and> owned (cs(k := None)) \<inter> co_txn_ids c = {}" by blast
next
  assume s: "separate (cs(k := None)) \<and> owned (cs(k := None)) \<inter> co_txn_ids c = {}"
  have apart: "co_txn_ids c' \<inter> co_txn_ids c = {}" if "cs k' = Some c'" "k' \<noteq> k" for k' c'
  proof -
    have "co_txn_ids c' \<subseteq> owned (cs(k := None))" using that by (auto simp: owned_def)
    then show ?thesis using s by blast
  qed
  show "separate cs" unfolding separate_def
  proof (intro allI impI)
    fix i j ci cj assume ij: "cs i = Some ci \<and> cs j = Some cj \<and> i \<noteq> j"
    consider "i = k" | "j = k" | "i \<noteq> k" "j \<noteq> k" by blast
    then show "co_txn_ids ci \<inter> co_txn_ids cj = {}"
    proof cases
      case 1
      then show ?thesis using ij assms apart [of j cj] by auto
    next
      case 2
      then show ?thesis using ij assms apart [of i ci] by auto
    next
      case 3
      then show ?thesis using ij s unfolding separate_def fun_upd_apply by metis
    qed
  qed
qed

lemma system_ok_coordinator:
  assumes "cs k = Some c"
  shows "system_ok (r, cs) \<longleftrightarrow>
    (fst r \<noteq> None \<longrightarrow> separate (cs(k := None))) \<and> co_ok (owned (cs(k := None))) c r"
  using owned_split [of cs k c] separate_split [of cs k c] assms
  by (cases "fst r") (simp_all add: system_ok_def co_ok_def manager.shared_def, blast)

lemma peer_txns: "of_peer ev \<Longrightarrow> txn_step ts ev = Some (ts', Inr ()) \<Longrightarrow> dom (txns ts') = dom (txns ts)"
  by (cases ev)
    (auto simp: txn_on_incoming_transfer_def txn_on_incoming_disposition_def txn_on_incoming_attach_def
      on_incoming_control_attach_def on_incoming_post_def drop_result_def lift_session_def
      split: option.splits delivery_state.splits prod.splits sum.splits if_splits)

lemma system_step_ok:
  assumes "txn_system_step uuids shw debug s s'" and "system_ok s" shows "system_ok s'"
  using assms
proof (cases rule: txn_system_step.cases)
  case (accept cs k c r)
  have "owned (cs(k \<mapsto> c)) = owned cs" "separate (cs(k \<mapsto> c)) = separate cs"
    using owned_split [of "cs(k \<mapsto> c)" k c] separate_split [of "cs(k \<mapsto> c)" k c] accept(3,4)
    by (simp_all add: fun_upd_idem)
  then show ?thesis using assms(2) accept(1,2) by (simp add: system_ok_def)
next
  case (handle cs k c r received c' r')
  have up: "(cs(k \<mapsto> c'))(k := None) = cs(k := None)" by simp
  have "co_ok (owned (cs(k := None))) c' r'"
    using co_event_ok [OF handle(4)] assms(2) handle(1,3) system_ok_coordinator [of cs k c r] by blast
  moreover have "fst r' \<noteq> None \<longrightarrow> separate (cs(k := None))"
    using assms(2) handle(1,3) system_ok_coordinator [of cs k c r] co_event_running [OF handle(4)] by blast
  ultimately show ?thesis using handle(2) system_ok_coordinator [of "cs(k \<mapsto> c')" k c' r'] up by simp
next
  case (stop cs k c r received c' r' order room)
  have ok: "co_ok (owned (cs(k := None))) c' r'"
    using co_event_ok [OF stop(4)] assms(2) stop(1,3) system_ok_coordinator [of cs k c r] by blast
  have sep: "fst r' \<noteq> None \<longrightarrow> separate (cs(k := None))"
    using assms(2) stop(1,3) system_ok_coordinator [of cs k c r] co_event_running [OF stop(4)] by blast
  show ?thesis
  proof (cases r')
    case (Pair ts n)
    show ?thesis
    proof (cases ts)
      case None
      then show ?thesis using stop(2) Pair by (simp add: system_ok_def co_drop_def)
    next
      case (Some t)
      have "dom (txns (foldl abort_transaction t (take room order))) = owned (cs(k := None))"
        using ok stop(5,6) Pair Some by (auto simp: aborts_dom co_ok_def manager.shared_def simp del: domIff)
      then show ?thesis using stop(2) Pair Some sep by (simp add: system_ok_def co_drop_def)
    qed
  qed
next
  case (peer ev ts ts' n cs)
  then show ?thesis using assms(2) peer_txns [OF peer(3,4)] by (simp add: system_ok_def)
next
  case (session_stops ts n cs)
  then show ?thesis by (simp add: system_ok_def)
qed

lemma reachable_ok: "txn_reachable uuids shw debug s \<Longrightarrow> system_ok s"
proof (induction rule: txn_reachable.induct)
  case (start ts n)
  then show ?case by (simp add: system_ok_def owned_def separate_def)
qed (rule system_step_ok)


text \<open>A coordinator that has declared a transaction.\<close>

definition example_resource :: txn_session where
  "example_resource = example_txn_session\<lparr>ts_txn_manager := (ts_txn_manager example_txn_session)\<lparr>tm_txns := Map.empty\<rparr>\<rparr>"

definition example_coordinator :: txn_coordinator where
  "example_coordinator = \<lparr>co_inner = \<lparr>ri_link = ln_link example_closing_receiver, ri_credit_mode = Manual, ri_processed = 0,
      ri_auto_accept = False, ri_outgoing = ln_outgoing example_closing_receiver, ri_incomplete_transfer = None\<rparr>,
     co_channels = example_closing_receiver, co_txn_ids = {}\<rparr>"

definition example_uuids :: "nat \<Rightarrow> bytes" where
  "example_uuids n = [of_nat n]"

lemma example_declared:
  "\<exists>c ts. co_event example_uuids (\<lambda>_. []) (\<lambda>_. []) example_coordinator (Some example_resource, 0)
     (CoDelivery \<lparr>in_delivery_id = 0, in_delivery_tag = [7], in_rcv_settle_mode = None\<rparr> (CbDeclare None)) =
       Some (c, (Some ts, 1), Continue) \<and> co_txn_ids c = {[0]}"
  by (simp add: on_delivery_def on_declare_def request_transaction_id_def allocate_transaction_id_def
      draw_txn_id.simps [of _ _ 0] example_resource_def example_uuids_def handle_delivery_result_def co_dispose_def
      dispose_def link_dispose_def example_coordinator_def example_closing_receiver_def update_credit_if_auto_def
      settled_by_mode_def receiver_disposition_def chan_send_def Let_def)


end
