(* ===== verification/Transaction_Control.thy ===== *)
theory Transaction_Control
  imports Transaction_Session Link_Resumption
begin

text \<open>
  The controller side of transactions: declaring and discharging over the control link
  (transaction/controller.rs, mod.rs, owned.rs), posting, retiring and acquiring within a transaction
  (mod.rs, acquisition.rs) and the rollback that dropping a transaction attempts. What the \<open>oneshot\<close> of
  a delivery yields is an argument, \<open>None\<close> when its sender is dropped.
\<close>

section \<open>Sending\<close>

text \<open>\<open>SendError\<close> and \<open>PostError\<close> have the same variants.\<close>

datatype send_error = SnLinkStateError link_state_error | SnDetached detach_error | SnNonTerminalDeliveryState
  | SnIllegalDeliveryState | SnMessageSizeExceeded nat u64 | SnMessageEncodeError

datatype controller_send_error = CsSend send_error | CsRejected "amqp_error option"

definition inner_send_payload ::
    "sender_link link_inner \<Rightarrow> payload \<Rightarrow> u32 \<Rightarrow> bool option \<Rightarrow> delivery_state option \<Rightarrow> bool \<Rightarrow>
     (sender_link link_inner \<times> (send_error + settlement)) option" where
  "inner_send_payload n payload message_format settled state batchable =
     (let max_size = l_max_message_size (ln_link n) in
      if max_size \<noteq> 0 \<and> unat max_size < length payload then
        Some (n, Inl (SnMessageSizeExceeded (length payload) max_size))
      else case ln_waits n of
        [] \<Rightarrow> None
      | first # waits \<Rightarrow>
          (let (wait, incoming) = (case first of
                  CwCredit flows \<Rightarrow> (WaitCredit flows, ln_incoming n)
                | CwFrame \<Rightarrow> (case ln_incoming n of
                                [] \<Rightarrow> (WaitFrame None, [])
                              | fr # rest \<Rightarrow> (WaitFrame (Some fr), rest)))
           in case send_payload (ln_link n) (ln_outgoing n) wait payload message_format settled state batchable of
                None \<Rightarrow> None
              | Some (l, w, x) \<Rightarrow>
                  Some (n\<lparr>ln_link := l, ln_outgoing := w, ln_incoming := incoming, ln_waits := waits,
                          ln_order := (case x of
                              Inr (UnsettledYet tag) \<Rightarrow> removeAll tag (ln_order n) @ [tag] | _ \<Rightarrow> ln_order n)\<rparr>,
                        map_sum SnLinkStateError (\<lambda>s. s) x)))"

text \<open>A message whose only section is a value.\<close>

definition amqp_value_message :: "cfield \<Rightarrow> ser_error + payload" where
  "amqp_value_message body = map_sum (\<lambda>e. e) (\<lambda>bs. [0x00, 0x53, 0x77] @ bs) (serialize_field body)"

definition declare_composite :: "bytes option \<Rightarrow> cfield" where
  "declare_composite global_id = FComposite 0x31 [opt f_binary global_id]"

definition discharge_composite :: "bytes \<Rightarrow> bool option \<Rightarrow> cfield" where
  "discharge_composite tid fail = FComposite 0x32 [f_binary tid, opt f_bool fail]"

section \<open>The control link\<close>

text \<open>The control link sends unsettled; the answer is what its \<open>oneshot\<close> yields.\<close>

definition send_on_control_link ::
    "sender_link link_inner \<Rightarrow> cfield \<Rightarrow> (sender_link link_inner \<times> (send_error + delivery_tag)) option" where
  "send_on_control_link n body =
     (case amqp_value_message body of
        Inl _ \<Rightarrow> Some (n, Inl SnMessageEncodeError)
      | Inr payload \<Rightarrow>
          (case inner_send_payload n payload MESSAGE_FORMAT (Some False) None False of
             None \<Rightarrow> None
           | Some (n1, Inl e) \<Rightarrow> Some (n1, Inl e)
           | Some (n1, Inr (SettledNow _)) \<Rightarrow> Some (n1, Inl SnIllegalDeliveryState)
           | Some (n1, Inr (UnsettledYet tag)) \<Rightarrow> Some (n1, Inr tag)))"

definition control_outcome ::
    "(delivery_state \<Rightarrow> 'a option) \<Rightarrow> session_stop_reason option \<Rightarrow> resolution option \<Rightarrow> controller_send_error + 'a" where
  "control_outcome expected stop_reason answer =
     (case answer of
        None \<Rightarrow> Inl (CsSend (SnLinkStateError (stopped_or_illegal stop_reason)))
      | Some (Inl e) \<Rightarrow> Inl (CsSend (SnLinkStateError e))
      | Some (Inr None) \<Rightarrow> Inl (CsSend SnNonTerminalDeliveryState)
      | Some (Inr (Some state)) \<Rightarrow>
          (case expected state of
             Some x \<Rightarrow> Inr x
           | None \<Rightarrow> Inl (case state of Rejected e \<Rightarrow> CsRejected e | _ \<Rightarrow> CsSend SnIllegalDeliveryState)))"

fun declared_txn_id :: "delivery_state \<Rightarrow> bytes option" where
  "declared_txn_id (Declared tid) = Some tid"
| "declared_txn_id _ = None"

fun is_accepted :: "delivery_state \<Rightarrow> unit option" where
  "is_accepted Accepted = Some ()"
| "is_accepted _ = None"

definition request_on_link ::
    "(delivery_state \<Rightarrow> 'a option) \<Rightarrow> cfield \<Rightarrow> sender_link link_inner \<Rightarrow> (delivery_tag \<Rightarrow> resolution option) \<Rightarrow>
     (sender_link link_inner \<times> (controller_send_error + 'a)) option" where
  "request_on_link expected body n answers =
     (case send_on_control_link n body of
        None \<Rightarrow> None
      | Some (n1, Inl e) \<Rightarrow> Some (n1, Inl (CsSend e))
      | Some (n1, Inr tag) \<Rightarrow>
          Some (n1, control_outcome expected (l_session_stop_reason (ln_link n1)) (answers tag)))"

definition declare_on_link ::
    "sender_link link_inner \<Rightarrow> bytes option \<Rightarrow> (delivery_tag \<Rightarrow> resolution option) \<Rightarrow>
     (sender_link link_inner \<times> (controller_send_error + bytes)) option" where
  "declare_on_link n global_id answers = request_on_link declared_txn_id (declare_composite global_id) n answers"

definition discharge_on_link ::
    "sender_link link_inner \<Rightarrow> bytes \<Rightarrow> bool option \<Rightarrow> (delivery_tag \<Rightarrow> resolution option) \<Rightarrow>
     (sender_link link_inner \<times> (controller_send_error + unit)) option" where
  "discharge_on_link n tid fail answers = request_on_link is_accepted (discharge_composite tid fail) n answers"

section \<open>Transactions\<close>

record transaction =
  tx_txn_id :: bytes
  tx_is_discharged :: bool
  tx_rollback_on_drop_trials :: nat

definition DEFAULT_ROLLBACK_ON_DROP_TRIALS :: nat where
  "DEFAULT_ROLLBACK_ON_DROP_TRIALS = 20"

definition transaction_declare ::
    "sender_link link_inner \<Rightarrow> bytes option \<Rightarrow> (delivery_tag \<Rightarrow> resolution option) \<Rightarrow>
     (sender_link link_inner \<times> (controller_send_error + transaction)) option" where
  "transaction_declare n global_id answers =
     map_option (\<lambda>(n1, x). (n1, map_sum (\<lambda>e. e) (\<lambda>tid. \<lparr>tx_txn_id = tid, tx_is_discharged = False,
         tx_rollback_on_drop_trials = DEFAULT_ROLLBACK_ON_DROP_TRIALS\<rparr>) x)) (declare_on_link n global_id answers)"

definition transaction_discharge ::
    "sender_link link_inner \<Rightarrow> transaction \<Rightarrow> bool \<Rightarrow> (delivery_tag \<Rightarrow> resolution option) \<Rightarrow>
     (sender_link link_inner \<times> transaction \<times> (controller_send_error + unit)) option" where
  "transaction_discharge n tx fail answers =
     (if tx_is_discharged tx then Some (n, tx, Inr ())
      else case discharge_on_link n (tx_txn_id tx) (Some fail) answers of
        None \<Rightarrow> None
      | Some (n1, Inl e) \<Rightarrow> Some (n1, tx, Inl e)
      | Some (n1, Inr _) \<Rightarrow> Some (n1, tx\<lparr>tx_is_discharged := True\<rparr>, Inr ()))"

text \<open>An owned transaction closes its control link after the discharge.\<close>

datatype owned_discharge_error = OdSend controller_send_error | OdDetach detach_error

definition owned_finish ::
    "(sender_attach_error \<Rightarrow> string) \<Rightarrow> sender_link link_inner \<Rightarrow> transaction \<Rightarrow> bool \<Rightarrow>
     (delivery_tag \<Rightarrow> resolution option) \<Rightarrow>
     (sender_link link_inner \<times> transaction \<times> (owned_discharge_error + unit)) option" where
  "owned_finish debug n tx fail answers =
     (case transaction_discharge n tx fail answers of
        None \<Rightarrow> None
      | Some (n1, tx1, Inl e) \<Rightarrow> Some (n1, tx1, Inl (OdSend e))
      | Some (n1, tx1, Inr _) \<Rightarrow>
          map_option (\<lambda>(n2, x). (n2, tx1, map_sum OdDetach (\<lambda>_. ()) x))
            (close_with_error (sender_reattach_inner TypeCoordinator debug) n1 None))"

section \<open>Work within a transaction\<close>

definition post_inner ::
    "bytes \<Rightarrow> sender_link link_inner \<Rightarrow> payload \<Rightarrow> u32 \<Rightarrow> bool option \<Rightarrow> bool \<Rightarrow>
     (sender_link link_inner \<times> (send_error + settlement)) option" where
  "post_inner tid n payload message_format settled batchable =
     inner_send_payload n payload message_format settled (Some (TransactionalState tid None)) batchable"

fun post_result_of_state :: "delivery_state \<Rightarrow> send_error + outcome" where
  "post_result_of_state (TransactionalState _ (Some OAccepted)) = Inr OAccepted"
| "post_result_of_state (TransactionalState _ (Some (ORejected e))) = Inr (ORejected e)"
| "post_result_of_state (TransactionalState _ (Some OReleased)) = Inr OReleased"
| "post_result_of_state (TransactionalState _ (Some (OModified m))) = Inr (OModified m)"
| "post_result_of_state _ = Inl SnIllegalDeliveryState"

fun send_result_of_state :: "delivery_state \<Rightarrow> send_error + outcome" where
  "send_result_of_state Accepted = Inr OAccepted"
| "send_result_of_state (Rejected e) = Inr (ORejected e)"
| "send_result_of_state Released = Inr OReleased"
| "send_result_of_state (Modified m) = Inr (OModified m)"
| "send_result_of_state (Received _ _) = Inl SnNonTerminalDeliveryState"
| "send_result_of_state _ = Inl SnIllegalDeliveryState"

text \<open>\<open>DeliveryFut\<close>: what an application gets for a delivery it sent.\<close>

definition delivery_fut ::
    "(delivery_state \<Rightarrow> send_error + outcome) \<Rightarrow> session_stop_reason option \<Rightarrow> settlement \<Rightarrow>
     (delivery_tag \<Rightarrow> resolution option) \<Rightarrow> send_error + outcome" where
  "delivery_fut of_state stop_reason settlement answers =
     (case settlement of
        SettledNow _ \<Rightarrow> Inr OAccepted
      | UnsettledYet tag \<Rightarrow>
          (case answers tag of
             Some (Inr (Some state)) \<Rightarrow> of_state state
           | Some (Inr None) \<Rightarrow> Inl SnIllegalDeliveryState
           | Some (Inl e) \<Rightarrow> Inl (SnLinkStateError e)
           | None \<Rightarrow> Inl (SnLinkStateError (stopped_or_illegal stop_reason))))"

definition retire ::
    "bytes \<Rightarrow> receiver_inner \<Rightarrow> delivery_info \<Rightarrow> outcome \<Rightarrow> receiver_inner \<times> (link_state_error + unit)" where
  "retire tid r info outcome = dispose r info None (TransactionalState tid (Some outcome))"

definition set_flow_properties :: "receiver_inner \<Rightarrow> fields option \<Rightarrow> receiver_inner" where
  "set_flow_properties r props =
     r\<lparr>ri_link := (ri_link r)\<lparr>l_flow_state := (l_flow_state (ri_link r))\<lparr>properties := props\<rparr>\<rparr>\<rparr>"

definition without_txn_id :: "receiver_inner \<Rightarrow> receiver_inner" where
  "without_txn_id r =
     set_flow_properties r (map_option (\<lambda>fs. fst (swap_remove fs TXN_ID_KEY)) (properties (l_flow_state (ri_link r))))"

definition acquire ::
    "bytes \<Rightarrow> receiver_inner \<Rightarrow> u32 \<Rightarrow> receiver_inner \<times> (link_state_error + unit)" where
  "acquire tid r credit =
     (let fs = (case properties (l_flow_state (ri_link r)) of Some fs \<Rightarrow> fs | None \<Rightarrow> []) in
      if TXN_ID_KEY \<in> fst ` set fs then (set_flow_properties r (Some fs), Inl LseIllegalState)
      else
        (case send_flow (set_flow_properties r (Some (fs @ [(TXN_ID_KEY, VBinary tid)]))) (Some credit) None False True of
           (r1, Inr _) \<Rightarrow> (r1, Inr ())
         | (r1, Inl e) \<Rightarrow> (without_txn_id r1, Inl e)))"

definition acquisition_cleanup :: "receiver_inner \<Rightarrow> receiver_inner \<times> (link_state_error + unit)" where
  "acquisition_cleanup r = send_flow (without_txn_id r) (Some 0) (Some True) True True"

section \<open>Rolling back on drop\<close>

text \<open>
  What is around a transaction when it is dropped: whether the lock of the flow state and that of the
  unsettled map are held by another thread, and whether a frame waits or the session is gone.
\<close>

record drop_env =
  dp_flow_locked :: bool
  dp_unsettled_locked :: bool
  dp_connected :: bool

definition rollback_on_drop :: "drop_env \<Rightarrow> sender_link link_inner \<Rightarrow> bytes \<Rightarrow> sender_link link_inner" where
  "rollback_on_drop env n tid =
     (case amqp_value_message (discharge_composite tid (Some True)) of
        Inl _ \<Rightarrow> n
      | Inr payload \<Rightarrow>
          (case try_consume (dp_flow_locked env) (l_flow_state (ln_link n)) 1 of
             Inl _ \<Rightarrow> n
           | Inr (st, _) \<Rightarrow>
               (let l1 = (ln_link n)\<lparr>l_flow_state := st\<rparr>; n1 = n\<lparr>ln_link := l1\<rparr> in
                case (l_input_handle l1, l_output_handle l1) of
                  (Some input_handle, Some handle) \<Rightarrow>
                    (let tag = u32_to_be_bytes (delivery_count st);
                         t = \<lparr>tr_handle = handle, tr_delivery_id = None, tr_delivery_tag = Some tag,
                              tr_message_format = Some MESSAGE_FORMAT, tr_settled = Some False, tr_more = False,
                              tr_rcv_settle_mode = None, tr_state = None, tr_resume = False, tr_aborted = False,
                              tr_batchable = False\<rparr>
                     in case ln_incoming n of
                          _ # rest \<Rightarrow> n1\<lparr>ln_incoming := rest\<rparr>
                        | [] \<Rightarrow>
                            if \<not> dp_connected env then n1
                            else (case chan_send (ln_outgoing n1) (LfFirstTransfer
                                    \<lparr>lt_input_handle = input_handle, lt_performative = t, lt_payload = payload\<rparr>) of
                               None \<Rightarrow> n1
                             | Some w \<Rightarrow>
                                 (let n2 = n1\<lparr>ln_outgoing := w\<rparr> in
                                  if dp_unsettled_locked env then n2
                                  else n2\<lparr>ln_link := l1\<lparr>l_unsettled := Some
                                         ((case l_unsettled l1 of Some m \<Rightarrow> m | None \<Rightarrow> Map.empty)
                                            (tag \<mapsto> \<lparr>um_payload = payload, um_state = None, um_message_format = MESSAGE_FORMAT\<rparr>))\<rparr>,
                                       ln_order := removeAll tag (ln_order n2) @ [tag]\<rparr>)))
                | _ \<Rightarrow> n1)))"

text \<open>
  \<open>Drop\<close> of a transaction tries to lock the control link: \<open>free i\<close> says whether attempt \<open>i\<close> finds it
  unlocked. The wait for the outcome at the end of \<open>rollback_on_drop\<close> only polls and changes nothing.
\<close>

function try_lock_link :: "(nat \<Rightarrow> bool) \<Rightarrow> nat \<Rightarrow> nat \<Rightarrow> bool" where
  "try_lock_link free trials counter =
     (if trials < counter then False
      else free counter \<or> try_lock_link free trials (Suc counter))"
  by pat_completeness auto
termination by (relation "measure (\<lambda>(_, trials, counter). Suc trials - counter)") auto

declare try_lock_link.simps [simp del]

definition transaction_drop ::
    "(nat \<Rightarrow> bool) \<Rightarrow> drop_env \<Rightarrow> sender_link link_inner \<Rightarrow> transaction \<Rightarrow> sender_link link_inner" where
  "transaction_drop free env n tx =
     (if tx_is_discharged tx then n
      else if \<not> try_lock_link free (tx_rollback_on_drop_trials tx) 0 then n
      else rollback_on_drop env n (tx_txn_id tx))"

end
