(* ===== verification/Transaction_Posting.thy ===== *)
theory Transaction_Posting
  imports Transaction_Control Transaction_Atomicity Link_Handshake
begin

text \<open>
  What a controller sends: every transfer of a delivery posted in a transaction is work of it at the
  resource, however the delivery is split; and the rollback attempted when a transaction is dropped
  takes the delivery-tag of the message after it.
\<close>

section \<open>What a channel is given\<close>

definition given :: "(link_frame \<Rightarrow> bool) \<Rightarrow> link_frame chan \<Rightarrow> link_frame chan \<Rightarrow> bool" where
  "given P w w' \<longleftrightarrow> (\<exists>fs. sent w' = sent w @ fs \<and> list_all P fs)"

lemma given_refl [simp]: "given P w w"
  by (simp add: given_def)

lemma given_trans: "given P w w1 \<Longrightarrow> given P w1 w2 \<Longrightarrow> given P w w2"
  by (auto simp: given_def)

fun transfer_in_state :: "delivery_state option \<Rightarrow> link_frame \<Rightarrow> bool" where
  "transfer_in_state state (LfFirstTransfer lt) = (tr_state (lt_performative lt) = state)"
| "transfer_in_state state (LfTransferContinuation lt) = (tr_state (lt_performative lt) = state)"
| "transfer_in_state state _ = False"

lemma send_transfer_given: "send_transfer stop w h t p b = Inr w' \<Longrightarrow> given (transfer_in_state (tr_state t)) w w'"
  by (auto simp: send_transfer_def chan_send_def given_def Let_def split: if_splits)

lemma send_middle_given:
  assumes "send_middle m stop h t w p = Some y" shows "given (transfer_in_state (tr_state t)) w (fst y)"
proof (rule send_middle.raw_induct [OF _ assms], goal_cases)
  case (1 middle m stop h t w p y)
  show ?case
  proof (cases "m < length p")
    case True
    show ?thesis
    proof (cases "send_transfer stop w h t (take m p) False")
      case (Inl e)
      then show ?thesis using 1(2) True by auto
    next
      case (Inr w1)
      then have "middle m stop h t w1 (drop m p) = Some y" using 1(2) True by simp
      then show ?thesis using 1(1) [of m stop h t w1 "drop m p" y] send_transfer_given [OF Inr] given_trans by blast
    qed
  next
    case False
    then show ?thesis using 1(2) by auto
  qed
qed

lemma send_split_given:
  assumes "send_split m stop h t w p = Some y" shows "given (transfer_in_state (tr_state t)) w (fst y)"
proof (cases "send_transfer stop w h (t\<lparr>tr_more := True\<rparr>) (take m p) True")
  case (Inl e)
  then show ?thesis using assms by (auto simp: send_split_def)
next
  case (Inr w1)
  let ?cont = "clear_continuation_fields (t\<lparr>tr_more := True\<rparr>)"
  have first: "given (transfer_in_state (tr_state t)) w w1" using send_transfer_given [OF Inr] by simp
  obtain w2 r where mid: "send_middle m stop h ?cont w1 (drop m p) = Some (w2, r)"
    using assms Inr by (auto simp: send_split_def Let_def split: option.splits)
  have "given (transfer_in_state (tr_state t)) w1 w2"
    using send_middle_given [OF mid] by (simp add: clear_continuation_fields_def)
  with first have upto: "given (transfer_in_state (tr_state t)) w w2" by (rule given_trans)
  show ?thesis
  proof (cases r)
    case (Inl e)
    then show ?thesis using assms Inr mid upto by (auto simp: send_split_def Let_def)
  next
    case (Inr rest)
    have last: "given (transfer_in_state (tr_state t)) w2 w3"
      if "send_transfer stop w2 h (?cont\<lparr>tr_more := False\<rparr>) rest False = Inr w3" for w3
      using send_transfer_given [OF that] by (simp add: clear_continuation_fields_def)
    show ?thesis
      using assms \<open>send_transfer stop w h _ _ True = _\<close> mid Inr upto given_trans [OF upto last]
      by (auto simp: send_split_def Let_def split: sum.splits)
  qed
qed

lemma send_delivery_given:
  assumes "send_transfer_without_modifying_unsettled_map l w t p = Some (w', x)"
  shows "given (transfer_in_state (tr_state t)) w w'"
  using assms
  by (auto simp: send_transfer_without_modifying_unsettled_map_def Let_def dest!: send_transfer_given send_split_given
      split: option.splits sum.splits if_splits)

lemma send_payload_with_transfer_given:
  assumes "send_payload_with_transfer l w mf t p = Some (l', w', x)"
  shows "given (transfer_in_state (tr_state t)) w w'"
  using assms
  by (auto simp: send_payload_with_transfer_def send_unsettled_transfer_def Let_def dest!: send_delivery_given
      split: option.splits sum.splits if_splits)

lemma send_payload_given:
  assumes "send_payload l w wait p mf settled state batchable = Some (l', w', x)"
  shows "given (transfer_in_state state) w w'"
proof -
  have "tr_state t = state" if "generate_non_resuming_transfer_performative l1 tag mf settled state batchable = Inr t" for l1 tag t
    using that by (auto simp: generate_non_resuming_transfer_performative_def split: option.splits)
  then show ?thesis
    using assms by (auto simp: send_payload_def dest!: send_payload_with_transfer_given split: prod.splits option.splits sum.splits)
qed

section \<open>Posting\<close>

text \<open>
  C23: A posted delivery belongs to its transaction as a whole: everything that posting hands to the
  session are transfers of the delivery, and whatever frame the session makes of one of them is work
  of the transaction at the resource, the continuations of a split delivery included.
\<close>

theorem post_joins_transaction:
  assumes "post_inner tid n p mf settled batchable = Some (n', x)"
  shows "\<exists>fs. sent (ln_outgoing n') = sent (ln_outgoing n) @ fs \<and>
    (\<forall>f\<in>set fs. \<exists>lt first. f = (if first then LfFirstTransfer lt else LfTransferContinuation lt) \<and>
       (\<forall>s s' fr. on_outgoing_transfer_inner s (lt_input_handle lt) (lt_performative lt) (lt_payload lt) first = (s', Inr fr) \<longrightarrow>
          (\<exists>t p. sf_body fr = SfTransfer t p \<and> work_of tid (TeTransfer t p))))"
proof -
  let ?state = "Some (TransactionalState tid None)"
  have "given (transfer_in_state ?state) (ln_outgoing n) (ln_outgoing n')"
    using assms
    by (auto simp: post_inner_def inner_send_payload_def Let_def dest!: send_payload_given
        split: if_splits list.splits credit_wait.splits option.splits)
  then obtain fs where fs: "sent (ln_outgoing n') = sent (ln_outgoing n) @ fs" "list_all (transfer_in_state ?state) fs"
    by (auto simp: given_def)
  have emitted: "\<exists>t p. sf_body fr = SfTransfer t p \<and> work_of tid (TeTransfer t p)"
    if "on_outgoing_transfer_inner s h t p first = (s', Inr fr)" "tr_state t = ?state" for s h t p first s' fr
  proof -
    have "sf_body fr = SfTransfer t p \<or> (\<exists>d. sf_body fr = SfTransfer (t\<lparr>tr_delivery_id := d\<rparr>) p)"
      using that(1) by (auto simp: on_outgoing_transfer_inner_def session_frame_new_def Let_def split: if_splits option.splits)
    then show ?thesis using that(2) by (auto simp: in_txn_def)
  qed
  have "\<exists>lt first. f = (if first then LfFirstTransfer lt else LfTransferContinuation lt) \<and> tr_state (lt_performative lt) = ?state"
    if "f \<in> set fs" for f
  proof -
    have "transfer_in_state ?state f" using that fs(2) by (simp add: list_all_iff)
    then obtain lt where "f = LfFirstTransfer lt \<or> f = LfTransferContinuation lt" "tr_state (lt_performative lt) = ?state"
      by (cases f) auto
    then show ?thesis by (metis (full_types))
  qed
  then show ?thesis using fs(1) emitted by (intro exI [of _ fs]) blast
qed

section \<open>Dropping\<close>

text \<open>
  C40: The rollback that is sent when a transaction is dropped carries the delivery-tag that the next
  message on the control link is going to have: the tag is read from the delivery-count after the
  credit was taken, while every other message takes it from before. The rollback is registered under
  this tag, and registering the next message drops the registration.
\<close>

theorem rollback_on_drop_reuses_tag:
  assumes "sent (ln_outgoing (rollback_on_drop env n tid)) \<noteq> sent (ln_outgoing n)"
    and "2 \<le> link_credit (l_flow_state (ln_link n))"
  shows "\<exists>lt tag l. sent (ln_outgoing (rollback_on_drop env n tid)) = sent (ln_outgoing n) @ [LfFirstTransfer lt] \<and>
    tr_delivery_tag (lt_performative lt) = Some tag \<and>
    get_delivery_tag_or_detached (ln_link (rollback_on_drop env n tid)) (WaitCredit []) = (l, Some (Inr tag)) \<and>
    (\<not> dp_unsettled_locked env \<longrightarrow> (\<exists>m. l_unsettled (ln_link (rollback_on_drop env n tid)) = Some m \<and> tag \<in> dom m))"
proof -
  let ?st = "l_flow_state (ln_link n)"
  have credit: "1 \<le> link_credit ?st" "1 \<le> saturating_sub (link_credit ?st) 1"
    using assms(2) by (auto simp: word_le_nat_alt unat_saturating_sub)
  show ?thesis
    using assms(1) credit
    by (auto simp: rollback_on_drop_def try_consume_def get_delivery_tag_or_detached_def consume.simps
        consume_link_credit_def Let_def chan_send_def not_less split: sum.splits if_splits option.splits list.splits)
qed

section \<open>Examples\<close>

definition example_controller :: "sender_link link_inner" where
  "example_controller = example_closing\<lparr>ln_incoming := [], ln_waits := [CwCredit []],
     ln_link := (ln_link example_closing)\<lparr>l_flow_state := (l_flow_state (ln_link example_closing))\<lparr>link_credit := 2\<rparr>,
       l_unsettled := None\<rparr>\<rparr>"

lemma example_posted:
  "\<exists>n' x. post_inner [5] example_controller [1, 2] 0 None False = Some (n', x) \<and>
     length (sent (ln_outgoing n')) = Suc (length (sent (ln_outgoing example_controller)))"
  by (simp add: post_inner_def inner_send_payload_def example_controller_def example_closing_def example_suspended_def
      send_payload_def get_delivery_tag_or_detached_def consume.simps consume_link_credit_def
      generate_non_resuming_transfer_performative_def send_payload_with_transfer_def is_settled_on_send_def
      send_unsettled_transfer_def send_transfer_without_modifying_unsettled_map_def send_transfer_def chan_send_def
      performative_size_def transfer_composite_def opt_def dflt_def usize_sub_def u32_to_be_bytes_def Let_def
      serialized_size_def size_serializer_new_def size_bytes_def size_variable_def list_size_def map_size_def U8_MAX_MINUS_1_def)

theorem post_joins_transaction_witness:
  "\<exists>n' f lt. sent (ln_outgoing n') = [f] \<and> f \<in> {LfFirstTransfer lt, LfTransferContinuation lt} \<and>
     (\<exists>x. post_inner [5] example_controller [1, 2] 0 None False = Some (n', x))"
proof -
  obtain n' x where p: "post_inner [5] example_controller [1, 2] 0 None False = Some (n', x)"
      "length (sent (ln_outgoing n')) = Suc (length (sent (ln_outgoing example_controller)))"
    using example_posted by blast
  have "sent (ln_outgoing example_controller) = []" by (simp add: example_controller_def example_closing_def)
  with post_joins_transaction [OF p(1)] p(2) obtain f lt first where
    "sent (ln_outgoing n') = [f]" "f = (if first then LfFirstTransfer lt else LfTransferContinuation lt)"
    by (auto simp: length_Suc_conv)
  then show ?thesis using p(1) by (intro exI [of _ n'] exI [of _ f] exI [of _ lt]) (auto split: if_splits)
qed

lemma example_discharge:
  "amqp_value_message (discharge_composite [5] (Some True)) =
     Inr [0x00, 0x53, 0x77, 0x00, 0x53, 0x32, 0xc0, 5, 2, 0xa0, 1, 5, 0x41]"
  by code_simp

theorem rollback_on_drop_reuses_tag_witness:
  "\<exists>lt tag l. let n = rollback_on_drop \<lparr>dp_flow_locked = False, dp_unsettled_locked = False, dp_connected = True\<rparr>
         example_controller [5]
     in sent (ln_outgoing n) = [LfFirstTransfer lt] \<and> tr_delivery_tag (lt_performative lt) = Some tag \<and>
        get_delivery_tag_or_detached (ln_link n) (WaitCredit []) = (l, Some (Inr tag))"
proof -
  let ?n = "rollback_on_drop \<lparr>dp_flow_locked = False, dp_unsettled_locked = False, dp_connected = True\<rparr> example_controller [5]"
  have "sent (ln_outgoing ?n) \<noteq> sent (ln_outgoing example_controller)"
    by (simp add: example_discharge rollback_on_drop_def try_consume_def example_controller_def example_closing_def example_suspended_def
        chan_send_def Let_def)
  moreover have "2 \<le> link_credit (l_flow_state (ln_link example_controller))"
    and "sent (ln_outgoing example_controller) = []"
    by (simp_all add: example_controller_def example_closing_def)
  ultimately show ?thesis
    using rollback_on_drop_reuses_tag [of "\<lparr>dp_flow_locked = False, dp_unsettled_locked = False, dp_connected = True\<rparr>"
        example_controller "[5]"] unfolding Let_def by auto
qed

end
