(* ===== verification/Scram.thy ===== *)
theory Scram
  imports Codec
begin

text \<open>
  SCRAM authentication (auth/scram): the messages of both sides and the state of client and server.
  Strings are their UTF-8 bytes. Hashing, HMAC, PBKDF2 (crates sha1, sha2, hmac, pbkdf2), password
  normalization (stringprep), base64 and the random nonces are third-party code and are arguments,
  collected in a record.
\<close>

section \<open>Strings\<close>

text \<open>\<open>str::split\<close> at a byte, \<open>strip_prefix\<close> and \<open>starts_with\<close>.\<close>

fun split_on :: "u8 \<Rightarrow> bytes \<Rightarrow> bytes list" where
  "split_on c [] = [[]]"
| "split_on c (b # bs) =
     (if b = c then [] # split_on c bs
      else case split_on c bs of [] \<Rightarrow> [[b]] | x # xs \<Rightarrow> (b # x) # xs)"

definition strip_prefix :: "bytes \<Rightarrow> bytes \<Rightarrow> bytes option" where
  "strip_prefix p s = (if take (length p) s = p then Some (drop (length p) s) else None)"

definition starts_with :: "bytes \<Rightarrow> bytes \<Rightarrow> bool" where
  "starts_with p s = (take (length p) s = p)"

text \<open>\<open>u32::to_string\<close> and \<open>str::parse\<close>.\<close>

fun decimal :: "nat \<Rightarrow> bytes" where
  "decimal n = (if n < 10 then [of_nat (48 + n)] else decimal (n div 10) @ [of_nat (48 + n mod 10)])"

declare decimal.simps [simp del]

definition is_digit :: "u8 \<Rightarrow> bool" where
  "is_digit b \<longleftrightarrow> 48 \<le> b \<and> b \<le> 57"

definition parse_u32 :: "bytes \<Rightarrow> u32 option" where
  "parse_u32 bs =
     (let ds = (case bs of b # rest \<Rightarrow> if b = 0x2B then rest else bs | [] \<Rightarrow> []);
          v = foldl (\<lambda>a d. 10 * a + (unat d - 48)) 0 ds
      in if ds = [] \<or> \<not> list_all is_digit ds \<or> 2 ^ 32 \<le> v then None else Some (of_nat v))"

section \<open>Primitives\<close>

datatype scram_version = Sha1 | Sha256 | Sha512

record crypto =
  cy_h :: "scram_version \<Rightarrow> bytes \<Rightarrow> bytes"
  cy_hmac :: "scram_version \<Rightarrow> bytes \<Rightarrow> bytes \<Rightarrow> bytes option"
  cy_h_i :: "scram_version \<Rightarrow> bytes \<Rightarrow> bytes \<Rightarrow> u32 \<Rightarrow> bytes option"
  cy_saslprep :: "bytes \<Rightarrow> bytes option"
  cy_encode :: "bytes \<Rightarrow> bytes"
  cy_decode :: "bytes \<Rightarrow> bytes option"

definition COMMA :: u8 where "COMMA = 0x2C"
definition GS2_HEADER :: bytes where "GS2_HEADER = [0x6E, 0x2C, 0x2C]"
definition USERNAME_KEY :: bytes where "USERNAME_KEY = [0x6E, 0x3D]"
definition RESERVED_MEXT :: bytes where "RESERVED_MEXT = [0x6D, 0x3D]"
definition NONCE_KEY :: bytes where "NONCE_KEY = [0x72, 0x3D]"
definition CHANNEL_BINDING_KEY :: bytes where "CHANNEL_BINDING_KEY = [0x63, 0x3D]"
definition SALT_KEY :: bytes where "SALT_KEY = [0x73, 0x3D]"
definition ITERATION_COUNT_KEY :: bytes where "ITERATION_COUNT_KEY = [0x69, 0x3D]"
definition PROOF_KEY :: bytes where "PROOF_KEY = [0x70, 0x3D]"
definition VERIFIER_KEY :: bytes where "VERIFIER_KEY = [0x76, 0x3D]"

datatype scram_error = ScUtf8Error | ScInsufficientParts | ScExtensionNotSupported | ScNonceNotFound
  | ScClientNonceMismatch | ScSaltNotFound | ScBase64DecodeError | ScIterationCountNotFound
  | ScIterationCountParseError | ScNormalizeError | ScHmacErrorInvalidLength | ScXorLengthMismatch
  | ScIllegalClientState | ScServerSignatureMismatch

datatype server_scram_error = SsUtf8Error | SsCannotParseGs2Header | SsCannotParseUsername
  | SsCannotParseClientNonce | SsHmacErrorInvalidLength | SsXorLengthMismatch | SsNormalizeError
  | SsCannotParseClientFinalMessage | SsInvalidChannelBinding | SsBase64DecodeError
  | SsIncorrectClientFinalNonce | SsProofNotFoundInClientFinal | SsAuthenticationFailed
  | SsIllegalAuthenticatorState

text \<open>The operator \<open>?\<close> on an option with the error it stands for.\<close>

definition ok_or :: "'e \<Rightarrow> 'a option \<Rightarrow> ('a \<Rightarrow> 'e + 'b) \<Rightarrow> 'e + 'b" where
  "ok_or e x f = (case x of None \<Rightarrow> Inl e | Some a \<Rightarrow> f a)"

definition xor_bytes :: "bytes \<Rightarrow> bytes \<Rightarrow> bytes option" where
  "xor_bytes lhs rhs =
     (if length lhs \<noteq> length rhs then None else Some (map (\<lambda>(l, r). xor l r) (zip lhs rhs)))"

section \<open>Messages\<close>

definition client_first_message :: "bytes \<Rightarrow> bytes \<Rightarrow> bytes \<times> bytes" where
  "client_first_message username nonce =
     (let m = GS2_HEADER @ USERNAME_KEY @ username @ [COMMA] @ NONCE_KEY @ nonce
      in (m, drop (length GS2_HEADER) m))"

definition without_proof :: "crypto \<Rightarrow> bytes \<Rightarrow> bytes" where
  "without_proof cy client_server_nonce =
     CHANNEL_BINDING_KEY @ cy_encode cy GS2_HEADER @ [COMMA] @ NONCE_KEY @ client_server_nonce"

definition auth_message :: "bytes \<Rightarrow> bytes \<Rightarrow> bytes \<Rightarrow> bytes" where
  "auth_message client_first_message_bare server_first client_final_message_without_proof =
     client_first_message_bare @ [COMMA] @ server_first @ [COMMA] @ client_final_message_without_proof"

definition client_final :: "bytes \<Rightarrow> bytes \<Rightarrow> bytes" where
  "client_final client_final_message_without_proof client_proof =
     client_final_message_without_proof @ [COMMA] @ PROOF_KEY @ client_proof"

definition CLIENT_KEY :: bytes where "CLIENT_KEY = string_bytes ''Client Key''"
definition SERVER_KEY :: bytes where "SERVER_KEY = string_bytes ''Server Key''"

definition compute_salted_password ::
    "crypto \<Rightarrow> scram_version \<Rightarrow> bytes \<Rightarrow> bytes \<Rightarrow> u32 \<Rightarrow> scram_error + bytes" where
  "compute_salted_password cy v password salt iterations =
     ok_or ScNormalizeError (cy_saslprep cy password) (\<lambda>normalized.
     ok_or ScHmacErrorInvalidLength (cy_h_i cy v normalized salt iterations) Inr)"

definition compute_client_proof :: "crypto \<Rightarrow> scram_version \<Rightarrow> bytes \<Rightarrow> bytes \<Rightarrow> scram_error + bytes" where
  "compute_client_proof cy v salted_password message =
     ok_or ScHmacErrorInvalidLength (cy_hmac cy v salted_password CLIENT_KEY) (\<lambda>client_key.
     ok_or ScHmacErrorInvalidLength (cy_hmac cy v (cy_h cy v client_key) message) (\<lambda>client_signature.
     ok_or ScXorLengthMismatch (xor_bytes client_key client_signature) Inr))"

definition compute_server_signature :: "crypto \<Rightarrow> scram_version \<Rightarrow> bytes \<Rightarrow> bytes \<Rightarrow> scram_error + bytes" where
  "compute_server_signature cy v salted_password message =
     ok_or ScHmacErrorInvalidLength (cy_hmac cy v salted_password SERVER_KEY) (\<lambda>server_key.
     ok_or ScHmacErrorInvalidLength (cy_hmac cy v server_key message) Inr)"

definition scram_client_final ::
    "crypto \<Rightarrow> scram_version \<Rightarrow> bytes \<Rightarrow> bytes \<Rightarrow> bytes \<Rightarrow> bytes \<Rightarrow> scram_error + (bytes \<times> bytes)" where
  "scram_client_final cy v client_nonce password server_first client_first_message_bare =
     (let parts = split_on COMMA server_first in
      if length parts < 3 then Inl ScInsufficientParts
      else if starts_with RESERVED_MEXT (parts ! 0) then Inl ScExtensionNotSupported
      else
        ok_or ScNonceNotFound (strip_prefix NONCE_KEY (parts ! 0)) (\<lambda>client_server_nonce.
        if \<not> starts_with client_nonce client_server_nonce then Inl ScClientNonceMismatch
        else
          ok_or ScSaltNotFound (strip_prefix SALT_KEY (parts ! 1)) (\<lambda>base64_salt.
          ok_or ScBase64DecodeError (cy_decode cy base64_salt) (\<lambda>salt.
          ok_or ScIterationCountNotFound (strip_prefix ITERATION_COUNT_KEY (parts ! 2)) (\<lambda>iter_count_str.
          ok_or ScIterationCountParseError (parse_u32 iter_count_str) (\<lambda>iterations.
          case compute_salted_password cy v password salt iterations of
            Inl e \<Rightarrow> Inl e
          | Inr salted_password \<Rightarrow>
              (let bare = without_proof cy client_server_nonce;
                   message = auth_message client_first_message_bare server_first bare
               in case compute_client_proof cy v salted_password message of
                    Inl e \<Rightarrow> Inl e
                  | Inr proof \<Rightarrow>
                      (case compute_server_signature cy v salted_password message of
                         Inl e \<Rightarrow> Inl e
                       | Inr server_signature \<Rightarrow>
                           Inr (client_final bare (cy_encode cy proof), server_signature)))))))))"

definition scram_validate_server_final :: "crypto \<Rightarrow> bytes \<Rightarrow> bytes \<Rightarrow> scram_error + unit" where
  "scram_validate_server_final cy server_final server_signature =
     (if \<not> utf8_valid server_final then Inl ScUtf8Error
      else
        ok_or ScServerSignatureMismatch (strip_prefix VERIFIER_KEY (hd (split_on COMMA server_final))) (\<lambda>signature.
        ok_or ScBase64DecodeError (cy_decode cy signature) (\<lambda>signature_bytes.
        if signature_bytes = server_signature then Inr () else Inl ScServerSignatureMismatch)))"

section \<open>The server's messages\<close>

record stored_password =
  sp_salt :: bytes
  sp_iterations :: u32
  sp_stored_key :: bytes
  sp_server_key :: bytes

record server_first_message =
  sf_username :: bytes
  sf_client_first_message_bare :: bytes
  sf_client_server_nonce :: bytes
  sf_message :: bytes

text \<open>\<open>None\<close> as the result when the user is not known.\<close>

definition scram_server_first ::
    "crypto \<Rightarrow> bytes \<Rightarrow> bytes \<Rightarrow> (bytes \<Rightarrow> stored_password option) \<Rightarrow>
     server_scram_error + server_first_message option" where
  "scram_server_first cy client_first base64_server_nonce credentials =
     (if \<not> utf8_valid client_first then Inl SsUtf8Error
      else
        ok_or SsCannotParseGs2Header (strip_prefix GS2_HEADER client_first) (\<lambda>client_first_message_bare.
        let parts = split_on COMMA client_first_message_bare in
        ok_or SsCannotParseUsername (strip_prefix USERNAME_KEY (hd parts)) (\<lambda>username.
        ok_or SsCannotParseClientNonce
          (if 1 < length parts then strip_prefix NONCE_KEY (parts ! 1) else None) (\<lambda>client_nonce.
        Inr (case credentials username of
               None \<Rightarrow> None
             | Some stored \<Rightarrow>
                 (let client_server_nonce = client_nonce @ base64_server_nonce in
                  Some \<lparr>sf_username = username, sf_client_first_message_bare = client_first_message_bare,
                        sf_client_server_nonce = client_server_nonce,
                        sf_message = NONCE_KEY @ client_server_nonce @ [COMMA] @ SALT_KEY @ cy_encode cy (sp_salt stored)
                          @ [COMMA] @ ITERATION_COUNT_KEY @ decimal (unat (sp_iterations stored))\<rparr>)))))) "

definition scram_server_final ::
    "crypto \<Rightarrow> scram_version \<Rightarrow> bytes \<Rightarrow> bytes \<Rightarrow> bytes \<Rightarrow> bytes \<Rightarrow> stored_password \<Rightarrow> server_scram_error + bytes" where
  "scram_server_final cy v client_final_message client_server_nonce client_first_message_bare server_first stored =
     (if \<not> utf8_valid client_final_message then Inl SsUtf8Error
      else
        (let parts = split_on COMMA client_final_message in
        ok_or SsCannotParseClientFinalMessage (strip_prefix CHANNEL_BINDING_KEY (hd parts)) (\<lambda>encoded_binding.
        ok_or SsBase64DecodeError (cy_decode cy encoded_binding) (\<lambda>channel_binding.
        if channel_binding \<noteq> GS2_HEADER then Inl SsInvalidChannelBinding
        else
          ok_or SsCannotParseClientFinalMessage
            (if 1 < length parts then strip_prefix NONCE_KEY (parts ! 1) else None) (\<lambda>nonce.
          if nonce \<noteq> client_server_nonce then Inl SsIncorrectClientFinalNonce
          else
            ok_or SsProofNotFoundInClientFinal (strip_prefix PROOF_KEY (last parts)) (\<lambda>client_proof.
            let bare = take (length client_final_message - (length client_proof + length PROOF_KEY + 1)) client_final_message;
                message = auth_message client_first_message_bare server_first bare in
            ok_or SsHmacErrorInvalidLength (cy_hmac cy v (sp_stored_key stored) message) (\<lambda>client_signature.
            ok_or SsBase64DecodeError (cy_decode cy client_proof) (\<lambda>proof_bytes.
            ok_or SsXorLengthMismatch (xor_bytes proof_bytes client_signature) (\<lambda>client_key.
            if cy_h cy v client_key \<noteq> sp_stored_key stored then Inl SsAuthenticationFailed
            else
              ok_or SsHmacErrorInvalidLength (cy_hmac cy v (sp_server_key stored) message) (\<lambda>server_signature.
              Inr (VERIFIER_KEY @ cy_encode cy server_signature)))))))))))"

section \<open>The client\<close>

datatype scram_client_state = ScsInitial | ScsClientFirstSent bytes bytes | ScsClientFinalSent bytes | ScsComplete

record scram_client =
  sc_username :: bytes
  sc_password :: bytes
  sc_scram :: scram_version
  sc_state :: scram_client_state

definition scram_client_new :: "bytes \<Rightarrow> bytes \<Rightarrow> scram_version \<Rightarrow> scram_client" where
  "scram_client_new username password v =
     \<lparr>sc_username = username, sc_password = password, sc_scram = v, sc_state = ScsInitial\<rparr>"

text \<open>\<open>random\<close> are the bytes of the nonce.\<close>

definition compute_client_first_message :: "crypto \<Rightarrow> scram_client \<Rightarrow> bytes \<Rightarrow> scram_client \<times> bytes" where
  "compute_client_first_message cy c random =
     (let nonce = cy_encode cy random;
          (message, bare) = client_first_message (sc_username c) nonce
      in (c\<lparr>sc_state := ScsClientFirstSent nonce bare\<rparr>, message))"

definition compute_client_final_message ::
    "crypto \<Rightarrow> scram_client \<Rightarrow> bytes \<Rightarrow> scram_client \<times> (scram_error + bytes)" where
  "compute_client_final_message cy c server_first =
     (case sc_state c of
        ScsClientFirstSent client_nonce bare \<Rightarrow>
          (case scram_client_final cy (sc_scram c) client_nonce (sc_password c) server_first bare of
             Inl e \<Rightarrow> (c, Inl e)
           | Inr (message, server_signature) \<Rightarrow> (c\<lparr>sc_state := ScsClientFinalSent server_signature\<rparr>, Inr message))
      | _ \<Rightarrow> (c, Inl ScIllegalClientState))"

definition validate_server_final :: "crypto \<Rightarrow> scram_client \<Rightarrow> bytes \<Rightarrow> scram_client \<times> (scram_error + unit)" where
  "validate_server_final cy c server_final =
     (case sc_state c of
        ScsClientFinalSent server_signature \<Rightarrow>
          (case scram_validate_server_final cy server_final server_signature of
             Inl e \<Rightarrow> (c, Inl e)
           | Inr _ \<Rightarrow> (c\<lparr>sc_state := ScsComplete\<rparr>, Inr ()))
      | _ \<Rightarrow> (c, Inl ScIllegalClientState))"

section \<open>The server\<close>

datatype scram_authenticator_state = SasInitial | SasServerFirstSent bytes bytes bytes bytes | SasServerFinalSent

record scram_authenticator =
  sa_version :: scram_version
  sa_credentials :: "bytes \<Rightarrow> stored_password option"
  sa_state :: scram_authenticator_state

definition compute_server_first_message ::
    "crypto \<Rightarrow> scram_authenticator \<Rightarrow> bytes \<Rightarrow> bytes \<Rightarrow>
     scram_authenticator \<times> (server_scram_error + bytes option)" where
  "compute_server_first_message cy a random client_first =
     (case scram_server_first cy client_first (cy_encode cy random) (sa_credentials a) of
        Inl e \<Rightarrow> (a, Inl e)
      | Inr None \<Rightarrow> (a, Inr None)
      | Inr (Some m) \<Rightarrow>
          (a\<lparr>sa_state := SasServerFirstSent (sf_username m) (sf_client_first_message_bare m)
               (sf_client_server_nonce m) (sf_message m)\<rparr>, Inr (Some (sf_message m))))"

definition compute_server_final_message ::
    "crypto \<Rightarrow> scram_authenticator \<Rightarrow> bytes \<Rightarrow> scram_authenticator \<times> (server_scram_error + bytes option)" where
  "compute_server_final_message cy a client_final_message =
     (case sa_state a of
        SasServerFirstSent username bare nonce server_first \<Rightarrow>
          (case sa_credentials a username of
             None \<Rightarrow> (a, Inr None)
           | Some stored \<Rightarrow>
               (case scram_server_final cy (sa_version a) client_final_message nonce bare server_first stored of
                  Inl e \<Rightarrow> (a, Inl e)
                | Inr message \<Rightarrow> (a\<lparr>sa_state := SasServerFinalSent\<rparr>, Inr (Some message))))
      | _ \<Rightarrow> (a, Inl SsIllegalAuthenticatorState))"

text \<open>The credential of a single user.\<close>

definition DEFAULT_SCRAM_ITERATIONS :: u32 where "DEFAULT_SCRAM_ITERATIONS = 4096"

definition single_scram_credential ::
    "crypto \<Rightarrow> scram_version \<Rightarrow> bytes \<Rightarrow> bytes \<Rightarrow> bytes \<Rightarrow> (bytes \<Rightarrow> stored_password option) option" where
  "single_scram_credential cy v username password salt =
     (case compute_salted_password cy v password salt DEFAULT_SCRAM_ITERATIONS of
        Inl _ \<Rightarrow> None
      | Inr salted_password \<Rightarrow>
          (case (cy_hmac cy v salted_password CLIENT_KEY, cy_hmac cy v salted_password SERVER_KEY) of
             (Some client_key, Some server_key) \<Rightarrow>
               Some (\<lambda>u. if u = username then
                      Some \<lparr>sp_salt = salt, sp_iterations = DEFAULT_SCRAM_ITERATIONS,
                            sp_stored_key = cy_h cy v client_key, sp_server_key = server_key\<rparr>
                    else None)
           | _ \<Rightarrow> None))"

end
