(* ===== verification/Sasl.thy ===== *)
theory Sasl
  imports Scram Connection_Engine
begin

text \<open>
  How a connection starts: the exchange of protocol headers (transport/protocol_header.rs,
  transport/mod.rs) and SASL negotiation of the client (sasl_profile/mod.rs, connection/builder.rs) and
  of the listener (acceptor/sasl_acceptor.rs, acceptor/scram.rs, acceptor/connection.rs). What the
  reading half of a stream yields is an argument of each phase, the writing half is a channel.
\<close>

section \<open>Protocol headers\<close>

datatype protocol_id = PAmqp | PTls | PSasl

record protocol_header =
  ph_id :: protocol_id
  ph_major :: u8
  ph_minor :: u8
  ph_revision :: u8

definition MAJOR :: u8 where "MAJOR = 1"
definition MINOR :: u8 where "MINOR = 0"
definition REVISION :: u8 where "REVISION = 0"

definition header_of :: "protocol_id \<Rightarrow> protocol_header" where
  "header_of i = \<lparr>ph_id = i, ph_major = MAJOR, ph_minor = MINOR, ph_revision = REVISION\<rparr>"

fun protocol_id_byte :: "protocol_id \<Rightarrow> u8" where
  "protocol_id_byte PAmqp = 0"
| "protocol_id_byte PTls = 2"
| "protocol_id_byte PSasl = 3"

definition protocol_id_try_from :: "u8 \<Rightarrow> protocol_id option" where
  "protocol_id_try_from b =
     (if b = 0 then Some PAmqp else if b = 2 then Some PTls else if b = 3 then Some PSasl else None)"

definition PROTOCOL_HEADER_PREFIX :: bytes where
  "PROTOCOL_HEADER_PREFIX = string_bytes ''AMQP''"

definition header_bytes :: "protocol_header \<Rightarrow> bytes" where
  "header_bytes h = PROTOCOL_HEADER_PREFIX @ [protocol_id_byte (ph_id h), ph_major h, ph_minor h, ph_revision h]"

definition header_try_from :: "bytes \<Rightarrow> bytes + protocol_header" where
  "header_try_from v =
     (if length v \<noteq> 8 then Inl v
      else if take 4 v \<noteq> PROTOCOL_HEADER_PREFIX then Inl v
      else case protocol_id_try_from (v ! 4) of
        None \<Rightarrow> Inl v
      | Some i \<Rightarrow> Inr \<lparr>ph_id = i, ph_major = v ! 5, ph_minor = v ! 6, ph_revision = v ! 7\<rparr>)"

section \<open>Frames and errors\<close>

datatype sasl_code = ScOk | ScAuth | ScSys | ScSysPerm | ScSysTemp

record sasl_init =
  si_mechanism :: symbol
  si_initial_response :: "bytes option"
  si_hostname :: "string option"

datatype sasl_frame = SaslMechanisms "symbol list" | SaslInit sasl_init | SaslChallenge bytes | SaslResponse bytes
  | SaslOutcome sasl_code "bytes option"

datatype negotiation_error = NeIo | NeProtocolHeaderMismatch bytes | NeDecodeError string
  | NeNotImplemented "string option" | NeIllegalState | NeSaslError sasl_code "bytes option" | NeScramError scram_error

text \<open>\<open>ProtocolHeaderCodec::decode\<close>: the header and the bytes behind it, \<open>None\<close> while bytes are missing.\<close>

definition header_decode :: "bytes \<Rightarrow> (negotiation_error + protocol_header option) \<times> bytes" where
  "header_decode src =
     (if length src < 8 then (Inr None, src)
      else (case header_try_from (take 8 src) of
              Inl v \<Rightarrow> Inl (NeProtocolHeaderMismatch v) | Inr h \<Rightarrow> Inr (Some h), drop 8 src))"

section \<open>Exchanging headers\<close>

datatype wire_item = WHeader protocol_header | WSasl sasl_frame

text \<open>What the reading half yields next: nothing at the end of the stream, an error or a header.\<close>

type_synonym 'a read_next = "(negotiation_error + 'a) option"

definition negotiate_sasl_header ::
    "wire_item chan \<Rightarrow> protocol_header read_next \<Rightarrow> wire_item chan \<times> (negotiation_error + unit)" where
  "negotiate_sasl_header w incoming =
     (case chan_send w (WHeader (header_of PSasl)) of
        None \<Rightarrow> (w, Inl NeIo)
      | Some w1 \<Rightarrow>
          (w1, case incoming of
                 None \<Rightarrow> Inl NeIo
               | Some (Inl e) \<Rightarrow> Inl e
               | Some (Inr h) \<Rightarrow>
                   if ph_id h \<noteq> PSasl \<or> ph_major h \<noteq> MAJOR \<or> ph_minor h \<noteq> MINOR \<or> ph_revision h \<noteq> REVISION
                   then Inl (NeProtocolHeaderMismatch (header_bytes h)) else Inr ()))"

definition send_amqp_proto_header ::
    "wire_item chan \<Rightarrow> connection_state \<Rightarrow> protocol_header \<Rightarrow>
     wire_item chan \<times> connection_state \<times> (negotiation_error + unit)" where
  "send_amqp_proto_header w state h =
     (let send = (\<lambda>state'. case chan_send w (WHeader h) of
                    None \<Rightarrow> (w, state, Inl NeIo) | Some w1 \<Rightarrow> (w1, state', Inr ()))
      in case state of
           CStart \<Rightarrow> send CHeaderSent
         | CHeaderReceived \<Rightarrow> send CHeaderExchange
         | _ \<Rightarrow> (w, state, Inl NeIllegalState))"

text \<open>\<open>debug\<close> renders the two headers of a mismatch.\<close>

definition read_and_compare_amqp_proto_header ::
    "(protocol_header \<Rightarrow> protocol_header \<Rightarrow> string) \<Rightarrow> protocol_header read_next \<Rightarrow> connection_state \<Rightarrow> protocol_header \<Rightarrow>
     connection_state \<times> (negotiation_error + protocol_header)" where
  "read_and_compare_amqp_proto_header debug incoming state h =
     (case incoming of
        None \<Rightarrow> (state, Inl NeIo)
      | Some (Inl e) \<Rightarrow> (state, Inl e)
      | Some (Inr h1) \<Rightarrow>
          if h1 \<noteq> h then (CEnd, Inl (NeNotImplemented (Some (debug h h1)))) else (state, Inr h1))"

definition recv_amqp_proto_header ::
    "(protocol_header \<Rightarrow> protocol_header \<Rightarrow> string) \<Rightarrow> protocol_header read_next \<Rightarrow> connection_state \<Rightarrow> protocol_header \<Rightarrow>
     connection_state \<times> (negotiation_error + protocol_header)" where
  "recv_amqp_proto_header debug incoming state h =
     (let compare = (\<lambda>state'. case read_and_compare_amqp_proto_header debug incoming state h of
                       (state1, Inl e) \<Rightarrow> (state1, Inl e) | (_, Inr h1) \<Rightarrow> (state', Inr h1))
      in case state of
           CStart \<Rightarrow> compare CHeaderReceived
         | CHeaderSent \<Rightarrow> compare CHeaderExchange
         | _ \<Rightarrow> (state, Inl NeIllegalState))"

definition negotiate_amqp_header ::
    "(protocol_header \<Rightarrow> protocol_header \<Rightarrow> string) \<Rightarrow> wire_item chan \<Rightarrow> protocol_header read_next \<Rightarrow> connection_state \<Rightarrow>
     wire_item chan \<times> connection_state \<times> (negotiation_error + unit)" where
  "negotiate_amqp_header debug w incoming state =
     (case send_amqp_proto_header w state (header_of PAmqp) of
        (w1, state1, Inl e) \<Rightarrow> (w1, state1, Inl e)
      | (w1, state1, Inr _) \<Rightarrow>
          (case recv_amqp_proto_header debug incoming state1 (header_of PAmqp) of
             (state2, Inl e) \<Rightarrow> (w1, state2, Inl e)
           | (state2, Inr _) \<Rightarrow> (w1, state2, Inr ())))"

section \<open>The profile of a client\<close>

definition ANONYMOUS :: symbol where "ANONYMOUS = ''ANONYMOUS''"
definition PLAIN :: symbol where "PLAIN = ''PLAIN''"
definition EXTERNAL :: symbol where "EXTERNAL = ''EXTERNAL''"

fun scram_mechanism :: "scram_version \<Rightarrow> symbol" where
  "scram_mechanism Sha1 = ''SCRAM-SHA-1''"
| "scram_mechanism Sha256 = ''SCRAM-SHA-256''"
| "scram_mechanism Sha512 = ''SCRAM-SHA-512''"

text \<open>The three SCRAM profiles hold a client of their version.\<close>

datatype sasl_profile = Anonymous | Plain bytes bytes | External | Scram scram_version scram_client

definition scram_profile :: "scram_version \<Rightarrow> bytes \<Rightarrow> bytes \<Rightarrow> sasl_profile" where
  "scram_profile v username password = Scram v (scram_client_new username password v)"

fun mechanism :: "sasl_profile \<Rightarrow> symbol" where
  "mechanism Anonymous = ANONYMOUS"
| "mechanism (Plain _ _) = PLAIN"
| "mechanism External = EXTERNAL"
| "mechanism (Scram v _) = scram_mechanism v"

fun initial_response :: "crypto \<Rightarrow> bytes \<Rightarrow> sasl_profile \<Rightarrow> sasl_profile \<times> bytes option" where
  "initial_response cy random Anonymous = (Anonymous, None)"
| "initial_response cy random External = (External, Some [])"
| "initial_response cy random (Plain username password) =
     (Plain username password, Some (0 # username @ 0 # password))"
| "initial_response cy random (Scram v client) =
     (case compute_client_first_message cy client random of (client1, m) \<Rightarrow> (Scram v client1, Some m))"

datatype negotiation = NInit sasl_init | NResponse bytes | NOutcome sasl_code "bytes option"

fun on_challenge :: "crypto \<Rightarrow> sasl_profile \<Rightarrow> bytes \<Rightarrow> sasl_profile \<times> (negotiation_error + negotiation)" where
  "on_challenge cy (Scram v client) challenge =
     (if \<not> utf8_valid challenge then (Scram v client, Inl (NeScramError ScUtf8Error))
      else case compute_client_final_message cy client challenge of
        (client1, Inl e) \<Rightarrow> (Scram v client1, Inl (NeScramError e))
      | (client1, Inr m) \<Rightarrow> (Scram v client1, Inr (NResponse m)))"
| "on_challenge cy External challenge =
     (External, if challenge = [] then Inr (NResponse [])
                else Inl (NeNotImplemented (Some ''SASL Challenge is not implemented for ANONYMOUS, PLAIN, or EXTERNAL.'')))"
| "on_challenge cy profile challenge =
     (profile, Inl (NeNotImplemented (Some ''SASL Challenge is not implemented for ANONYMOUS, PLAIN, or EXTERNAL.'')))"

fun on_outcome :: "crypto \<Rightarrow> sasl_profile \<Rightarrow> sasl_code \<Rightarrow> bytes option \<Rightarrow> sasl_profile \<times> (negotiation_error + negotiation)" where
  "on_outcome cy (Scram v client) code additional_data =
     (if code = ScOk then
        (case additional_data of
           None \<Rightarrow> (Scram v client, Inl (NeScramError ScServerSignatureMismatch))
         | Some server_final \<Rightarrow>
             (case validate_server_final cy client server_final of
                (client1, Inl e) \<Rightarrow> (Scram v client1, Inl (NeScramError e))
              | (client1, Inr _) \<Rightarrow> (Scram v client1, Inr (NOutcome code additional_data))))
      else (Scram v client, Inr (NOutcome code additional_data)))"
| "on_outcome cy profile code additional_data = (profile, Inr (NOutcome code additional_data))"

text \<open>\<open>debug\<close> renders the message of an error from the mechanism and the frame.\<close>

fun on_frame ::
    "crypto \<Rightarrow> bytes \<Rightarrow> (symbol \<Rightarrow> sasl_frame \<Rightarrow> string) \<Rightarrow> string option \<Rightarrow> sasl_profile \<Rightarrow> sasl_frame \<Rightarrow>
     sasl_profile \<times> (negotiation_error + negotiation)" where
  "on_frame cy random debug hostname profile (SaslMechanisms ms) =
     (if mechanism profile \<in> set ms then
        (case initial_response cy random profile of
           (profile1, response) \<Rightarrow>
             (profile1, Inr (NInit \<lparr>si_mechanism = mechanism profile, si_initial_response = response, si_hostname = hostname\<rparr>)))
      else (profile, Inl (NeNotImplemented (Some (debug (mechanism profile) (SaslMechanisms ms))))))"
| "on_frame cy random debug hostname profile (SaslChallenge challenge) = on_challenge cy profile challenge"
| "on_frame cy random debug hostname profile (SaslOutcome code additional_data) = on_outcome cy profile code additional_data"
| "on_frame cy random debug hostname profile frame = (profile, Inl (NeNotImplemented (Some (debug (mechanism profile) frame))))"

text \<open>
  The loop of the client over the frames of the server; \<open>randoms n\<close> are the random bytes drawn when
  frame \<open>n\<close> is handled. A stream that ends is an error.
\<close>

fun negotiate_sasl ::
    "crypto \<Rightarrow> (nat \<Rightarrow> bytes) \<Rightarrow> nat \<Rightarrow> (symbol \<Rightarrow> sasl_frame \<Rightarrow> string) \<Rightarrow> string option \<Rightarrow> wire_item chan \<Rightarrow> sasl_profile \<Rightarrow>
     (negotiation_error + sasl_frame) list \<Rightarrow> wire_item chan \<times> (negotiation_error + unit)" where
  "negotiate_sasl cy randoms n debug hostname w profile [] = (w, Inl NeIo)"
| "negotiate_sasl cy randoms n debug hostname w profile (Inl e # frames) = (w, Inl e)"
| "negotiate_sasl cy randoms n debug hostname w profile (Inr frame # frames) =
     (let send = (\<lambda>profile1 item. case chan_send w (WSasl item) of
                    None \<Rightarrow> (w, Inl NeIo)
                  | Some w1 \<Rightarrow> negotiate_sasl cy randoms (Suc n) debug hostname w1 profile1 frames)
      in case on_frame cy (randoms n) debug hostname profile frame of
           (profile1, Inl e) \<Rightarrow> (w, Inl e)
         | (profile1, Inr (NInit init)) \<Rightarrow> send profile1 (SaslInit init)
         | (profile1, Inr (NResponse response)) \<Rightarrow> send profile1 (SaslResponse response)
         | (profile1, Inr (NOutcome code additional_data)) \<Rightarrow>
             (w, if code = ScOk then Inr () else Inl (NeSaslError code additional_data)))"

text \<open>
  \<open>connect_with_stream\<close> up to the opening of the connection: with a profile the SASL header and SASL
  come first, then the AMQP header.
\<close>

definition connect_with_stream ::
    "crypto \<Rightarrow> (nat \<Rightarrow> bytes) \<Rightarrow> (symbol \<Rightarrow> sasl_frame \<Rightarrow> string) \<Rightarrow> (protocol_header \<Rightarrow> protocol_header \<Rightarrow> string) \<Rightarrow> string option \<Rightarrow>
     wire_item chan \<Rightarrow> sasl_profile option \<Rightarrow> protocol_header read_next \<Rightarrow> (negotiation_error + sasl_frame) list \<Rightarrow>
     protocol_header read_next \<Rightarrow> wire_item chan \<times> (negotiation_error + connection_state)" where
  "connect_with_stream cy randoms debug dbg hostname w profile sasl_header frames amqp_header =
     (let amqp = (\<lambda>w. case negotiate_amqp_header dbg w amqp_header CStart of
                    (w1, _, Inl e) \<Rightarrow> (w1, Inl e) | (w1, state, Inr _) \<Rightarrow> (w1, Inr state))
      in case profile of
           None \<Rightarrow> amqp w
         | Some p \<Rightarrow>
             (case negotiate_sasl_header w sasl_header of
                (w1, Inl e) \<Rightarrow> (w1, Inl e)
              | (w1, Inr _) \<Rightarrow>
                  (case negotiate_sasl cy randoms 0 debug hostname w1 p frames of
                     (w2, Inl e) \<Rightarrow> (w2, Inl e)
                   | (w2, Inr _) \<Rightarrow> amqp w2)))"

section \<open>Acceptors\<close>

datatype sasl_server_frame = SfChallenge bytes | SfOutcome sasl_code "bytes option"

datatype sasl_acceptor = AcceptPlain bytes bytes | AcceptAnonymous | AcceptScram scram_authenticator

fun mechanisms :: "sasl_acceptor \<Rightarrow> symbol list" where
  "mechanisms (AcceptPlain _ _) = [PLAIN]"
| "mechanisms AcceptAnonymous = [ANONYMOUS]"
| "mechanisms (AcceptScram a) = [scram_mechanism (sa_version a)]"

definition sasl_mechanisms :: "sasl_acceptor \<Rightarrow> symbol list" where
  "sasl_mechanisms acceptor = (if mechanisms acceptor = [] then [ANONYMOUS] else mechanisms acceptor)"

definition validate_credential :: "bytes \<Rightarrow> bytes \<Rightarrow> bytes \<Rightarrow> bytes \<Rightarrow> sasl_code" where
  "validate_credential username password authcid passwd =
     (if username = authcid \<and> password = passwd then ScOk else ScAuth)"

definition validate_init :: "bytes \<Rightarrow> bytes \<Rightarrow> sasl_init \<Rightarrow> sasl_code option" where
  "validate_init username password init =
     (case si_initial_response init of
        None \<Rightarrow> None
      | Some response \<Rightarrow>
          (case split_on 0 response of
             _ # authcid # passwd # _ \<Rightarrow> Some (validate_credential username password authcid passwd)
           | _ \<Rightarrow> None))"

fun on_init :: "crypto \<Rightarrow> bytes \<Rightarrow> sasl_acceptor \<Rightarrow> sasl_init \<Rightarrow> sasl_acceptor \<times> sasl_server_frame" where
  "on_init cy random (AcceptPlain username password) init =
     (AcceptPlain username password,
      SfOutcome (case validate_init username password init of Some code \<Rightarrow> code | None \<Rightarrow> ScAuth) None)"
| "on_init cy random AcceptAnonymous init = (AcceptAnonymous, SfOutcome ScOk None)"
| "on_init cy random (AcceptScram a) init =
     (if si_mechanism init = scram_mechanism (sa_version a) then
        (case si_initial_response init of
           None \<Rightarrow> (AcceptScram a, SfOutcome ScAuth None)
         | Some client_first \<Rightarrow>
             (case compute_server_first_message cy a random client_first of
                (a1, Inr (Some server_first)) \<Rightarrow> (AcceptScram a1, SfChallenge server_first)
              | (a1, _) \<Rightarrow> (AcceptScram a1, SfOutcome ScAuth None)))
      else (AcceptScram a, SfOutcome ScAuth None))"

fun on_response :: "crypto \<Rightarrow> sasl_acceptor \<Rightarrow> bytes \<Rightarrow> sasl_acceptor \<times> sasl_server_frame" where
  "on_response cy (AcceptPlain username password) response = (AcceptPlain username password, SfOutcome ScSys None)"
| "on_response cy AcceptAnonymous response = (AcceptAnonymous, SfOutcome ScOk None)"
| "on_response cy (AcceptScram a) response =
     (case compute_server_final_message cy a response of
        (a1, Inr (Some server_final)) \<Rightarrow> (AcceptScram a1, SfOutcome ScOk (Some server_final))
      | (a1, _) \<Rightarrow> (AcceptScram a1, SfOutcome ScAuth None))"

text \<open>The loop of the listener over the frames of the client.\<close>

fun accept_sasl ::
    "crypto \<Rightarrow> (nat \<Rightarrow> bytes) \<Rightarrow> nat \<Rightarrow> wire_item chan \<Rightarrow> sasl_acceptor \<Rightarrow>
     (negotiation_error + sasl_frame) list \<Rightarrow> wire_item chan \<times> (negotiation_error + unit)" where
  "accept_sasl cy randoms n w acceptor [] = (w, Inl NeIo)"
| "accept_sasl cy randoms n w acceptor (Inl e # frames) = (w, Inl e)"
| "accept_sasl cy randoms n w acceptor (Inr frame # frames) =
     (let refuse = (case chan_send w (WSasl (SaslOutcome ScSys None)) of
                      None \<Rightarrow> (w, Inl NeIo) | Some w1 \<Rightarrow> (w1, Inl (NeSaslError ScSys None)));
          answer = (\<lambda>(acceptor1, reply). case reply of
              SfChallenge challenge \<Rightarrow>
                (case chan_send w (WSasl (SaslChallenge challenge)) of
                   None \<Rightarrow> (w, Inl NeIo)
                 | Some w1 \<Rightarrow> accept_sasl cy randoms (Suc n) w1 acceptor1 frames)
            | SfOutcome code additional_data \<Rightarrow>
                (case chan_send w (WSasl (SaslOutcome code additional_data)) of
                   None \<Rightarrow> (w, Inl NeIo)
                 | Some w1 \<Rightarrow> (w1, if code = ScOk then Inr () else Inl (NeSaslError code additional_data))))
      in case frame of
           SaslInit init \<Rightarrow> answer (on_init cy (randoms n) acceptor init)
         | SaslResponse response \<Rightarrow> answer (on_response cy acceptor response)
         | _ \<Rightarrow> refuse)"

definition negotiate_sasl_with_framed ::
    "crypto \<Rightarrow> (nat \<Rightarrow> bytes) \<Rightarrow> (protocol_header \<Rightarrow> protocol_header \<Rightarrow> string) \<Rightarrow> wire_item chan \<Rightarrow> sasl_acceptor \<Rightarrow>
     protocol_header read_next \<Rightarrow> (negotiation_error + sasl_frame) list \<Rightarrow> protocol_header read_next \<Rightarrow>
     wire_item chan \<times> (negotiation_error + connection_state)" where
  "negotiate_sasl_with_framed cy randoms dbg w acceptor sasl_header frames amqp_header =
     (case negotiate_sasl_header w sasl_header of
        (w1, Inl e) \<Rightarrow> (w1, Inl e)
      | (w1, Inr _) \<Rightarrow>
          (case chan_send w1 (WSasl (SaslMechanisms (sasl_mechanisms acceptor))) of
             None \<Rightarrow> (w1, Inl NeIo)
           | Some w2 \<Rightarrow>
               (case accept_sasl cy randoms 0 w2 acceptor frames of
                  (w3, Inl e) \<Rightarrow> (w3, Inl e)
                | (w3, Inr _) \<Rightarrow>
                    (case negotiate_amqp_header dbg w3 amqp_header CStart of
                       (w4, _, Inl e) \<Rightarrow> (w4, Inl e)
                     | (w4, state, Inr _) \<Rightarrow> (w4, Inr state)))))"

end
