(* ===== verification/Scram_Exchange.thy ===== *)
theory Scram_Exchange
  imports Scram
begin

text \<open>
  The messages of SCRAM fit together: what one side writes the other parses, and an honest exchange
  succeeds on both sides exactly when the client has the key the server stores.
\<close>

section \<open>Strings\<close>

lemma split_on_none [simp]: "c \<notin> set xs \<Longrightarrow> split_on c xs = [xs]"
  by (induction xs) auto

lemma split_on_append [simp]: "c \<notin> set xs \<Longrightarrow> split_on c (xs @ c # ys) = xs # split_on c ys"
  by (induction xs) auto

lemma split_on_not_Nil [simp]: "split_on c xs \<noteq> []"
  by (induction xs) (auto split: list.splits)

lemma strip_prefix_append [simp]: "strip_prefix p (p @ s) = Some s"
  by (simp add: strip_prefix_def)

lemma strip_prefix_SomeD: "strip_prefix p s = Some r \<Longrightarrow> s = p @ r"
  by (auto simp: strip_prefix_def split: if_splits) (metis append_take_drop_id)

lemma starts_with_append [simp]: "starts_with p (p @ s)"
  by (simp add: starts_with_def)

lemma utf8_valid_append: "utf8_valid xs \<Longrightarrow> utf8_valid ys \<Longrightarrow> utf8_valid (xs @ ys)"
proof (induction xs rule: utf8_valid.induct)
  case (2 b0 bs)
  show ?case
  proof (cases "b0 \<le> 0x7F")
    case True
    then show ?thesis using 2 by simp
  next
    case False
    then obtain b1 bs1 where bs: "bs = b1 # bs1" using 2(5) by (cases bs) auto
    show ?thesis
    proof (cases "0xC2 \<le> b0 \<and> b0 \<le> 0xDF")
      case True
      then show ?thesis using 2(2) [OF False bs True] 2(5,6) False by (simp add: bs)
    next
      case two: False
      then obtain b2 bs2 where bs1: "bs1 = b2 # bs2" using 2(5) False by (cases bs1) (auto simp: bs)
      show ?thesis
      proof (cases "0xE0 \<le> b0 \<and> b0 \<le> 0xEF")
        case True
        then show ?thesis using 2(3) [OF False bs two bs1 True] 2(5,6) False two by (auto simp: bs bs1)
      next
        case three: False
        then obtain b3 bs3 where bs2: "bs2 = b3 # bs3" using 2(5) False two by (cases bs2) (auto simp: bs bs1)
        then show ?thesis using 2(4) [OF False bs two bs1 three bs2] 2(5,6) False two three by (auto simp: bs bs1)
      qed
    qed
  qed
qed simp

lemma utf8_valid_ascii: "list_all (\<lambda>b. b \<le> 0x7F) xs \<Longrightarrow> utf8_valid xs"
  by (induction xs) auto

subsection \<open>Numbers\<close>

lemma decimal_small: "n < 10 \<Longrightarrow> decimal n = [of_nat (48 + n)]"
  by (simp add: decimal.simps)

lemma decimal_step: "10 \<le> n \<Longrightarrow> decimal n = decimal (n div 10) @ [of_nat (48 + n mod 10)]"
  by (subst decimal.simps) simp

lemma unat_digit: "d < 10 \<Longrightarrow> unat (of_nat (48 + d) :: u8) = 48 + d"
  by (simp only: unat_of_nat take_bit_eq_mod) simp

lemma decimal_digits: "list_all is_digit (decimal n)"
proof (induction n rule: decimal.induct)
  case (1 n)
  have digit: "is_digit (of_nat (48 + d))" if "d < 10" for d
    using unat_digit [OF that] that by (simp add: is_digit_def word_le_nat_alt del: of_nat_add)
  show ?case
  proof (cases "n < 10")
    case True
    then show ?thesis using digit [OF True] by (simp only: decimal_small list.pred_inject)
  next
    case False
    then show ?thesis using 1 digit [of "n mod 10"] by (simp add: decimal_step del: of_nat_add)
  qed
qed

lemma decimal_not_Nil [simp]: "decimal n \<noteq> []"
  by (subst decimal.simps) simp

lemma foldl_decimal: "foldl (\<lambda>a d. 10 * a + (unat d - 48)) 0 (decimal n) = n"
proof (induction n rule: decimal.induct)
  case (1 n)
  show ?case
  proof (cases "n < 10")
    case True
    then show ?thesis using unat_digit [OF True] by (simp only: decimal_small) simp
  next
    case False
    then show ?thesis using 1 unat_digit [of "n mod 10"] by (simp add: decimal_step del: of_nat_add)
  qed
qed

lemma parse_decimal [simp]: "parse_u32 (decimal (unat n)) = Some n"
proof -
  obtain b ds where bs: "decimal (unat n) = b # ds" by (cases "decimal (unat n)") auto
  have "b \<noteq> 0x2B" using decimal_digits [of "unat n"] by (auto simp: bs is_digit_def)
  moreover have "unat n < 2 ^ 32" using unsigned_less [of n] by simp
  ultimately show ?thesis
    using decimal_digits [of "unat n"] foldl_decimal [of "unat n"] by (simp add: parse_u32_def bs Let_def)
qed

lemma decimal_comma [simp]: "COMMA \<notin> set (decimal n)"
  using decimal_digits [of n] by (auto simp: list_all_iff is_digit_def COMMA_def)

lemma decimal_utf8: "utf8_valid (decimal n)"
  by (rule utf8_valid_ascii, rule list.pred_mono_strong [OF decimal_digits]) (simp add: is_digit_def word_le_nat_alt)

lemma xor_bytes_twice:
  "length xs = length ys \<Longrightarrow> \<exists>zs. xor_bytes xs ys = Some zs \<and> xor_bytes zs ys = Some xs"
  by (induction xs ys rule: list_induct2) (auto simp: xor_bytes_def ac_simps)

section \<open>What is relied on\<close>

text \<open>
  Base64 is decoded to what was encoded and has no comma, a message authentication code takes keys of
  any length and has a fixed length.
\<close>

definition crypto_laws :: "crypto \<Rightarrow> bool" where
  "crypto_laws cy \<longleftrightarrow>
     (\<forall>x. cy_decode cy (cy_encode cy x) = Some x \<and> COMMA \<notin> set (cy_encode cy x) \<and> utf8_valid (cy_encode cy x)) \<and>
     (\<forall>v k m k' m'. \<exists>y y'. cy_hmac cy v k m = Some y \<and> cy_hmac cy v k' m' = Some y' \<and> length y = length y')"

lemma crypto_base64 [simp]:
  assumes "crypto_laws cy"
  shows "cy_decode cy (cy_encode cy x) = Some x" and "COMMA \<notin> set (cy_encode cy x)" and "utf8_valid (cy_encode cy x)"
  using assms by (auto simp: crypto_laws_def)

lemma crypto_hmac: "crypto_laws cy \<Longrightarrow> \<exists>y. cy_hmac cy v k m = Some y"
  unfolding crypto_laws_def by blast

lemma crypto_hmac_length:
  "crypto_laws cy \<Longrightarrow> cy_hmac cy v k m = Some y \<Longrightarrow> cy_hmac cy v k' m' = Some y' \<Longrightarrow> length y = length y'"
  unfolding crypto_laws_def by (metis option.inject)

lemmas attribute_defs = GS2_HEADER_def USERNAME_KEY_def RESERVED_MEXT_def NONCE_KEY_def CHANNEL_BINDING_KEY_def
  SALT_KEY_def ITERATION_COUNT_KEY_def PROOF_KEY_def VERIFIER_KEY_def COMMA_def

lemma attribute_comma [simp]:
  "COMMA \<notin> set USERNAME_KEY" "COMMA \<notin> set NONCE_KEY" "COMMA \<notin> set CHANNEL_BINDING_KEY" "COMMA \<notin> set SALT_KEY"
  "COMMA \<notin> set ITERATION_COUNT_KEY" "COMMA \<notin> set PROOF_KEY" "COMMA \<notin> set VERIFIER_KEY"
  by (simp_all add: attribute_defs)

lemma attribute_utf8 [simp]:
  "utf8_valid GS2_HEADER" "utf8_valid USERNAME_KEY" "utf8_valid NONCE_KEY" "utf8_valid CHANNEL_BINDING_KEY"
  "utf8_valid SALT_KEY" "utf8_valid ITERATION_COUNT_KEY" "utf8_valid PROOF_KEY" "utf8_valid VERIFIER_KEY"
  "COMMA \<le> 127"
  by (simp_all add: attribute_defs)

lemma not_extension [simp]: "\<not> starts_with RESERVED_MEXT (NONCE_KEY @ xs)"
  by (simp add: starts_with_def attribute_defs)

section \<open>One message after the other\<close>

text \<open>What the server makes of the first message of a client.\<close>

lemma server_parses_client_first:
  assumes "crypto_laws cy" and "COMMA \<notin> set username" and "utf8_valid username" and "creds username = Some stored"
  shows "scram_server_first cy (GS2_HEADER @ USERNAME_KEY @ username @ COMMA # NONCE_KEY @ cy_encode cy r) nonce creds =
    Inr (Some \<lparr>sf_username = username,
      sf_client_first_message_bare = USERNAME_KEY @ username @ COMMA # NONCE_KEY @ cy_encode cy r,
      sf_client_server_nonce = cy_encode cy r @ nonce,
      sf_message = NONCE_KEY @ (cy_encode cy r @ nonce) @ [COMMA] @ SALT_KEY @ cy_encode cy (sp_salt stored)
        @ [COMMA] @ ITERATION_COUNT_KEY @ decimal (unat (sp_iterations stored))\<rparr>)"
proof -
  let ?bare = "USERNAME_KEY @ username @ COMMA # NONCE_KEY @ cy_encode cy r"
  have "split_on COMMA ?bare = [USERNAME_KEY @ username, NONCE_KEY @ cy_encode cy r]"
    using split_on_append [of COMMA "USERNAME_KEY @ username" "NONCE_KEY @ cy_encode cy r"] assms(1,2) by simp
  moreover have "utf8_valid (GS2_HEADER @ ?bare)"
    using assms by (intro utf8_valid_append) (simp_all add: utf8_valid_append)
  ultimately show ?thesis using assms(4) by (simp add: scram_server_first_def ok_or_def Let_def)
qed

text \<open>What the client makes of the first message of the server.\<close>

lemma client_answers_server_first:
  assumes "crypto_laws cy" and "COMMA \<notin> set nonce" and "compute_salted_password cy v password salt iterations = Inr salted"
    and "message = auth_message bare server_first (without_proof cy (cnonce @ nonce))" and "COMMA \<notin> set cnonce"
    and "server_first = NONCE_KEY @ (cnonce @ nonce) @ [COMMA] @ SALT_KEY @ cy_encode cy salt @ [COMMA]
        @ ITERATION_COUNT_KEY @ decimal (unat iterations)"
  shows "\<exists>proof sig. compute_client_proof cy v salted message = Inr proof \<and>
    compute_server_signature cy v salted message = Inr sig \<and>
    scram_client_final cy v cnonce password server_first bare =
      Inr (client_final (without_proof cy (cnonce @ nonce)) (cy_encode cy proof), sig)"
proof -
  obtain ck where ck: "cy_hmac cy v salted CLIENT_KEY = Some ck" using crypto_hmac [OF assms(1)] by blast
  obtain cs where cs: "cy_hmac cy v (cy_h cy v ck) message = Some cs" using crypto_hmac [OF assms(1)] by blast
  obtain pr where pf: "xor_bytes ck cs = Some pr"
    using xor_bytes_twice [of ck cs] crypto_hmac_length [OF assms(1) ck cs] by blast
  have "compute_client_proof cy v salted message = Inr pr"
    by (simp add: compute_client_proof_def ok_or_def ck cs pf)
  moreover obtain sk where "cy_hmac cy v salted SERVER_KEY = Some sk" using crypto_hmac [OF assms(1)] by blast
  moreover obtain sig where "cy_hmac cy v sk message = Some sig" using crypto_hmac [OF assms(1)] by blast
  ultimately have "compute_client_proof cy v salted message = Inr pr" "compute_server_signature cy v salted message = Inr sig"
    by (simp_all add: compute_server_signature_def ok_or_def)
  moreover have "split_on COMMA server_first = [NONCE_KEY @ cnonce @ nonce, SALT_KEY @ cy_encode cy salt,
      ITERATION_COUNT_KEY @ decimal (unat iterations)]"
    using assms(1,2,5) split_on_append [of COMMA "NONCE_KEY @ cnonce @ nonce"]
      split_on_append [of COMMA "SALT_KEY @ cy_encode cy salt"] by (simp add: assms(6))
  ultimately show ?thesis
    using assms(1,3,4) by (simp add: scram_client_final_def ok_or_def Let_def)
qed

text \<open>What the server makes of the final message of a client that has the key.\<close>

lemma server_accepts_client_final:
  assumes "crypto_laws cy" and "COMMA \<notin> set nonce" and "utf8_valid nonce"
    and "cy_hmac cy v salted CLIENT_KEY = Some ck" and "cy_hmac cy v salted SERVER_KEY = Some (sp_server_key stored)"
    and "sp_stored_key stored = cy_h cy v ck"
    and "compute_client_proof cy v salted (auth_message bare server_first (without_proof cy nonce)) = Inr proof"
    and "compute_server_signature cy v salted (auth_message bare server_first (without_proof cy nonce)) = Inr sig"
  shows "scram_server_final cy v (client_final (without_proof cy nonce) (cy_encode cy proof)) nonce bare server_first stored =
    Inr (VERIFIER_KEY @ cy_encode cy sig)"
proof -
  let ?message = "auth_message bare server_first (without_proof cy nonce)"
  let ?final = "client_final (without_proof cy nonce) (cy_encode cy proof)"
  obtain cs where cs: "cy_hmac cy v (sp_stored_key stored) ?message = Some cs" using crypto_hmac [OF assms(1)] by blast
  have "xor_bytes ck cs = Some proof"
    using assms(4,6,7) cs by (auto simp: compute_client_proof_def ok_or_def split: option.splits)
  then have pf: "xor_bytes proof cs = Some ck"
    using xor_bytes_twice [of ck cs] crypto_hmac_length [OF assms(1,4) cs] by auto
  have "split_on COMMA ?final = [CHANNEL_BINDING_KEY @ cy_encode cy GS2_HEADER, NONCE_KEY @ nonce, PROOF_KEY @ cy_encode cy proof]"
    using assms(1,2) split_on_append [of COMMA "CHANNEL_BINDING_KEY @ cy_encode cy GS2_HEADER"]
      split_on_append [of COMMA "NONCE_KEY @ nonce"] by (simp add: client_final_def without_proof_def)
  moreover have "utf8_valid ?final"
    using assms(1,3) by (simp add: client_final_def without_proof_def utf8_valid_append)
  moreover have "take (length ?final - (length (cy_encode cy proof) + length PROOF_KEY + 1)) ?final = without_proof cy nonce"
    by (simp add: client_final_def)
  moreover have "cy_hmac cy v (sp_server_key stored) ?message = Some sig"
    using assms(5,8) by (auto simp: compute_server_signature_def ok_or_def split: option.splits)
  ultimately show ?thesis
    using assms(1,6) cs pf by (simp add: scram_server_final_def ok_or_def Let_def)
qed

lemma client_validates_server_final:
  "crypto_laws cy \<Longrightarrow> scram_validate_server_final cy (VERIFIER_KEY @ cy_encode cy sig) sig = Inr ()"
  by (simp add: scram_validate_server_final_def ok_or_def utf8_valid_append)

end
