(* ===== verification/Sasl_Security.thy ===== *)
theory Sasl_Security
  imports Sasl Scram_Exchange
begin

text \<open>
  What a finished SASL negotiation means for either side, and that an honest exchange finishes.
\<close>

section \<open>Headers\<close>

lemma prefix_length [simp]: "length PROTOCOL_HEADER_PREFIX = 4"
  by (simp add: PROTOCOL_HEADER_PREFIX_def)

lemma protocol_id_roundtrip [simp]: "protocol_id_try_from (protocol_id_byte i) = Some i"
  by (cases i) (simp_all add: protocol_id_try_from_def)

lemma header_roundtrip: "header_try_from (header_bytes h) = Inr h"
  by (simp add: header_try_from_def header_bytes_def nth_append)

section \<open>Plain passwords\<close>

text \<open>Names and passwords without a zero byte are compared as they are.\<close>

lemma plain_accepts_iff:
  assumes "0 \<notin> set user" and "0 \<notin> set pass"
  shows "snd (on_init cy r (AcceptPlain username password)
      \<lparr>si_mechanism = PLAIN, si_initial_response = snd (initial_response cy r' (Plain user pass)), si_hostname = h\<rparr>) =
    SfOutcome (if username = user \<and> password = pass then ScOk else ScAuth) None"
proof -
  have "split_on 0 (0 # user @ 0 # pass) = [[], user, pass]" using assms by simp
  then show ?thesis by (simp add: validate_init_def validate_credential_def)
qed

section \<open>The client\<close>

text \<open>Where the state of a client comes from: the frames it got and sent so far.\<close>

fun client_justified ::
    "crypto \<Rightarrow> (nat \<Rightarrow> bytes) \<Rightarrow> bytes \<Rightarrow> bytes \<Rightarrow> sasl_frame set \<Rightarrow> sasl_frame set \<Rightarrow> sasl_profile \<Rightarrow> bool" where
  "client_justified cy randoms username password got out (Scram v client) \<longleftrightarrow>
     sc_username client = username \<and> sc_password client = password \<and> sc_scram client = v \<and>
     (case sc_state client of
        ScsClientFirstSent nonce bare \<Rightarrow>
          (\<exists>n. nonce = cy_encode cy (randoms n) \<and> bare = USERNAME_KEY @ username @ COMMA # NONCE_KEY @ nonce)
      | ScsClientFinalSent sig \<Rightarrow>
          (\<exists>n server_first final. SaslChallenge server_first \<in> got \<and> SaslResponse final \<in> out \<and>
             scram_client_final cy v (cy_encode cy (randoms n)) password server_first
               (USERNAME_KEY @ username @ COMMA # NONCE_KEY @ cy_encode cy (randoms n)) = Inr (final, sig))
      | _ \<Rightarrow> True)"
| "client_justified cy randoms username password got out _ \<longleftrightarrow> False"

definition server_verified ::
    "crypto \<Rightarrow> (nat \<Rightarrow> bytes) \<Rightarrow> scram_version \<Rightarrow> bytes \<Rightarrow> bytes \<Rightarrow> sasl_frame set \<Rightarrow> sasl_frame set \<Rightarrow> bool" where
  "server_verified cy randoms v username password got out \<longleftrightarrow>
     (\<exists>n server_first server_final final sig.
        SaslChallenge server_first \<in> got \<and> SaslOutcome ScOk (Some server_final) \<in> got \<and> SaslResponse final \<in> out \<and>
        scram_client_final cy v (cy_encode cy (randoms n)) password server_first
          (USERNAME_KEY @ username @ COMMA # NONCE_KEY @ cy_encode cy (randoms n)) = Inr (final, sig) \<and>
        scram_validate_server_final cy server_final sig = Inr ())"

lemma client_justified_mono:
  "client_justified cy randoms u p got out profile \<Longrightarrow> got \<subseteq> got' \<Longrightarrow> out \<subseteq> out' \<Longrightarrow>
     client_justified cy randoms u p got' out' profile"
  by (induction cy randoms u p got out profile rule: client_justified.induct)
    (fastforce split: scram_client_state.splits)+

lemma on_frame_init:
  assumes "client_justified cy randoms u p got out (Scram v client)"
    and "on_frame cy (randoms n) debug hostname (Scram v client) frame = (profile1, Inr (NInit init))"
  shows "\<exists>client1. profile1 = Scram v client1 \<and> client_justified cy randoms u p got' out' profile1"
  using assms
  by (cases frame) (auto simp: compute_client_first_message_def client_first_message_def GS2_HEADER_def Let_def
      compute_client_final_message_def validate_server_final_def
      split: if_splits prod.splits option.splits sum.splits scram_client_state.splits)

lemma on_frame_response:
  assumes "client_justified cy randoms u p got out (Scram v client)"
    and "on_frame cy (randoms n) debug hostname (Scram v client) frame = (profile1, Inr (NResponse response))"
  shows "\<exists>client1. profile1 = Scram v client1 \<and>
    client_justified cy randoms u p (insert frame got) (insert (SaslResponse response) out) profile1"
  using assms
  by (cases frame) (auto simp: compute_client_final_message_def validate_server_final_def compute_client_first_message_def
      split: if_splits prod.splits option.splits sum.splits scram_client_state.splits; blast)+

lemma on_frame_outcome:
  assumes "client_justified cy randoms u p got out (Scram v client)"
    and "on_frame cy (randoms n) debug hostname (Scram v client) frame = (profile1, Inr (NOutcome ScOk data))"
  shows "server_verified cy randoms v u p (insert frame got) out"
  using assms
  by (cases frame) (auto simp: server_verified_def compute_client_final_message_def validate_server_final_def
      compute_client_first_message_def
      split: if_splits prod.splits option.splits sum.splits scram_client_state.splits; blast)+

abbreviation sasl_sent :: "wire_item chan \<Rightarrow> sasl_frame set" where
  "sasl_sent w \<equiv> {f. WSasl f \<in> set (sent w)}"

lemma negotiate_sasl_ok:
  "client_justified cy randoms u p got (sasl_sent w) (Scram v client) \<Longrightarrow>
   negotiate_sasl cy randoms n debug hostname w (Scram v client) frames = (w', Inr ()) \<Longrightarrow>
   server_verified cy randoms v u p (got \<union> {f. Inr f \<in> set frames}) (sasl_sent w')"
proof (induction frames arbitrary: n w client got)
  case (Cons r frames)
  from Cons.prems(2) obtain frame where r: "r = Inr frame" by (cases r) auto
  obtain profile1 x where x: "on_frame cy (randoms n) debug hostname (Scram v client) frame = (profile1, Inr x)"
    using Cons.prems(2) by (auto simp: r Let_def split: prod.splits sum.splits)
  have more: "server_verified cy randoms v u p (insert frame got \<union> {f. Inr f \<in> set frames}) (sasl_sent w')"
    if "profile1 = Scram v client1" "chan_send w (WSasl item) = Some w1"
      "client_justified cy randoms u p (insert frame got) (insert item (sasl_sent w)) profile1"
      "negotiate_sasl cy randoms (Suc n) debug hostname w1 profile1 frames = (w', Inr ())" for client1 item w1
  proof -
    have "sasl_sent w1 = insert item (sasl_sent w)" using that(2) by (auto simp: chan_send_def split: if_splits)
    then show ?thesis using Cons.IH [of "insert frame got" w1 client1 "Suc n"] that by simp
  qed
  have got: "got \<union> {f. Inr f \<in> set (r # frames)} = insert frame got \<union> {f. Inr f \<in> set frames}" by (auto simp: r)
  show ?case
  proof (cases x)
    case (NInit init)
    then obtain w1 where w1: "chan_send w (WSasl (SaslInit init)) = Some w1"
        "negotiate_sasl cy randoms (Suc n) debug hostname w1 profile1 frames = (w', Inr ())"
      using x Cons.prems(2) by (auto simp: r Let_def split: option.splits)
    obtain client1 where "profile1 = Scram v client1"
        "client_justified cy randoms u p (insert frame got) (insert (SaslInit init) (sasl_sent w)) profile1"
      using on_frame_init [OF Cons.prems(1) x [unfolded NInit]] by blast
    then show ?thesis unfolding got using more w1 by blast
  next
    case (NResponse response)
    then obtain w1 where w1: "chan_send w (WSasl (SaslResponse response)) = Some w1"
        "negotiate_sasl cy randoms (Suc n) debug hostname w1 profile1 frames = (w', Inr ())"
      using x Cons.prems(2) by (auto simp: r Let_def split: option.splits)
    obtain client1 where "profile1 = Scram v client1"
        "client_justified cy randoms u p (insert frame got) (insert (SaslResponse response) (sasl_sent w)) profile1"
      using on_frame_response [OF Cons.prems(1) x [unfolded NResponse]] by blast
    then show ?thesis unfolding got using more w1 by blast
  next
    case (NOutcome code data)
    then have "w' = w" "code = ScOk" using x Cons.prems(2) by (auto simp: r Let_def split: if_splits)
    then have "server_verified cy randoms v u p (insert frame got) (sasl_sent w')"
      using on_frame_outcome [OF Cons.prems(1)] x NOutcome by blast
    then show ?thesis unfolding got server_verified_def by blast
  qed
qed simp

text \<open>What it takes to answer the client: the signature under the server's key, over the messages of this exchange.\<close>

lemma scram_client_final_signature:
  assumes "scram_client_final cy v nonce password server_first bare = Inr (final, sig)"
  shows "\<exists>both salt iterations salted server_key.
    compute_salted_password cy v password salt iterations = Inr salted \<and>
    cy_hmac cy v salted SERVER_KEY = Some server_key \<and> starts_with nonce both \<and>
    cy_hmac cy v server_key (auth_message bare server_first (without_proof cy both)) = Some sig"
  using assms
  by (auto simp: scram_client_final_def compute_server_signature_def ok_or_def Let_def
      split: if_splits option.splits sum.splits) blast

lemma scram_validate_server_finalD:
  "scram_validate_server_final cy server_final sig = Inr () \<Longrightarrow>
     \<exists>encoded. strip_prefix VERIFIER_KEY (hd (split_on COMMA server_final)) = Some encoded \<and> cy_decode cy encoded = Some sig"
  by (auto simp: scram_validate_server_final_def ok_or_def split: if_splits option.splits)

text \<open>
  C24: A client with a SCRAM profile gets as far as the AMQP connection only with a server that knows
  the password. Whatever the server sent, it sent in its outcome the code of the messages of this
  exchange, the random nonce of the client included, under a key derived from the password of the user.
\<close>

theorem scram_client_authenticates_server:
  assumes "connect_with_stream cy randoms debug dbg hostname w (Some (scram_profile v username password))
      sasl_header frames amqp_header = (w', Inr state)"
  shows "\<exists>n server_first server_final encoded sig both salt iterations salted server_key.
    Inr (SaslChallenge server_first) \<in> set frames \<and> Inr (SaslOutcome ScOk (Some server_final)) \<in> set frames \<and>
    strip_prefix VERIFIER_KEY (hd (split_on COMMA server_final)) = Some encoded \<and> cy_decode cy encoded = Some sig \<and>
    compute_salted_password cy v password salt iterations = Inr salted \<and>
    cy_hmac cy v salted SERVER_KEY = Some server_key \<and> starts_with (cy_encode cy (randoms n)) both \<and>
    cy_hmac cy v server_key (auth_message (USERNAME_KEY @ username @ COMMA # NONCE_KEY @ cy_encode cy (randoms n))
      server_first (without_proof cy both)) = Some sig"
proof -
  obtain w1 w2 where w1: "negotiate_sasl_header w sasl_header = (w1, Inr ())"
    and w2: "negotiate_sasl cy randoms 0 debug hostname w1 (scram_profile v username password) frames = (w2, Inr ())"
    using assms(1) by (auto simp: connect_with_stream_def Let_def split: prod.splits sum.splits)
  have "client_justified cy randoms username password {} (sasl_sent w1) (scram_profile v username password)"
    by (simp add: scram_profile_def scram_client_new_def)
  from negotiate_sasl_ok [OF this [unfolded scram_profile_def] w2 [unfolded scram_profile_def]]
  obtain n server_first server_final final sig where
    "Inr (SaslChallenge server_first) \<in> set frames" "Inr (SaslOutcome ScOk (Some server_final)) \<in> set frames"
    and sig: "scram_client_final cy v (cy_encode cy (randoms n)) password server_first
      (USERNAME_KEY @ username @ COMMA # NONCE_KEY @ cy_encode cy (randoms n)) = Inr (final, sig)"
    and final: "scram_validate_server_final cy server_final sig = Inr ()"
    unfolding server_verified_def by auto
  then show ?thesis
    using scram_client_final_signature [OF sig] scram_validate_server_finalD [OF final] by blast
qed

section \<open>The listener\<close>

definition acceptor_justified :: "crypto \<Rightarrow> (nat \<Rightarrow> bytes) \<Rightarrow> scram_version \<Rightarrow> (bytes \<Rightarrow> stored_password option) \<Rightarrow> scram_authenticator \<Rightarrow> bool" where
  "acceptor_justified cy randoms v creds a \<longleftrightarrow> sa_version a = v \<and> sa_credentials a = creds \<and>
     (case sa_state a of
        SasServerFirstSent username bare nonce server_first \<Rightarrow>
          (\<exists>n client_nonce rest. server_first = NONCE_KEY @ client_nonce @ cy_encode cy (randoms n) @ rest)
      | _ \<Rightarrow> True)"

definition client_proved ::
    "crypto \<Rightarrow> (nat \<Rightarrow> bytes) \<Rightarrow> scram_version \<Rightarrow> (bytes \<Rightarrow> stored_password option) \<Rightarrow> bytes \<Rightarrow> bool" where
  "client_proved cy randoms v creds response \<longleftrightarrow>
     (\<exists>n username stored client_nonce rest server_first bare final_bare encoded pr signature client_key.
        creds username = Some stored \<and>
        server_first = NONCE_KEY @ client_nonce @ cy_encode cy (randoms n) @ rest \<and>
        strip_prefix PROOF_KEY (last (split_on COMMA response)) = Some encoded \<and> cy_decode cy encoded = Some pr \<and>
        cy_hmac cy v (sp_stored_key stored) (auth_message bare server_first final_bare) = Some signature \<and>
        xor_bytes pr signature = Some client_key \<and> cy_h cy v client_key = sp_stored_key stored)"

lemma server_first_nonce:
  "scram_server_first cy client_first nonce creds = Inr (Some m) \<Longrightarrow>
     \<exists>client_nonce rest. sf_message m = NONCE_KEY @ client_nonce @ nonce @ rest"
  by (auto simp: scram_server_first_def ok_or_def Let_def split: if_splits option.splits) blast

lemma on_init_justified:
  assumes "acceptor_justified cy randoms v creds a" and "on_init cy (randoms n) (AcceptScram a) init = (acceptor1, reply)"
  shows "\<exists>a1. acceptor1 = AcceptScram a1 \<and> acceptor_justified cy randoms v creds a1" and "reply \<noteq> SfOutcome ScOk data"
  using assms server_first_nonce
  by (fastforce simp: acceptor_justified_def compute_server_first_message_def
      split: if_splits option.splits sum.splits prod.splits)+

lemma scram_server_final_proved:
  assumes "scram_server_final cy v response nonce bare server_first stored = Inr m" and "creds username = Some stored"
    and "server_first = NONCE_KEY @ client_nonce @ cy_encode cy (randoms n) @ rest"
  shows "client_proved cy randoms v creds response"
proof -
  obtain encoded pr final_bare signature client_key where
    "strip_prefix PROOF_KEY (last (split_on COMMA response)) = Some encoded" "cy_decode cy encoded = Some pr"
    "cy_hmac cy v (sp_stored_key stored) (auth_message bare server_first final_bare) = Some signature"
    "xor_bytes pr signature = Some client_key" "cy_h cy v client_key = sp_stored_key stored"
    using assms(1) by (auto simp: scram_server_final_def ok_or_def Let_def split: if_splits option.splits)
  then show ?thesis unfolding client_proved_def using assms(2,3) by blast
qed

lemma on_response_proved:
  assumes "acceptor_justified cy randoms v creds a" and "on_response cy (AcceptScram a) response = (acceptor1, reply)"
  shows "\<exists>code data. reply = SfOutcome code data \<and> (code = ScOk \<longrightarrow> client_proved cy randoms v creds response)"
  using assms
  by (auto simp: acceptor_justified_def compute_server_final_message_def intro: scram_server_final_proved
      split: option.splits sum.splits prod.splits scram_authenticator_state.splits)

lemma accept_sasl_ok:
  "acceptor_justified cy randoms v creds a \<Longrightarrow> accept_sasl cy randoms n w (AcceptScram a) frames = (w', Inr ()) \<Longrightarrow>
   \<exists>response. Inr (SaslResponse response) \<in> set frames \<and> client_proved cy randoms v creds response"
proof (induction frames arbitrary: n w a)
  case (Cons r frames)
  from Cons.prems(2) obtain frame where r: "r = Inr frame" by (cases r) auto
  consider init where "frame = SaslInit init" | response where "frame = SaslResponse response"
    using Cons.prems(2) by (cases frame) (auto simp: r Let_def split: option.splits)
  then show ?case
  proof cases
    case 1
    obtain acceptor1 reply where i: "on_init cy (randoms n) (AcceptScram a) init = (acceptor1, reply)" by fastforce
    note j = on_init_justified [OF Cons.prems(1) i]
    show ?thesis
      using Cons.prems(2) 1 i j Cons.IH
      by (fastforce simp: r Let_def split: option.splits sasl_server_frame.splits if_splits)
  next
    case 2
    obtain acceptor1 reply where i: "on_response cy (AcceptScram a) response = (acceptor1, reply)" by fastforce
    show ?thesis
      using Cons.prems(2) 2 i on_response_proved [OF Cons.prems(1) i]
      by (auto simp: r Let_def split: option.splits if_splits)
  qed
qed simp

text \<open>
  C25: A listener that authenticates with SCRAM opens a connection only for a client that proved to hold
  the key of one of its users: in one of its responses the client sent a proof from which the listener,
  with the signature of the messages of this exchange, its own random nonce included, obtains a key
  whose hash is the stored one.
\<close>

theorem scram_listener_authenticates_client:
  assumes "negotiate_sasl_with_framed cy randoms dbg w
      (AcceptScram \<lparr>sa_version = v, sa_credentials = creds, sa_state = SasInitial\<rparr>) sasl_header frames amqp_header = (w', Inr state)"
  shows "\<exists>response n username stored client_nonce rest server_first bare final_bare encoded pr signature client_key.
    Inr (SaslResponse response) \<in> set frames \<and> creds username = Some stored \<and>
    server_first = NONCE_KEY @ client_nonce @ cy_encode cy (randoms n) @ rest \<and>
    strip_prefix PROOF_KEY (last (split_on COMMA response)) = Some encoded \<and> cy_decode cy encoded = Some pr \<and>
    cy_hmac cy v (sp_stored_key stored) (auth_message bare server_first final_bare) = Some signature \<and>
    xor_bytes pr signature = Some client_key \<and> cy_h cy v client_key = sp_stored_key stored"
proof -
  let ?a = "\<lparr>sa_version = v, sa_credentials = creds, sa_state = SasInitial\<rparr>"
  obtain w1 w2 where "accept_sasl cy randoms 0 w1 (AcceptScram ?a) frames = (w2, Inr ())"
    using assms by (auto simp: negotiate_sasl_with_framed_def split: prod.splits sum.splits option.splits)
  moreover have "acceptor_justified cy randoms v creds ?a" by (simp add: acceptor_justified_def)
  ultimately obtain response where "Inr (SaslResponse response) \<in> set frames" "client_proved cy randoms v creds response"
    using accept_sasl_ok by blast
  then show ?thesis unfolding client_proved_def by blast
qed

section \<open>An honest exchange\<close>

lemma chan_send_open [simp]: "chan_send \<lparr>rx_alive = True, sent = xs\<rparr> x = Some \<lparr>rx_alive = True, sent = xs @ [x]\<rparr>"
  by (simp add: chan_send_def)

lemma headers_agree [simp]:
  "negotiate_sasl_header \<lparr>rx_alive = True, sent = xs\<rparr> (Some (Inr (header_of PSasl))) =
     (\<lparr>rx_alive = True, sent = xs @ [WHeader (header_of PSasl)]\<rparr>, Inr ())"
  "negotiate_amqp_header dbg \<lparr>rx_alive = True, sent = xs\<rparr> (Some (Inr (header_of PAmqp))) CStart =
     (\<lparr>rx_alive = True, sent = xs @ [WHeader (header_of PAmqp)]\<rparr>, CHeaderExchange, Inr ())"
  by (simp_all add: negotiate_sasl_header_def negotiate_amqp_header_def send_amqp_proto_header_def
      recv_amqp_proto_header_def read_and_compare_amqp_proto_header_def header_of_def)

text \<open>The state of the client and of the listener along the exchange.\<close>

lemma scram_exchange:
  assumes "crypto_laws cy" and "COMMA \<notin> set username" and "utf8_valid username"
    and "single_scram_credential cy v username password salt = Some creds"
  shows "\<exists>m1 m2 m3 m4 c1 c2 c3 a1 a2.
    compute_client_first_message cy (scram_client_new username password v) r1 = (c1, m1) \<and>
    compute_server_first_message cy \<lparr>sa_version = v, sa_credentials = creds, sa_state = SasInitial\<rparr> r2 m1 = (a1, Inr (Some m2)) \<and>
    utf8_valid m2 \<and> compute_client_final_message cy c1 m2 = (c2, Inr m3) \<and>
    compute_server_final_message cy a1 m3 = (a2, Inr (Some m4)) \<and> sa_version a1 = v \<and>
    validate_server_final cy c2 m4 = (c3, Inr ())"
proof -
  obtain salted ck key where salted: "compute_salted_password cy v password salt DEFAULT_SCRAM_ITERATIONS = Inr salted"
    and ck: "cy_hmac cy v salted CLIENT_KEY = Some ck" and key: "cy_hmac cy v salted SERVER_KEY = Some key"
    and creds: "creds username = Some \<lparr>sp_salt = salt, sp_iterations = DEFAULT_SCRAM_ITERATIONS,
        sp_stored_key = cy_h cy v ck, sp_server_key = key\<rparr>"
    using assms(4) by (auto simp: single_scram_credential_def split: sum.splits option.splits)
  define stored where "stored = \<lparr>sp_salt = salt, sp_iterations = DEFAULT_SCRAM_ITERATIONS,
      sp_stored_key = cy_h cy v ck, sp_server_key = key\<rparr>"
  have stored: "creds username = Some stored" "sp_stored_key stored = cy_h cy v ck" "sp_salt stored = salt"
      "sp_iterations stored = DEFAULT_SCRAM_ITERATIONS" and sk: "cy_hmac cy v salted SERVER_KEY = Some (sp_server_key stored)"
    using creds key by (simp_all add: stored_def)
  let ?cn = "cy_encode cy r1" and ?sn = "cy_encode cy r2"
  let ?bare = "USERNAME_KEY @ username @ COMMA # NONCE_KEY @ ?cn"
  let ?m2 = "NONCE_KEY @ (?cn @ ?sn) @ [COMMA] @ SALT_KEY @ cy_encode cy salt @ [COMMA] @ ITERATION_COUNT_KEY
      @ decimal (unat DEFAULT_SCRAM_ITERATIONS)"
  obtain pr sig where pr: "compute_client_proof cy v salted (auth_message ?bare ?m2 (without_proof cy (?cn @ ?sn))) = Inr pr"
      "compute_server_signature cy v salted (auth_message ?bare ?m2 (without_proof cy (?cn @ ?sn))) = Inr sig"
      "scram_client_final cy v ?cn password ?m2 ?bare =
         Inr (client_final (without_proof cy (?cn @ ?sn)) (cy_encode cy pr), sig)"
    using client_answers_server_first [OF assms(1) _ salted refl _ refl, of ?sn ?cn ?bare] assms(1) by auto
  have accepted: "scram_server_final cy v (client_final (without_proof cy (?cn @ ?sn)) (cy_encode cy pr)) (?cn @ ?sn) ?bare ?m2 stored =
      Inr (VERIFIER_KEY @ cy_encode cy sig)"
    by (rule server_accepts_client_final [OF assms(1) _ _ ck sk stored(2) pr(1,2)])
      (use assms(1) in \<open>simp_all add: utf8_valid_append\<close>)
  have m2: "utf8_valid ?m2" using assms(1) by (simp add: utf8_valid_append decimal_utf8)
  have first: "scram_server_first cy (GS2_HEADER @ ?bare) ?sn creds = Inr (Some \<lparr>sf_username = username,
      sf_client_first_message_bare = ?bare, sf_client_server_nonce = ?cn @ ?sn, sf_message = ?m2\<rparr>)"
    using server_parses_client_first [where creds = creds, OF assms(1-3) stored(1), of r1 ?sn] stored(3,4) by simp
  let ?a = "\<lparr>sa_version = v, sa_credentials = creds, sa_state = SasServerFirstSent username ?bare (?cn @ ?sn) ?m2\<rparr>"
  let ?c = "\<lambda>state. (scram_client_new username password v)\<lparr>sc_state := state\<rparr>"
  have "compute_client_first_message cy (scram_client_new username password v) r1 = (?c (ScsClientFirstSent ?cn ?bare), GS2_HEADER @ ?bare)"
    by (simp add: compute_client_first_message_def client_first_message_def scram_client_new_def Let_def)
  moreover have "compute_server_first_message cy \<lparr>sa_version = v, sa_credentials = creds, sa_state = SasInitial\<rparr> r2 (GS2_HEADER @ ?bare) =
      (?a, Inr (Some ?m2))"
    unfolding compute_server_first_message_def by (simp del: append_assoc add: first)
  moreover have "compute_client_final_message cy (?c (ScsClientFirstSent ?cn ?bare)) ?m2 =
      (?c (ScsClientFinalSent sig), Inr (client_final (without_proof cy (?cn @ ?sn)) (cy_encode cy pr)))"
    using pr(3) by (simp add: compute_client_final_message_def scram_client_new_def)
  moreover have "compute_server_final_message cy ?a (client_final (without_proof cy (?cn @ ?sn)) (cy_encode cy pr)) =
      (?a\<lparr>sa_state := SasServerFinalSent\<rparr>, Inr (Some (VERIFIER_KEY @ cy_encode cy sig)))"
    using accepted stored(1) by (simp add: compute_server_final_message_def)
  moreover have "validate_server_final cy (?c (ScsClientFinalSent sig)) (VERIFIER_KEY @ cy_encode cy sig) = (?c ScsComplete, Inr ())"
    using client_validates_server_final [OF assms(1), of sig] by (simp add: validate_server_final_def scram_client_new_def)
  ultimately show ?thesis using m2 by (metis scram_authenticator.select_convs(1))
qed

lemma negotiation_agrees:
  assumes "crypto_laws cy" and "COMMA \<notin> set username" and "utf8_valid username"
    and "single_scram_credential cy v username password salt = Some creds"
  shows "\<exists>from_client from_server.
    connect_with_stream cy randoms debug dbg hostname \<lparr>rx_alive = True, sent = []\<rparr> (Some (scram_profile v username password))
      (Some (Inr (header_of PSasl))) (map Inr from_server) (Some (Inr (header_of PAmqp))) =
      (\<lparr>rx_alive = True, sent = WHeader (header_of PSasl) # map WSasl from_client @ [WHeader (header_of PAmqp)]\<rparr>,
       Inr CHeaderExchange) \<and>
    negotiate_sasl_with_framed cy randoms' dbg \<lparr>rx_alive = True, sent = []\<rparr>
      (AcceptScram \<lparr>sa_version = v, sa_credentials = creds, sa_state = SasInitial\<rparr>)
      (Some (Inr (header_of PSasl))) (map Inr from_client) (Some (Inr (header_of PAmqp))) =
      (\<lparr>rx_alive = True, sent = WHeader (header_of PSasl) # map WSasl from_server @ [WHeader (header_of PAmqp)]\<rparr>,
       Inr CHeaderExchange)"
proof -
  obtain m1 m2 m3 m4 c1 c2 c3 a1 a2 where m:
    "compute_client_first_message cy (scram_client_new username password v) (randoms 0) = (c1, m1)"
    "compute_server_first_message cy \<lparr>sa_version = v, sa_credentials = creds, sa_state = SasInitial\<rparr> (randoms' 0) m1 = (a1, Inr (Some m2))"
    "utf8_valid m2" "compute_client_final_message cy c1 m2 = (c2, Inr m3)"
    "compute_server_final_message cy a1 m3 = (a2, Inr (Some m4))" "validate_server_final cy c2 m4 = (c3, Inr ())"
    using scram_exchange [OF assms, of "randoms 0" "randoms' 0"] by blast
  let ?from_client = "[SaslInit \<lparr>si_mechanism = scram_mechanism v, si_initial_response = Some m1, si_hostname = hostname\<rparr>,
      SaslResponse m3]"
  let ?from_server = "[SaslMechanisms [scram_mechanism v], SaslChallenge m2, SaslOutcome ScOk (Some m4)]"
  show ?thesis
    by (intro exI [of _ ?from_client] exI [of _ ?from_server])
      (simp add: connect_with_stream_def negotiate_sasl_with_framed_def scram_profile_def sasl_mechanisms_def m)
qed


section \<open>Examples\<close>

text \<open>Functions that satisfy the laws, for the examples only.\<close>

definition example_encode :: "bytes \<Rightarrow> bytes" where
  "example_encode bs = concat (map (\<lambda>b. [of_nat (64 + unat b div 16), of_nat (64 + unat b mod 16)]) bs)"

fun example_decode :: "bytes \<Rightarrow> bytes option" where
  "example_decode [] = Some []"
| "example_decode [_] = None"
| "example_decode (x # y # r) = map_option ((#) (of_nat ((unat x - 64) * 16 + (unat y - 64)))) (example_decode r)"

definition example_crypto :: crypto where
  "example_crypto = \<lparr>cy_h = (\<lambda>_. rev), cy_hmac = (\<lambda>_ k m. Some [sum_list k + 3 * sum_list m]),
     cy_h_i = (\<lambda>_ p s _. Some (p @ s)), cy_saslprep = Some, cy_encode = example_encode, cy_decode = example_decode\<rparr>"

lemma example_nibble: "unat (b :: u8) div 16 < 16"
  using unsigned_less [of b] by (intro less_mult_imp_div_less) simp

lemma unat_letter: "n < 16 \<Longrightarrow> unat (of_nat (64 + n) :: u8) = 64 + n"
  by (simp only: unat_of_nat take_bit_eq_mod) simp

lemma example_hex:
  fixes b :: u8
  shows "unat (of_nat (64 + unat b div 16) :: u8) = 64 + unat b div 16"
    and "unat (of_nat (64 + unat b mod 16) :: u8) = 64 + unat b mod 16"
  by (rule unat_letter, rule example_nibble) (rule unat_letter, simp)

lemma example_decode_encode: "example_decode (example_encode bs) = Some bs"
  by (induction bs) (simp_all add: example_encode_def example_hex del: of_nat_add)

lemma example_encode_bytes: "b \<in> set (example_encode bs) \<Longrightarrow> 64 \<le> b \<and> b \<le> 0x7F"
proof -
  assume "b \<in> set (example_encode bs)"
  then obtain x :: u8 where "b = of_nat (64 + unat x div 16) \<or> b = of_nat (64 + unat x mod 16)"
    by (auto simp: example_encode_def simp del: of_nat_add)
  moreover have "unat x div 16 < 16" "unat x mod 16 < 16" using example_nibble by simp_all
  ultimately have "64 \<le> unat b \<and> unat b \<le> 79" using example_hex [of x] by (auto simp del: of_nat_add)
  then show ?thesis by (simp add: word_le_nat_alt)
qed

lemma example_laws: "crypto_laws example_crypto"
proof -
  have "COMMA \<notin> set (example_encode x)" for x using example_encode_bytes by (fastforce simp: COMMA_def)
  moreover have "utf8_valid (example_encode x)" for x
    using example_encode_bytes by (intro utf8_valid_ascii) (auto simp: list_all_iff)
  ultimately show ?thesis by (simp add: crypto_laws_def example_crypto_def example_decode_encode)
qed

lemma example_credential: "\<exists>creds. single_scram_credential example_crypto Sha256 [0x75] [0x70] [1, 2] = Some creds"
  by (simp add: single_scram_credential_def example_crypto_def compute_salted_password_def ok_or_def)

definition example_creds :: "bytes \<Rightarrow> stored_password option" where
  "example_creds = the (single_scram_credential example_crypto Sha256 [0x75] [0x70] [1, 2])"

lemma example_creds: "single_scram_credential example_crypto Sha256 [0x75] [0x70] [1, 2] = Some example_creds"
  using example_credential by (auto simp: example_creds_def)

lemma example_user: "COMMA \<notin> set [0x75]" "utf8_valid [0x75]"
  by (simp_all add: COMMA_def)

lemmas example_agrees = negotiation_agrees [OF example_laws example_user example_creds,
    of "\<lambda>_. [7]" "\<lambda>_ _. []" "\<lambda>_ _. []" None "\<lambda>_. [9]"]

theorem scram_client_authenticates_server_witness:
  "\<exists>frames server_final encoded sig. Inr (SaslOutcome ScOk (Some server_final)) \<in> set (frames :: (negotiation_error + sasl_frame) list) \<and>
     strip_prefix VERIFIER_KEY (hd (split_on COMMA server_final)) = Some encoded \<and> cy_decode example_crypto encoded = Some sig"
proof -
  obtain from_server w' where "connect_with_stream example_crypto (\<lambda>_. [7]) (\<lambda>_ _. []) (\<lambda>_ _. []) None \<lparr>rx_alive = True, sent = []\<rparr>
      (Some (scram_profile Sha256 [0x75] [0x70])) (Some (Inr (header_of PSasl))) (map Inr from_server) (Some (Inr (header_of PAmqp))) =
      (w', Inr CHeaderExchange)"
    using example_agrees by blast
  from scram_client_authenticates_server [OF this] show ?thesis by blast
qed

theorem scram_listener_authenticates_client_witness:
  "\<exists>frames response encoded pr. Inr (SaslResponse response) \<in> set (frames :: (negotiation_error + sasl_frame) list) \<and>
     strip_prefix PROOF_KEY (last (split_on COMMA response)) = Some encoded \<and> cy_decode example_crypto encoded = Some pr"
proof -
  obtain from_client w' where "negotiate_sasl_with_framed example_crypto (\<lambda>_. [9]) (\<lambda>_ _. []) \<lparr>rx_alive = True, sent = []\<rparr>
      (AcceptScram \<lparr>sa_version = Sha256, sa_credentials = example_creds, sa_state = SasInitial\<rparr>)
      (Some (Inr (header_of PSasl))) (map Inr from_client) (Some (Inr (header_of PAmqp))) = (w', Inr CHeaderExchange)"
    using example_agrees by blast
  from scram_listener_authenticates_client [OF this] show ?thesis by blast
qed


end
