(* ===== verification/Spec2Isabelle.thy ===== *)
theory Spec2Isabelle
  imports Connection_Lifecycle Receiver_Delivery Frame_Roundtrip Session_Lifecycle Receiver_Disposition Codec_Typing Link_Recovery
    Transaction_System Transaction_Posting Sasl_Security
begin

text \<open>
  A verification of fe2o3-amqp, an AMQP 1.0 client library in Rust, from the bytes on the wire to the
  delivery an application receives.

  \<^bold>\<open>The program.\<close> \<open>serde_amqp\<close> encodes and decodes AMQP values; \<open>fe2o3-amqp-types\<close> holds the protocol
  types; \<open>fe2o3-amqp\<close> holds the engines. An application sends through a link (src/fe2o3-amqp/src/link);
  the link waits for credit, splits the delivery into transfers and hands them to its session
  (session/mod.rs), which numbers them and holds them back while the peer's window is closed; the
  connection engine (connection/engine.rs) writes them as frames (frames/amqp.rs, transport/mod.rs). In
  the other direction the connection engine routes a frame by channel to a session, the session by
  handle to the relay of a link (link/mod.rs, \<open>LinkRelay\<close>), and the receiver (link/receiver.rs)
  assembles deliveries.

  \<^bold>\<open>Theories and sources.\<close>
  \<^item> \<open>Prelude\<close>: machine integers with the saturating and wrapping operations of Rust, \<open>mpsc\<close> senders as
    records of what was sent and whether the receiver lives, lemmas on lists and words.
  \<^item> \<open>Amqp_Types\<close>: performatives, delivery states, termini, errors, endpoint states
    (fe2o3-amqp-types/src).
  \<^item> \<open>Codec\<close>, \<open>Codec_Roundtrip\<close>: the serializer and deserializer as driven by the untyped \<open>Value\<close>
    (serde_amqp/src/ser.rs, de.rs, value). The decoder recurses with fuel one more than the number of
    bytes, which is enough because each value takes at least one byte; the round trip is proved for
    the decoder with that fuel.
  \<^item> \<open>Codec_Typing\<close>: whatever the bytes, a decoded value is well typed at every depth. A deserializer is
    sound when it returns typed values and consumes input (locales \<open>sound_deserializer\<close>,
    \<open>sound_entries\<close>); lists, arrays and maps of a sound deserializer are sound.
  \<^item> \<open>Codec_Size\<close>: the counting serializer (size_ser.rs), equal to the length of what is written.
  \<^item> \<open>Performatives\<close>, \<open>Composite_Codec\<close>: what \<open>SerializeComposite\<close> (serde_amqp_derive) makes of the
    protocol types; what is written is read back as the described list of the fields, and the
    counted size covers it.
  \<^item> \<open>Typed_Decode\<close>, \<open>Typed_Roundtrip\<close>: the deserializer as driven by the protocol types, with what
    \<open>DeserializeComposite\<close> and the visitors of the enums make of them; what was written for a type is
    read back as the same value of the type.
  \<^item> \<open>Frame_Codec\<close>: frame encoder and transport sink. Loops that need not end have the result \<open>None\<close>
    when they do not.
  \<^item> \<open>Frame_Roundtrip\<close>: the frame decoder reads what the transport sink wrote, for every performative.
  \<^item> \<open>Link_Flow\<close>: credit of both link roles (link/state.rs, util/consumer.rs). Both roles are ledgers in
    which delivery-count and credit add up to the announced limit (locale \<open>credit_ledger\<close>).
  \<^item> \<open>Link_Relay\<close>: the session's end of a link (link/mod.rs): dispositions resolve exactly their
    delivery, a closing detach fails all that are pending.
  \<^item> \<open>Session\<close>, \<open>Session_Windows\<close>, \<open>Session_Links\<close>: every operation of session/mod.rs. The outgoing side
    is a first-in first-out channel with window and numbering (locales \<open>fifo_channel\<close>,
    \<open>numbered_channel\<close>); the handle tables satisfy \<open>named_handles\<close>; the invariant holds in every state
    reachable by any sequence of operations (\<open>session_step\<close>, \<open>session_reachable\<close>).
  \<^item> \<open>Session_Engine\<close>, \<open>Session_Lifecycle\<close>: the handlers and the event loop around the session endpoint
    (session/engine.rs). Handlers that neither end nor stop the session are compositions of sends
    (locale \<open>handler_preorder\<close>); the loop entered when the application is gone ends by a measure on
    the queues; a session sends one end, whatever the schedule.
  \<^item> \<open>Connection\<close>, \<open>Connection_Engine\<close>, \<open>Connection_Lifecycle\<close>: the connection endpoint and its event
    loop (connection/mod.rs, engine.rs). The branch \<open>select!\<close> takes and what the transport yields are
    arguments, so the theorems hold for every schedule; frames are routed to the session of their
    channel (locale \<open>frame_router\<close>) and nothing but empty and close frames follows a close.
  \<^item> \<open>Sender_Link\<close>, \<open>Sender_Delivery\<close>: sending a delivery (link/sender_link.rs) and the detach exchange.
  \<^item> \<open>Receiver_Link\<close>, \<open>Receiver_Delivery\<close>: reassembly, delivery, credit and dispositions
    (link/incomplete_transfer.rs, receiver_link.rs, receiver.rs). Decoding the message into the type
    of the application is an argument.
  \<^item> \<open>Receiver_Disposition\<close>: disposing of a batch refines disposing of one delivery after the other.
  \<^item> \<open>Link_Attach\<close>: the attach exchange of both roles (link/mod.rs, sender_link.rs, receiver_link.rs,
    source.rs, target_archetype.rs) with what follows a failed exchange, and the table that decides
    how an unsettled delivery is resumed (resumption.rs).
  \<^item> \<open>Link_Resumption\<close>: detaching, closing and reattaching around the exchange (shared_inner.rs) and
    resuming a link (sender.rs, receiver.rs). What a select between credit and frames ends with and
    the answers of the session are lists of the state; loops that may not end are partial functions.
  \<^item> \<open>Link_Handshake\<close>: how an attach is cut to a frame, that closing leaves a link closed whatever
    crosses it (locale \<open>reattachable\<close>, for both roles), and that an incomplete resumption fails.
  \<^item> \<open>Link_Recovery\<close>: what is decided for each delivery of a resumed link, where a payload is cut, and
    what becomes of a delivery that was received in part.
  \<^item> \<open>Transaction_Session\<close>, \<open>Transaction_Atomicity\<close>: the transaction manager of a session and the
    session that holds transactional work back (transaction/manager.rs, session.rs). A rollback leaves
    no trace and a commit acts as if all work had arrived at that moment, whatever is interleaved
    (events \<open>txn_event\<close>, runs \<open>txn_run\<close>).
  \<^item> \<open>Transaction_Coordinator\<close>, \<open>Transaction_System\<close>: the coordinator of a control link
    (transaction/coordinator.rs) over what a transaction manager promises (locale
    \<open>transaction_resource\<close>), and a session with any number of coordinators: every live transaction has
    one owner (\<open>txn_system_step\<close>, \<open>txn_reachable\<close>).
  \<^item> \<open>Transaction_Control\<close>, \<open>Transaction_Posting\<close>: the application's side (transaction/controller.rs,
    mod.rs, owned.rs, acquisition.rs): declaring, discharging, posting, retiring, acquiring and the
    rollback on drop.
  \<^item> \<open>Scram\<close>, \<open>Scram_Exchange\<close>: the messages and state machines of SCRAM (auth/scram). Hash functions,
    base64, password normalization and random bytes are an argument (\<open>crypto\<close>), with what is relied on
    as \<open>crypto_laws\<close>.
  \<^item> \<open>Sasl\<close>, \<open>Sasl_Security\<close>: how a connection starts: the exchange of protocol headers
    (transport/protocol_header.rs, transport/mod.rs) and SASL negotiation of client and listener
    (sasl_profile, connection/builder.rs, acceptor/sasl_acceptor.rs, scram.rs, connection.rs). Either side
    gets to the connection only when the other has proved to know the key, and an honest exchange does.
  \<^item> This theory: a delivery through sender, session, the bytes of the transport and receiver.

  \<^bold>\<open>Conventions.\<close> A method on \<open>&mut self\<close> returns the new state and the result, an error as the left
  summand; panics and loops that never return are values of their own. Integers are words; arithmetic
  the code leaves unchecked wraps, as in a release build. Locks are held for the whole of an
  operation, so operations on shared cells interleave as sequences. The key the slab crate hands out,
  the frames a stream yields and the decoding of messages are arguments.

  \<^bold>\<open>Not modelled.\<close> The acceptors of links and sessions, and the variants of detach and resume with a
  timeout. TLS, WebSocket transport, the length-delimited codec, cryptographic functions and the async
  runtime are third-party code. Builders, the handles given to the application (which send control
  messages to the engines and await the answer) and the management and CBS clients carry no protocol
  logic of their own.
\<close>

section \<open>A delivery from one application to the other\<close>

lemma delivery_transfers_not_Nil: "delivery_transfers h t m p \<noteq> []"
  by (simp add: delivery_transfers_def Let_def)

lemma map_more:
  "map (tr_more \<circ> lt_performative) (delivery_transfers h t m p) =
     replicate (length (delivery_transfers h t m p) - 1) True @ [False]"
  using delivery_transfers_not_Nil [of h t m p]
  by (intro nth_equalityI) (auto simp: delivery_transfers_more nth_append)

lemma emitted_frame:
  assumes "tr_delivery_tag t \<noteq> None" and "0 < m"
    and "fr \<in> set (emit_delivery s True (delivery_transfers h t m p))"
  obtains did b q where "length q \<le> m"
    and "frame_of_session (sf_channel fr) (sf_body fr) =
      frame_new (s_outgoing_channel s) (FTransfer (transfer_on_wire t did b) q)"
proof -
  obtain lt lts where d: "delivery_transfers h t m p = lt # lts"
    using delivery_transfers_not_Nil [of h t m p] by (meson list.exhaust)
  obtain b where first: "lt_performative lt = t\<lparr>tr_more := b\<rparr>" "length (lt_payload lt) \<le> m"
    using delivery_transfers_wire [of 0 h t m p] assms(2) d by auto
  have rest: "\<exists>b. lt_performative x = transfer_on_wire t None b \<and> length (lt_payload x) \<le> m"
    if x: "x \<in> set lts" for x
  proof -
    obtain j where "j < length lts" "x = lts ! j" using x by (auto simp: in_set_conv_nth)
    then show ?thesis using delivery_transfers_wire [of "Suc j" h t m p] assms(2) d by auto
  qed
  have "tr_delivery_tag (lt_performative lt) \<noteq> None" using first assms(1) by simp
  from assms(3) [unfolded d emit_first [OF this]]
  consider "fr = session_frame_new (s_outgoing_channel s) (SfTransfer
        ((lt_performative lt)\<lparr>tr_delivery_id := Some (s_next_outgoing_delivery_id s)\<rparr>) (lt_payload lt))"
    | x where "x \<in> set lts"
        "fr = session_frame_new (s_outgoing_channel s) (SfTransfer (lt_performative x) (lt_payload x))"
    by auto
  then show thesis
  proof cases
    case 1
    then show thesis
      using that [of "lt_payload lt" "Some (s_next_outgoing_delivery_id s)" b] first
      by (simp add: session_frame_new_def transfer_on_wire_def)
  next
    case 2
    then show thesis using that rest [OF 2(1)] by (auto simp: session_frame_new_def)
  qed
qed

lemma encodable_wire_fields:
  "list_all (\<lambda>f. encodable (wire_value f)) fs \<Longrightarrow> list_all encodable (wire_fields n fs)"
  by (induction fs arbitrary: n) (auto simp: list_all_iff)

lemma length_wire_fields: "length (wire_fields n fs) \<le> n + length fs"
proof (induction fs arbitrary: n)
  case (Cons f fs)
  show ?case using Cons.IH [of "Suc n"] Cons.IH [of 0] by simp
qed simp

lemma plain_transfer_encodable:
  assumes "tr_state t = None" and "\<And>tag. tr_delivery_tag t = Some tag \<Longrightarrow> length tag \<le> U32_MAX_MINUS_4"
  shows "encodable (wire_value (transfer_composite t))"
proof -
  obtain fs where fs: "transfer_composite t = FComposite 0x14 fs" by (simp add: transfer_composite_def)
  then have "list_all (\<lambda>f. encodable (wire_value f)) fs"
    using assms by (auto simp: transfer_composite_def opt_def dflt_def split: option.splits)
  moreover have "length (wire_fields 0 fs) \<le> MAX_ARRAY_COUNT"
    using fs length_wire_fields [of 0 fs] by (auto simp: transfer_composite_def MAX_ARRAY_COUNT_def)
  ultimately show ?thesis using encodable_wire_fields fs by simp
qed

lemma fields_size_each:
  "fields_size n fs = Inr k \<Longrightarrow> f \<in> set fs \<Longrightarrow> f \<noteq> FNone \<Longrightarrow> \<exists>m. field_size f = Inr m"
  by (induction fs arbitrary: n k) (auto split: if_splits sum.splits)

text \<open>A delivery-tag that is too long to be written has no size.\<close>

lemma sized_tag:
  assumes "performative_size t = Inr n" and "tr_delivery_tag t = Some tag"
  shows "length tag \<le> U32_MAX_MINUS_4"
proof -
  let ?big = "t\<lparr>tr_more := True, tr_delivery_id := Some 0xFFFFFFFF\<rparr>"
  obtain fs where fs: "transfer_composite ?big = FComposite 0x14 fs" by (simp add: transfer_composite_def)
  then obtain k where "fields_size 0 fs = Inr k"
    using assms(1) by (auto simp: performative_size_def split: sum.splits)
  moreover have "FValue (VBinary tag) \<in> set fs"
    using fs assms(2) by (auto simp: transfer_composite_def opt_def)
  ultimately obtain m where "field_size (FValue (VBinary tag)) = Inr m" using fields_size_each by blast
  then show ?thesis
    by (auto simp: serialized_size_def size_serializer_new_def size_bytes_def size_variable_def
        U8_MAX_MINUS_1_def U32_MAX_MINUS_4_def split: if_splits)
qed

text \<open>Each transfer of a delivery leaves as one frame, whatever delivery-id the session assigns.\<close>

lemma emitted_frame_sent:
  assumes "field_ok (transfer_composite t)" and "performative_size t = Inr n" and "tr_delivery_tag t \<noteq> None"
    and "0 < m" and "4 + n + m = M" and "fr \<in> set (emit_delivery s True (delivery_transfers h t m p))"
  shows "\<exists>bs. start_send M (frame_of_session (sf_channel fr) (sf_body fr)) = Some (Inr [bs]) \<and> length bs \<le> M"
proof -
  from emitted_frame [OF assms(3,4,6)] obtain did b q where
    fr: "length q \<le> m" "frame_of_session (sf_channel fr) (sf_body fr) =
      frame_new (s_outgoing_channel s) (FTransfer (transfer_on_wire t did b) q)" .
  obtain buf where buf: "serialize_field (transfer_composite (transfer_on_wire t did b)) = Inr buf" "length buf \<le> n"
    using transfer_on_wire_fits [OF assms(1,2)] by blast
  then have "4 + length buf + length q \<le> M" using fr(1) assms(5) by simp
  then show ?thesis using transfer_is_one_frame [OF buf(1)] fr(2) by simp
qed

lemma emitted_frame_decoded:
  assumes "tr_state t = None" and "performative_size t = Inr n" and "tr_delivery_tag t \<noteq> None" and "0 < m"
    and fr: "fr \<in> set (emit_delivery s True (delivery_transfers h t m p))"
    and sent: "start_send M (frame_of_session (sf_channel fr) (sf_body fr)) = Some (Inr [bs])"
  shows "decode_frame bs = Some (Inr (frame_new (s_outgoing_channel s)
    (FTransfer (fst (received_transfer fr)) (snd (received_transfer fr)))))"
proof -
  from emitted_frame [OF assms(3,4) fr] obtain did b q where
    q: "frame_of_session (sf_channel fr) (sf_body fr) =
      frame_new (s_outgoing_channel s) (FTransfer (transfer_on_wire t did b) q)" .
  have wire: "tr_state (transfer_on_wire t did b) = None"
    "\<And>tag. tr_delivery_tag (transfer_on_wire t did b) = Some tag \<Longrightarrow> length tag \<le> U32_MAX_MINUS_4"
    using assms(1) sized_tag [OF assms(2)]
    by (auto simp: transfer_on_wire_def clear_continuation_fields_def split: option.splits)
  have "received_transfer fr = (transfer_on_wire t did b, q)"
    using q by (auto simp: received_transfer_def frame_new_def on_outgoing_begin_def on_outgoing_end_def split: session_frame_body.splits)
  then show ?thesis
    using decode_start_send [OF sent] plain_transfer_encodable [OF wire] wire(1) q
    by (simp add: frame_new_def)
qed

text \<open>
  C6: The sender splits a delivery so that every transfer it hands to the session leaves the
  connection as exactly one frame within the negotiated size, whatever delivery-id the session
  assigns: the encoder never splits again. The payloads add up to the payload of the delivery, and
  \<open>more\<close> is set on all transfers but the last.
\<close>

theorem delivery_leaves_in_whole_frames:
  assumes "l_input_handle l = Some h" and "rx_alive w" and "field_ok (transfer_composite t)"
    and "performative_size t = Inr n" and "n + 4 < l_max_frame_size l" and "tr_delivery_tag t \<noteq> None"
  shows "\<exists>lts. send_transfer_without_modifying_unsettled_map l w t payload =
        Some (w\<lparr>sent := sent w @ delivery_frames lts\<rparr>, Inr (is_settled_on_send l t)) \<and>
      concat (map lt_payload lts) = payload \<and>
      map (tr_more \<circ> lt_performative) lts = replicate (length lts - 1) True @ [False] \<and>
      length (emit_delivery s True lts) = length lts \<and>
      (\<forall>fr \<in> set (emit_delivery s True lts). \<exists>bs.
         start_send (l_max_frame_size l) (frame_of_session (sf_channel fr) (sf_body fr)) = Some (Inr [bs]) \<and>
         length bs \<le> l_max_frame_size l)"
proof -
  define m where "m = l_max_frame_size l - 4 - n"
  define lts where "lts = delivery_transfers h t m payload"
  have m: "0 < m" "4 + n + m = l_max_frame_size l" using assms(5) by (simp_all add: m_def)
  note one = emitted_frame_sent [OF assms(3,4,6) m, of _ s h payload, folded lts_def]
  have "length (emit_delivery s True lts) = length lts"
  proof -
    obtain lt rest where d: "lts = lt # rest"
      using delivery_transfers_not_Nil by (metis lts_def list.exhaust)
    moreover have "tr_delivery_tag (lt_performative lt) \<noteq> None"
      using delivery_transfers_wire [of 0 h t m payload] m(1) assms(6) d by (auto simp: lts_def)
    ultimately show ?thesis by (simp add: emit_first del: emit_delivery.simps)
  qed
  then show ?thesis
    using one send_delivery [OF assms(1,2,4,5)] map_more delivery_transfers_payload
    by (intro exI [of _ lts]) (auto simp: lts_def m_def)
qed

definition example_transfer :: transfer where
  "example_transfer = \<lparr>tr_handle = 0, tr_delivery_id = None, tr_delivery_tag = Some [0, 0, 0, 1],
     tr_message_format = Some 0, tr_settled = Some False, tr_more = False, tr_rcv_settle_mode = None,
     tr_state = None, tr_resume = False, tr_aborted = False, tr_batchable = False\<rparr>"

definition example_link :: sender_link where
  "example_link = \<lparr>l_local_state = LkAttached, l_name = ''q'', l_output_handle = Some 0,
     l_input_handle = Some 7, l_snd_settle_mode = Mixed, l_rcv_settle_mode = First, l_source = None,
     l_target = None, l_max_message_size = 0, l_offered_capabilities = None, l_desired_capabilities = None,
     l_flow_state = \<lparr>initial_delivery_count = 0, delivery_count = 0, link_credit = 1, available = 0,
        drain = False, properties = None\<rparr>,
     l_unsettled = None, l_session_stop_reason = None, l_max_frame_size = 27,
     l_verify_incoming_source = True, l_verify_incoming_target = True, sl_resolved = Map.empty\<rparr>"

definition example_writer :: "link_frame chan" where
  "example_writer = \<lparr>rx_alive = True, sent = []\<rparr>"

lemma example_performative_size: "performative_size example_transfer = Inr 21"
  by (simp add: performative_size_def example_transfer_def transfer_composite_def opt_def dflt_def
      serialized_size_def size_serializer_new_def size_bytes_def size_variable_def list_size_def
      map_size_def U8_MAX_MINUS_1_def)

theorem delivery_leaves_in_whole_frames_witness:
  "\<exists>lts. send_transfer_without_modifying_unsettled_map example_link example_writer example_transfer [1, 2, 3] =
      Some (example_writer\<lparr>sent := delivery_frames lts\<rparr>, Inr False) \<and>
    concat (map lt_payload lts) = [1, 2, 3] \<and>
    (\<forall>fr \<in> set (emit_delivery example_session True lts). \<exists>bs.
       start_send 27 (frame_of_session (sf_channel fr) (sf_body fr)) = Some (Inr [bs]) \<and> length bs \<le> 27)"
proof -
  have "field_ok (transfer_composite example_transfer)"
    by (simp add: transfer_composite_def example_transfer_def opt_def dflt_def)
  moreover have "l_input_handle example_link = Some 7" "l_max_frame_size example_link = 27"
      "rx_alive example_writer" "sent example_writer = []" "tr_delivery_tag example_transfer \<noteq> None"
      "is_settled_on_send example_link example_transfer = False"
    by (simp_all add: example_link_def example_writer_def example_transfer_def is_settled_on_send_def)
  ultimately show ?thesis
    using delivery_leaves_in_whole_frames [of example_link 7 example_writer example_transfer 21 "[1, 2, 3]"
        example_session] example_performative_size
    by auto
qed

text \<open>The receiver assembles the transfers of a delivery to one message.\<close>

lemma emitted_delivery_received:
  assumes "0 < m" and "ready_for r t (length payload)" and "decode payload = Some msg"
    and lts_def: "lts = delivery_transfers h t m payload"
  shows "\<exists>r' d. recv_run decode r (map received_transfer (emit_delivery s True lts)) =
        (r', replicate (length lts - 1) (RecvOk None) @ [RecvOk (Some d)]) \<and>
      dl_message d = msg \<and> dl_delivery_id d = s_next_outgoing_delivery_id s \<and>
      tr_delivery_tag t = Some (dl_delivery_tag d) \<and> dl_message_format d = tr_message_format t"
proof -
  let ?id = "s_next_outgoing_delivery_id s"
  have tag: "tr_delivery_tag (t\<lparr>tr_more := b\<rparr>) \<noteq> None" for b using assms(2) by (simp add: ready_for_def)
  have ready: "ready_for r (t\<lparr>tr_more := b, tr_delivery_id := x\<rparr>) (length payload)" for b x
    using assms(2) by (simp add: ready_for_def)
  show ?thesis
  proof (cases "length payload \<le> m")
    case True
    then have "map received_transfer (emit_delivery s True lts) =
        [(t\<lparr>tr_more := False, tr_delivery_id := Some ?id\<rparr>, payload)]"
      using tag [of False] by (simp add: lts_def delivery_transfers_def emit_first del: emit_delivery.simps)
    moreover have "length lts = 1" using True by (simp add: lts_def delivery_transfers_def)
    ultimately show ?thesis
      using recv_single [OF ready [of "Some ?id" False], of ?id payload decode msg] assms(3)
      by auto
  next
    case False
    define c where "c = clear_continuation_fields (t\<lparr>tr_more := True\<rparr>)"
    define ps where "ps = split_payload m (drop m payload)"
    have lts: "lts = link_transfer_of h (t\<lparr>tr_more := True\<rparr>) (take m payload) #
        map (link_transfer_of h c) (butlast ps) @ [link_transfer_of h (c\<lparr>tr_more := False\<rparr>) (last ps)]"
      using False by (simp add: lts_def delivery_transfers_def c_def ps_def Let_def)
    then have run: "map received_transfer (emit_delivery s True lts) =
        (t\<lparr>tr_more := True, tr_delivery_id := Some ?id\<rparr>, take m payload) #
        map (Pair c) (butlast ps) @ [(c\<lparr>tr_more := False\<rparr>, last ps)]"
      using tag [of True] by (simp add: emit_first o_def del: emit_delivery.simps)
    have c: "plain_continuation c" "tr_more c" "plain_continuation (c\<lparr>tr_more := False\<rparr>)"
      using assms(2) by (simp_all add: c_def plain_continuation_def clear_continuation_fields_def ready_for_def)
    have whole: "take m payload @ concat (butlast ps) @ last ps = payload"
      using delivery_transfers_payload [of h t m payload] lts by (simp add: lts_def o_def)
    have len: "length lts - 1 = Suc (length (butlast ps))" using lts by simp
    show ?thesis
      using recv_multi [OF ready [of "Some ?id" True] _ _ c _, of ?id "take m payload" "butlast ps"
          "last ps" decode msg] assms(3) run whole len
      by auto
  qed
qed

text \<open>
  C1: What the application of the sender hands over is what the application of the receiver gets:
  every transfer of the delivery leaves the transport as one frame, the bytes of the frames are decoded
  to the transfers, and from these, however many, the receiver makes exactly one delivery, with the
  message in the payload, the delivery-id the session assigned and the tag and the message-format of
  the sender.
\<close>

theorem payload_is_delivered:
  assumes "l_input_handle l = Some h" and "rx_alive w" and "performative_size t = Inr n"
    and "n + 4 < l_max_frame_size l" and "ready_for r t (length payload)" and "decode payload = Some msg"
  shows "\<exists>lts bss tps r' d. send_transfer_without_modifying_unsettled_map l w t payload =
        Some (w\<lparr>sent := sent w @ delivery_frames lts\<rparr>, Inr (is_settled_on_send l t)) \<and>
      list_all2 (\<lambda>fr bs. start_send (l_max_frame_size l) (frame_of_session (sf_channel fr) (sf_body fr)) = Some (Inr [bs]))
        (emit_delivery s True lts) bss \<and>
      list_all2 (\<lambda>bs (t', p). decode_frame bs = Some (Inr (frame_new (s_outgoing_channel s) (FTransfer t' p)))) bss tps \<and>
      recv_run decode r tps = (r', replicate (length lts - 1) (RecvOk None) @ [RecvOk (Some d)]) \<and>
      dl_message d = msg \<and> dl_delivery_id d = s_next_outgoing_delivery_id s \<and>
      tr_delivery_tag t = Some (dl_delivery_tag d) \<and> dl_message_format d = tr_message_format t"
proof -
  define m where "m = l_max_frame_size l - 4 - n"
  define lts where "lts = delivery_transfers h t m payload"
  define frs where "frs = emit_delivery s True lts"
  have m: "0 < m" "4 + n + m = l_max_frame_size l" using assms(4) by (simp_all add: m_def)
  have t: "tr_state t = None" "tr_delivery_tag t \<noteq> None" using assms(5) by (simp_all add: ready_for_def)
  then have "field_ok (transfer_composite t)"
    by (auto simp: transfer_composite_def opt_def dflt_def split: option.splits)
  then have "\<forall>fr \<in> set frs. \<exists>bs.
      start_send (l_max_frame_size l) (frame_of_session (sf_channel fr) (sf_body fr)) = Some (Inr [bs])"
    using emitted_frame_sent [OF _ assms(3) t(2) m] by (metis frs_def lts_def)
  then obtain enc where enc: "\<And>fr. fr \<in> set frs \<Longrightarrow>
      start_send (l_max_frame_size l) (frame_of_session (sf_channel fr) (sf_body fr)) = Some (Inr [enc fr])"
    by metis
  have dec: "decode_frame (enc fr) = Some (Inr (frame_new (s_outgoing_channel s)
      (FTransfer (fst (received_transfer fr)) (snd (received_transfer fr)))))" if "fr \<in> set frs" for fr
    using emitted_frame_decoded [OF t(1) assms(3) t(2) m(1) _ enc [OF that]] that by (simp add: frs_def lts_def)
  have "list_all2 (\<lambda>fr bs. start_send (l_max_frame_size l) (frame_of_session (sf_channel fr) (sf_body fr)) =
      Some (Inr [bs])) frs (map enc frs)"
    using enc by (simp add: list_all2_conv_all_nth)
  moreover have "list_all2 (\<lambda>bs (t', p). decode_frame bs = Some (Inr (frame_new (s_outgoing_channel s)
      (FTransfer t' p)))) (map enc frs) (map received_transfer frs)"
    using dec by (auto simp: list_all2_conv_all_nth split_beta)
  moreover have "send_transfer_without_modifying_unsettled_map l w t payload =
      Some (w\<lparr>sent := sent w @ delivery_frames lts\<rparr>, Inr (is_settled_on_send l t))"
    using send_delivery [OF assms(1-4)] by (simp add: lts_def m_def)
  ultimately show ?thesis
    using emitted_delivery_received [of m r t payload decode msg lts h s, OF m(1) assms(5,6) lts_def]
    unfolding frs_def by blast
qed

definition example_receiver :: receiver_inner where
  "example_receiver = \<lparr>
     ri_link = \<lparr>l_local_state = LkAttached, l_name = ''q'', l_output_handle = Some 4,
       l_input_handle = Some 0, l_snd_settle_mode = Mixed, l_rcv_settle_mode = First, l_source = None,
       l_target = None, l_max_message_size = 3, l_offered_capabilities = None, l_desired_capabilities = None,
       l_flow_state = \<lparr>initial_delivery_count = 0, delivery_count = 0, link_credit = 1, available = 0,
          drain = False, properties = None\<rparr>,
       l_unsettled = None, l_session_stop_reason = None, l_max_frame_size = 512,
     l_verify_incoming_source = True, l_verify_incoming_target = True\<rparr>,
     ri_credit_mode = Manual, ri_processed = 0, ri_auto_accept = False,
     ri_outgoing = \<lparr>rx_alive = True, sent = []\<rparr>, ri_incomplete_transfer = None\<rparr>"

theorem payload_is_delivered_witness:
  "\<exists>lts bss tps r' d. send_transfer_without_modifying_unsettled_map example_link example_writer example_transfer [1, 2, 3] =
      Some (example_writer\<lparr>sent := delivery_frames lts\<rparr>, Inr False) \<and>
    list_all2 (\<lambda>bs (t', p). decode_frame bs = Some (Inr (frame_new (s_outgoing_channel example_session) (FTransfer t' p)))) bss tps \<and>
    recv_run Some example_receiver tps = (r', replicate (length lts - 1) (RecvOk None) @ [RecvOk (Some d)]) \<and>
    dl_message d = [1, 2, 3] \<and> dl_delivery_tag d = [0, 0, 0, 1]"
proof -
  have "ready_for example_receiver example_transfer (length ([1, 2, 3] :: bytes))"
    by (simp add: ready_for_def example_receiver_def example_transfer_def size_allowed_def)
  moreover have "l_input_handle example_link = Some 7" "l_max_frame_size example_link = 27"
      "rx_alive example_writer" "sent example_writer = []" "tr_delivery_tag example_transfer = Some [0, 0, 0, 1]"
      "is_settled_on_send example_link example_transfer = False"
    by (simp_all add: example_link_def example_writer_def example_transfer_def is_settled_on_send_def)
  ultimately obtain lts bss tps r' d where w:
    "send_transfer_without_modifying_unsettled_map example_link example_writer example_transfer [1, 2, 3] =
       Some (example_writer\<lparr>sent := delivery_frames lts\<rparr>, Inr False)"
    "list_all2 (\<lambda>bs (t', p). decode_frame bs = Some (Inr (frame_new (s_outgoing_channel example_session) (FTransfer t' p)))) bss tps"
    "recv_run Some example_receiver tps = (r', replicate (length lts - 1) (RecvOk None) @ [RecvOk (Some d)])"
    "dl_message d = [1, 2, 3]" "dl_delivery_tag d = [0, 0, 0, 1]"
    using payload_is_delivered [of example_link 7 example_writer example_transfer 21 example_receiver "[1, 2, 3]"
        Some "[1, 2, 3]" example_session] example_performative_size
    by auto
  then show ?thesis by blast
qed

end
